(* ===== verification/Prelude.thy ===== *)
theory Prelude
  imports Main "HOL-Library.Word"
begin

text \<open>
  Shared vocabulary of the development: the machine integers of the crate (\<open>u8\<close>, \<open>u16\<close>,
  \<open>u32\<close>, \<open>u64\<close>) as words of their width, byte vectors as lists, the little-endian
  conversions \<open>to_le_bytes\<close>/\<open>from_le_bytes\<close>, slices, \<open>Iterator::position\<close>,
  \<open>slice::chunks\<close>, the early return of Rust's \<open>?\<close> operator on state-passing
  functions, \<open>unwrap\<close> in tests and hexadecimal digits, each with the lemmas the components share. Two collections carry the proofs:
  \<open>le_simps\<close> (little-endian round trips and lengths) and \<open>range_simps\<close> (slices and positions).
\<close>

unbundle bit_operations_syntax

type_synonym u8 = "8 word"
type_synonym u16 = "16 word"
type_synonym u32 = "32 word"
type_synonym u64 = "64 word"
type_synonym u128 = "128 word"
type_synonym bytes = "8 word list"

named_theorems le_simps "little-endian conversions"
named_theorems range_simps "slices, positions and chunks of byte lists"

subsection \<open>Little-endian integers\<close>

text \<open>\<open>u16::to_le_bytes\<close>, \<open>u32::to_le_bytes\<close>, \<open>u64::to_le_bytes\<close> and their inverses.\<close>

definition le16 :: "u16 \<Rightarrow> bytes" where
  "le16 w = [ucast w, ucast (drop_bit 8 w)]"

definition of_le16 :: "u8 \<Rightarrow> u8 \<Rightarrow> u16" where
  "of_le16 b0 b1 = ucast b0 OR push_bit 8 (ucast b1)"

definition le32 :: "u32 \<Rightarrow> bytes" where
  "le32 w = [ucast w, ucast (drop_bit 8 w), ucast (drop_bit 16 w), ucast (drop_bit 24 w)]"

definition of_le32 :: "u8 \<Rightarrow> u8 \<Rightarrow> u8 \<Rightarrow> u8 \<Rightarrow> u32" where
  "of_le32 b0 b1 b2 b3 =
     ucast b0 OR push_bit 8 (ucast b1) OR push_bit 16 (ucast b2) OR push_bit 24 (ucast b3)"

definition le64 :: "u64 \<Rightarrow> bytes" where
  "le64 w = map (\<lambda>i. ucast (drop_bit (8 * i) w)) [0, 1, 2, 3, 4, 5, 6, 7]"

lemma length_le16 [le_simps, simp]: "length (le16 w) = 2"
  by (simp add: le16_def)

lemma length_le32 [le_simps, simp]: "length (le32 w) = 4"
  by (simp add: le32_def)

lemma length_le64 [le_simps, simp]: "length (le64 w) = 8"
  by (simp add: le64_def)

lemma of_le16_le16 [le_simps, simp]: "of_le16 (le16 w ! 0) (le16 w ! Suc 0) = w"
  by (rule bit_word_eqI) (auto simp: of_le16_def le16_def bit_simps)

lemma of_le16_inj [le_simps]:
  "of_le16 a b = of_le16 c d \<longleftrightarrow> a = c \<and> b = d"
proof
  assume eq: "of_le16 a b = of_le16 c d"
  have bits: "bit (of_le16 a b) n = bit (of_le16 c d) n" for n
    using eq by simp
  have "a = c"
  proof (rule bit_word_eqI)
    fix n assume "n < LENGTH(8)"
    then show "bit a n = bit c n"
      using bits [of n] by (auto simp: of_le16_def bit_simps)
  qed
  moreover have "b = d"
  proof (rule bit_word_eqI)
    fix n assume "n < LENGTH(8)"
    then show "bit b n = bit d n"
      using bits [of "n + 8"] by (auto simp: of_le16_def bit_simps dest: bit_imp_le_length)
  qed
  ultimately show "a = c \<and> b = d" ..
qed simp

lemma le16_of_le16 [le_simps, simp]: "le16 (of_le16 a b) = [a, b]"
proof -
  have "of_le16 (le16 (of_le16 a b) ! 0) (le16 (of_le16 a b) ! Suc 0) = of_le16 a b"
    by simp
  then show ?thesis
    by (auto simp: of_le16_inj le16_def)
qed

lemma of_le32_le32 [le_simps, simp]:
  "of_le32 (le32 w ! 0) (le32 w ! Suc 0) (le32 w ! 2) (le32 w ! 3) = w"
proof (rule bit_word_eqI)
  fix n assume "n < LENGTH(32)"
  then consider "n < 8" | "8 \<le> n" "n < 16" | "16 \<le> n" "n < 24" | "24 \<le> n" "n < 32" by fastforce
  then show "bit (of_le32 (le32 w ! 0) (le32 w ! Suc 0) (le32 w ! 2) (le32 w ! 3)) n = bit w n"
    by cases (auto simp: of_le32_def le32_def bit_simps)
qed

lemma xor_eq_zero_iff [simp]: "a XOR b = 0 \<longleftrightarrow> a = b" for a b :: "'a::len word"
  by (auto simp: bit_eq_iff bit_simps)

lemma xor_cancel [simp]:
  "a XOR c = b XOR c \<longleftrightarrow> a = b" "c XOR a = c XOR b \<longleftrightarrow> a = b" for a b c :: "'a::len word"
  by (auto simp: bit_eq_iff bit_simps)

subsection \<open>Slices, positions, chunks\<close>

text \<open>\<open>&xs[a..b]\<close>, for bounds that are in range where the code takes the slice.\<close>

definition subrange :: "'a list \<Rightarrow> nat \<Rightarrow> nat \<Rightarrow> 'a list" where
  "subrange xs a b = take (b - a) (drop a xs)"

text \<open>\<open>iter().position(p)\<close>: the index of the first element with \<open>p\<close>.\<close>

fun position :: "('a \<Rightarrow> bool) \<Rightarrow> 'a list \<Rightarrow> nat option" where
  "position p [] = None"
| "position p (x # xs) = (if p x then Some 0 else map_option Suc (position p xs))"

text \<open>\<open>slice::chunks(n)\<close>: consecutive pieces of \<open>n\<close> elements, the last one possibly shorter.\<close>

function chunks_of :: "nat \<Rightarrow> 'a list \<Rightarrow> 'a list list" where
  "chunks_of n xs = (if n = 0 \<or> xs = [] then [] else take n xs # chunks_of n (drop n xs))"
  by pat_completeness auto
termination
  by (relation "measure (\<lambda>(n, xs). length xs)") auto

declare chunks_of.simps [simp del]

lemma length_subrange [range_simps, simp]:
  "length (subrange xs a b) = min (b - a) (length xs - a)"
  by (simp add: subrange_def min.commute)

lemma subrange_nth [range_simps]:
  "a + i < length xs \<Longrightarrow> i < b - a \<Longrightarrow> subrange xs a b ! i = xs ! (a + i)"
  by (simp add: subrange_def)

lemma subrange_split [range_simps]:
  "a \<le> b \<Longrightarrow> subrange xs a b @ drop b xs = drop a xs"
  by (metis append_take_drop_id drop_drop le_add_diff_inverse2 subrange_def)

lemma split_last_two:
  "2 \<le> length f \<Longrightarrow> f = take (length f - 2) f @ [f ! (length f - 2), f ! (length f - 1)]"
proof -
  assume "2 \<le> length f"
  then obtain xs a b where "f = (xs @ [a]) @ [b]"
    by (cases f rule: rev_cases, simp, metis One_nat_def Suc_1 Suc_le_mono add_Suc_right append_is_Nil_conv
        length_append_singleton le_zero_eq length_0_conv nat.distinct(1) rev_exhaust)
  then show ?thesis by (simp add: nth_append)
qed

lemma position_None_iff [range_simps]: "position p xs = None \<longleftrightarrow> (\<forall>x\<in>set xs. \<not> p x)"
  by (induction xs) auto

lemma position_append:
  "position p (xs @ ys) =
     (case position p xs of Some i \<Rightarrow> Some i | None \<Rightarrow> map_option ((+) (length xs)) (position p ys))"
proof (induction xs)
  case Nil
  show ?case by (cases "position p ys") auto
next
  case (Cons x xs)
  then show ?case
    by (cases "position p xs"; cases "position p ys") auto
qed

lemma position_Some_iff [range_simps]:
  "position p xs = Some i \<longleftrightarrow> i < length xs \<and> p (xs ! i) \<and> (\<forall>j < i. \<not> p (xs ! j))"
proof (induction xs arbitrary: i)
  case Nil
  then show ?case by simp
next
  case (Cons x xs)
  show ?case
  proof (cases i)
    case 0
    then show ?thesis by auto
  next
    case (Suc k)
    then show ?thesis
      using Cons.IH [of k] by (auto simp: less_Suc_eq_0_disj)
  qed
qed

lemma position_hit:
  "\<forall>x\<in>set xs. \<not> p x \<Longrightarrow> p y \<Longrightarrow> position p (xs @ y # ys) = Some (length xs)"
  by (simp add: position_append position_None_iff [THEN iffD2])

lemma concat_chunks_of [range_simps]: "0 < n \<Longrightarrow> concat (chunks_of n xs) = xs"
  by (induction n xs rule: chunks_of.induct) (subst chunks_of.simps, auto)

lemma chunks_of_length:
  "c \<in> set (chunks_of n xs) \<Longrightarrow> 0 < length c \<and> length c \<le> n"
proof (induction n xs rule: chunks_of.induct)
  case (1 n xs)
  then show ?case
    by (cases "n = 0 \<or> xs = []") (auto simp: chunks_of.simps [of n xs] min_def)
qed

lemma chunks_of_Nil [simp]: "chunks_of n [] = []" "chunks_of 0 xs = []"
  by (simp_all add: chunks_of.simps)

subsection \<open>Rust's early return on state-passing functions\<close>

text \<open>
  A method that takes \<open>&mut self\<close> and returns a \<open>Result\<close> is a function from the state to a
  result and the new state. \<open>and_then r k\<close> is \<open>r?\<close> followed by the rest of the body: an error
  returns at once with the state reached so far, a value goes on.
\<close>

definition and_then :: "('e + 'a) \<times> 's \<Rightarrow> ('a \<Rightarrow> 's \<Rightarrow> ('e + 'b) \<times> 's) \<Rightarrow> ('e + 'b) \<times> 's" where
  "and_then r k = (case r of (Inl e, s) \<Rightarrow> (Inl e, s) | (Inr a, s) \<Rightarrow> k a s)"

lemma and_then_simps [simp]:
  "and_then (Inl e, s) k = (Inl e, s)"
  "and_then (Inr a, s) k = k a s"
  by (simp_all add: and_then_def)

lemma and_then_Inr_iff:
  "and_then r k = (Inr b, s') \<longleftrightarrow> (\<exists>a s. r = (Inr a, s) \<and> k a s = (Inr b, s'))"
  by (cases r; cases "fst r") auto

lemma and_then_split:
  "P (and_then r k) \<longleftrightarrow>
     (\<forall>e s. r = (Inl e, s) \<longrightarrow> P (Inl e, s)) \<and> (\<forall>a s. r = (Inr a, s) \<longrightarrow> P (k a s))"
  by (cases r; cases "fst r") auto

subsection \<open>\<open>unwrap\<close> in tests\<close>

text \<open>A test that goes on with the value inside an \<open>Option\<close> or a \<open>Result\<close>, and fails without one.\<close>

definition expect :: "'a option \<Rightarrow> ('a \<Rightarrow> bool) \<Rightarrow> bool" where
  "expect x P = (case x of None \<Rightarrow> False | Some v \<Rightarrow> P v)"

definition expect_ok :: "'e + 'a \<Rightarrow> ('a \<Rightarrow> bool) \<Rightarrow> bool" where
  "expect_ok r P = (case r of Inl _ \<Rightarrow> False | Inr v \<Rightarrow> P v)"

lemma expect_simps [simp]:
  "expect (Some v) P = P v" "expect None P = False" "expect_ok (Inr w) Q = Q w" "expect_ok (Inl e) Q = False"
  by (simp_all add: expect_def expect_ok_def)

subsection \<open>Hexadecimal\<close>

definition hex_digit :: "u8 \<Rightarrow> char" where
  "hex_digit n = (if n < 10 then char_of (48 + unat n) else char_of (87 + unat n))"

text \<open>The format \<open>{:02x}\<close> of a byte.\<close>

definition hex2 :: "u8 \<Rightarrow> string" where
  "hex2 b = [hex_digit (drop_bit 4 b), hex_digit (b AND 0x0f)]"

end
