(* ===== verification/Cobs.thy ===== *)
theory Cobs
  imports Prelude
begin

text \<open>
  \<open>src/cobs.rs\<close>: the byte-stuffing codec under every frame. \<open>cobs_encode\<close> and \<open>cobs_decode\<close>
  are the code's index loops (\<open>scan_run\<close> is the inner \<open>while\<close> of \<open>encode\<close>, \<open>decode_block\<close>
  the inner \<open>for\<close> of \<open>decode\<close>). \<open>enc_blocks\<close> and \<open>dec_blocks\<close> are the same codec by
  recursion on the list, block by block, to which the loops are proved equal; \<open>cobs_lossless\<close>
  says exactly which inputs survive a round trip.
\<close>

named_theorems cobs_simps "the codec by blocks"

subsection \<open>The code\<close>

datatype decode_error = DecodeError

function scan_run :: "bytes \<Rightarrow> nat \<Rightarrow> nat \<Rightarrow> nat" where
  "scan_run data start i =
     (if i < length data \<and> data ! i \<noteq> 0 \<and> i - start < 0xFE then scan_run data start (Suc i) else i)"
  by pat_completeness auto
termination
  by (relation "measure (\<lambda>(data, start, i). length data - i)") auto

declare scan_run.simps [simp del]

lemma scan_run_ge: "i \<le> scan_run data start i"
proof (induction data start i rule: scan_run.induct)
  case (1 data start i)
  then show ?case by (subst scan_run.simps) auto
qed

function encode_loop :: "bytes \<Rightarrow> nat \<Rightarrow> bytes \<Rightarrow> bytes" where
  "encode_loop data i out =
     (if i < length data
      then let start = i;
               j = scan_run data start i;
               code = word_of_nat (j - start + 1);
               out' = out @ [code] @ subrange data start j
           in encode_loop data (if j < length data \<and> data ! j = 0 then j + 1 else j) out'
      else out)"
  by pat_completeness auto
termination
proof (relation "measure (\<lambda>(data, i, out). length data - i)", goal_cases)
  case 1
  show ?case by simp
next
  case (2 data i out start j code out')
  have "Suc i \<le> j" if "data ! i \<noteq> 0"
    using 2 that scan_run_ge [of "Suc i" data i] by (simp add: scan_run.simps [of data i i])
  then show ?case
    using 2 scan_run_ge [of i data i] by (auto simp: scan_run.simps [of data i i] split: if_splits)
qed

declare encode_loop.simps [simp del]

definition cobs_encode :: "bytes \<Rightarrow> bytes" where
  "cobs_encode data = encode_loop data 0 []"

fun decode_block :: "bytes \<Rightarrow> nat \<Rightarrow> nat \<Rightarrow> bytes \<Rightarrow> (bytes \<times> nat) option" where
  "decode_block data 0 i out = Some (out, i)"
| "decode_block data (Suc k) i out =
     (if i \<ge> length data then None else decode_block data k (Suc i) (out @ [data ! i]))"

lemma decode_block_index: "decode_block data k i out = Some (out', i') \<Longrightarrow> i \<le> i'"
  by (induction k arbitrary: i out) (fastforce split: if_splits)+

function decode_loop :: "bytes \<Rightarrow> nat \<Rightarrow> bytes \<Rightarrow> decode_error + bytes" where
  "decode_loop data i out =
     (if i < length data
      then let code = data ! i
           in if code = 0 then Inr out
              else (case decode_block data (unat code - 1) (Suc i) out of
                      None \<Rightarrow> Inl DecodeError
                    | Some (out', i') \<Rightarrow>
                        decode_loop data i' (if code < 0xFF \<and> i' < length data then out' @ [0] else out'))
      else Inr out)"
  by pat_completeness auto
termination
  by (relation "measure (\<lambda>(data, i, out). length data - i)") (auto dest: decode_block_index)

declare decode_loop.simps [simp del]

definition cobs_decode :: "bytes \<Rightarrow> decode_error + bytes" where
  "cobs_decode data =
     (case decode_loop data 0 [] of
        Inl e \<Rightarrow> Inl e
      | Inr out \<Rightarrow> Inr (if out \<noteq> [] \<and> last out = 0 then butlast out else out))"

subsection \<open>The codec by blocks\<close>

text \<open>The run of a block: up to 254 bytes before the next zero. \<open>after_run\<close> is what the encoder
  goes on with: it skips a zero that follows the run, whatever the length of the run.\<close>

definition run_of :: "bytes \<Rightarrow> bytes" where
  "run_of xs = takeWhile (\<lambda>b. b \<noteq> 0) (take 254 xs)"

definition after_run :: "bytes \<Rightarrow> bytes" where
  "after_run xs = (case drop (length (run_of xs)) xs of [] \<Rightarrow> [] | b # t \<Rightarrow> if b = 0 then t else b # t)"

lemma length_run_of: "length (run_of xs) \<le> 254" "length (run_of xs) \<le> length xs"
  using length_takeWhile_le [of "\<lambda>b. b \<noteq> 0" "take 254 xs"] by (simp_all add: run_of_def)

lemma run_of_prefix: "run_of xs = take (length (run_of xs)) xs"
proof -
  have "run_of xs = take (length (run_of xs)) (take 254 xs)"
    unfolding run_of_def by (rule takeWhile_eq_take)
  then show ?thesis
    using length_run_of(1) [of xs] by (simp add: min_absorb1)
qed

lemma run_of_nonzero: "b \<in> set (run_of xs) \<Longrightarrow> b \<noteq> 0"
  by (auto simp: run_of_def dest: set_takeWhileD)

lemma run_of_split: "run_of xs @ drop (length (run_of xs)) xs = xs"
  by (metis append_take_drop_id run_of_prefix)

lemma length_after_run_le: "length (after_run xs) \<le> length xs - length (run_of xs)"
  by (cases "drop (length (run_of xs)) xs") (auto simp: after_run_def simp flip: length_drop)

lemma run_of_Cons: "b \<noteq> 0 \<Longrightarrow> run_of (b # t) \<noteq> []"
  by (simp add: run_of_def)

lemma length_after_run: "xs \<noteq> [] \<Longrightarrow> length (after_run xs) < length xs"
proof -
  assume "xs \<noteq> []"
  then obtain b t where xs: "xs = b # t" by (cases xs) auto
  show ?thesis
  proof (cases "b = 0")
    case True
    then show ?thesis by (simp add: after_run_def run_of_def xs)
  next
    case False
    then have "0 < length (run_of xs)" by (simp add: run_of_Cons xs)
    moreover have "0 < length xs" by (simp add: xs)
    ultimately show ?thesis
      using length_after_run_le [of xs] by linarith
  qed
qed

function enc_blocks :: "bytes \<Rightarrow> bytes" where
  "enc_blocks xs =
     (if xs = [] then []
      else word_of_nat (length (run_of xs) + 1) # run_of xs @ enc_blocks (after_run xs))"
  by pat_completeness auto
termination
  by (relation "measure length") (auto simp: length_after_run)

declare enc_blocks.simps [simp del]

function dec_blocks :: "bytes \<Rightarrow> bytes option" where
  "dec_blocks [] = Some []"
| "dec_blocks (c # xs) =
     (if c = 0 then Some []
      else if length xs < unat c - 1 then None
      else map_option (\<lambda>ys. take (unat c - 1) xs @ (if c < 0xFF \<and> drop (unat c - 1) xs \<noteq> [] then 0 # ys else ys))
             (dec_blocks (drop (unat c - 1) xs)))"
  by pat_completeness auto
termination
  by (relation "measure length") auto

declare dec_blocks.simps(2) [simp del]

subsection \<open>The loops compute the blocks\<close>

lemma scan_run_eq:
  "start \<le> i \<Longrightarrow> i - start \<le> 254 \<Longrightarrow>
   scan_run data start i = i + length (takeWhile (\<lambda>b. b \<noteq> 0) (take (254 - (i - start)) (drop i data)))"
proof (induction data start i rule: scan_run.induct)
  case (1 data start i)
  show ?case
  proof (cases "i < length data \<and> data ! i \<noteq> 0 \<and> i - start < 0xFE")
    case True
    then have "take (254 - (i - start)) (drop i data) =
        data ! i # take (254 - (Suc i - start)) (drop (Suc i) data)"
      using "1.prems" by (subst Cons_nth_drop_Suc [symmetric]) (auto simp: take_Cons' Suc_diff_le)
    moreover have "scan_run data start (Suc i) =
        Suc i + length (takeWhile (\<lambda>b. b \<noteq> 0) (take (254 - (Suc i - start)) (drop (Suc i) data)))"
      using True "1.prems" by (intro "1.IH") auto
    ultimately show ?thesis
      using True by (subst scan_run.simps) simp
  next
    case False
    then have "takeWhile (\<lambda>b. b \<noteq> 0) (take (254 - (i - start)) (drop i data)) = []"
      by (cases "i < length data") (auto simp: Cons_nth_drop_Suc [symmetric] take_Cons')
    with False show ?thesis by (subst scan_run.simps) auto
  qed
qed

lemma encode_loop_blocks: "encode_loop data i out = out @ enc_blocks (drop i data)"
proof (induction data i out rule: encode_loop.induct)
  case (1 data i out)
  show ?case
  proof (cases "i < length data")
    case True
    let ?xs = "drop i data"
    let ?j = "scan_run data i i"
    let ?k = "if ?j < length data \<and> data ! ?j = 0 then ?j + 1 else ?j"
    have j: "?j = i + length (run_of ?xs)"
      by (simp add: scan_run_eq run_of_def)
    have slice: "subrange data i ?j = run_of ?xs"
      by (simp add: j subrange_def run_of_prefix [symmetric])
    have drop_j: "drop (length (run_of ?xs)) ?xs = drop ?j data"
      by (simp add: j add.commute)
    have rest: "drop ?k data = after_run ?xs"
    proof (cases "?j < length data")
      case in_range: True
      then have "drop ?j data = data ! ?j # drop (Suc ?j) data"
        by (simp add: Cons_nth_drop_Suc)
      with in_range show ?thesis
        unfolding after_run_def drop_j by simp
    next
      case False
      then show ?thesis
        unfolding after_run_def drop_j by simp
    qed
    have "encode_loop data i out =
        encode_loop data ?k (out @ [word_of_nat (?j - i + 1)] @ subrange data i ?j)"
      using True by (subst encode_loop.simps) (simp add: Let_def)
    also have "\<dots> = (out @ [word_of_nat (?j - i + 1)] @ subrange data i ?j) @ enc_blocks (drop ?k data)"
      using True by (intro "1.IH") (simp_all only: Let_def)
    also have "\<dots> = out @ enc_blocks ?xs"
      unfolding slice rest by (subst (2) enc_blocks.simps) (use True in \<open>simp add: j\<close>)
    finally show ?thesis .
  next
    case False
    then show ?thesis
      by (subst encode_loop.simps) (simp add: enc_blocks.simps)
  qed
qed

lemma cobs_encode_blocks: "cobs_encode data = enc_blocks data"
  by (simp add: cobs_encode_def encode_loop_blocks)

lemma decode_block_eq:
  "i \<le> length data \<Longrightarrow> decode_block data k i out =
     (if i + k \<le> length data then Some (out @ take k (drop i data), i + k) else None)"
proof (induction k arbitrary: i out)
  case (Suc k)
  show ?case
  proof (cases "i < length data")
    case True
    then show ?thesis
      using Suc.IH [of "Suc i" "out @ [data ! i]"]
      by (auto simp: take_Suc_Cons Cons_nth_drop_Suc [symmetric])
  qed (use Suc.prems in auto)
qed simp

lemma decode_loop_blocks:
  "i \<le> length data \<Longrightarrow> decode_loop data i out =
     (case dec_blocks (drop i data) of None \<Rightarrow> Inl DecodeError | Some ys \<Rightarrow> Inr (out @ ys))"
proof (induction data i out rule: decode_loop.induct)
  case (1 data i out)
  show ?case
  proof (cases "i < length data \<and> data ! i \<noteq> 0")
    case True
    let ?c = "data ! i" and ?n = "unat (data ! i) - 1"
    have drop_i: "drop i data = ?c # drop (Suc i) data"
      using True by (simp add: Cons_nth_drop_Suc)
    show ?thesis
    proof (cases "Suc i + ?n \<le> length data")
      case False
      then show ?thesis
        using True by (subst decode_loop.simps) (auto simp: Let_def decode_block_eq drop_i dec_blocks.simps)
    next
      case fits: True
      let ?i = "Suc i + ?n"
      let ?out = "out @ take ?n (drop (Suc i) data)"
      let ?out' = "if ?c < 0xFF \<and> ?i < length data then ?out @ [0] else ?out"
      have blk: "decode_block data ?n (Suc i) out = Some (?out, ?i)"
        using True fits by (simp add: decode_block_eq)
      have "decode_loop data i out = decode_loop data ?i ?out'"
        using True by (subst decode_loop.simps) (simp add: Let_def blk [unfolded One_nat_def])
      also have "\<dots> = (case dec_blocks (drop ?i data) of None \<Rightarrow> Inl DecodeError | Some ys \<Rightarrow> Inr (?out' @ ys))"
        using True fits blk by (intro "1.IH") auto
      finally show ?thesis
        using True fits
        by (auto simp: drop_i dec_blocks.simps add.commute split: option.splits)
    qed
  next
    case False
    then show ?thesis
      using 1 by (cases "i < length data")
        (auto simp: decode_loop.simps [of data i out] decode_loop.simps [of data "length data" out]
          dec_blocks.simps Cons_nth_drop_Suc [symmetric])
  qed
qed

lemma cobs_decode_blocks:
  "cobs_decode data =
     (case dec_blocks data of
        None \<Rightarrow> Inl DecodeError
      | Some out \<Rightarrow> Inr (if out \<noteq> [] \<and> last out = 0 then butlast out else out))"
  by (simp add: cobs_decode_def decode_loop_blocks split: option.splits)



subsection \<open>What a round trip keeps\<close>

text \<open>The inputs that survive: every run of 254 bytes is not followed by a zero, and the input does not
  end in a zero.\<close>

function cobs_lossless :: "bytes \<Rightarrow> bool" where
  "cobs_lossless xs =
     (case drop (length (run_of xs)) xs of
        [] \<Rightarrow> True
      | b # t \<Rightarrow> if b = 0 then length (run_of xs) < 254 \<and> t \<noteq> [] \<and> cobs_lossless t
               else cobs_lossless (b # t))"
  by pat_completeness auto
termination
proof (relation "measure length", goal_cases)
  case (2 xs b t)
  then show ?case
    by (metis One_nat_def Suc_leI in_measure length_Cons length_drop diff_le_self lessI less_le_trans)
next
  case (3 xs b t)
  then have "run_of xs \<noteq> []"
    using run_of_Cons [of b t] by auto
  moreover have "length (b # t) = length xs - length (run_of xs)" "xs \<noteq> []"
    using 3 by (metis length_drop, auto)
  ultimately show ?case
    by (simp only: in_measure) (metis diff_less length_greater_0_conv)
qed simp

declare cobs_lossless.simps [simp del]

text \<open>What decoding an encoding gives before the final strip.\<close>

function survivors :: "bytes \<Rightarrow> bytes" where
  "survivors xs =
     (if xs = [] then []
      else run_of xs @ (if length (run_of xs) < 254 \<and> after_run xs \<noteq> []
                        then 0 # survivors (after_run xs) else survivors (after_run xs)))"
  by pat_completeness auto
termination
  by (relation "measure length") (auto simp: length_after_run)

declare survivors.simps [simp del]

lemma enc_blocks_Nil_iff [simp]: "enc_blocks xs = [] \<longleftrightarrow> xs = []"
  by (subst enc_blocks.simps) simp

lemma block_code: 
  "unat (word_of_nat (length (run_of xs) + 1) :: u8) = length (run_of xs) + 1"
  "(word_of_nat (length (run_of xs) + 1) :: u8) \<noteq> 0"
  "(word_of_nat (length (run_of xs) + 1) :: u8) < 0xFF \<longleftrightarrow> length (run_of xs) < 254"
proof -
  have le: "length (run_of xs) + 1 < 2 ^ LENGTH(8)"
    using length_run_of(1) [of xs] by simp
  show u: "unat (word_of_nat (length (run_of xs) + 1) :: u8) = length (run_of xs) + 1"
    using le by (simp only: unat_of_nat mod_less)
  show "(word_of_nat (length (run_of xs) + 1) :: u8) \<noteq> 0"
    using u by (metis Suc_eq_plus1 nat.distinct(1) unat_0)
  show "(word_of_nat (length (run_of xs) + 1) :: u8) < 0xFF \<longleftrightarrow> length (run_of xs) < 254"
    by (subst word_less_nat_alt, subst u) simp
qed

lemma dec_enc_blocks: "dec_blocks (enc_blocks xs) = Some (survivors xs)"
proof (induction xs rule: enc_blocks.induct)
  case (1 xs)
  show ?case
  proof (cases "xs = []")
    case False
    define c where "c = (word_of_nat (length (run_of xs) + 1) :: u8)"
    note code = block_code [of xs, folded c_def]
    have "dec_blocks (enc_blocks xs) = dec_blocks (c # run_of xs @ enc_blocks (after_run xs))"
      using False by (subst enc_blocks.simps) (simp add: c_def)
    also have "\<dots> = Some (survivors xs)"
      using False 1 by (subst dec_blocks.simps, subst survivors.simps) (simp add: code)
    finally show ?thesis .
  qed (simp add: enc_blocks.simps survivors.simps)
qed

lemma run_of_stop:
  assumes "drop (length (run_of xs)) xs = b # t" "b \<noteq> 0"
  shows "length (run_of xs) = 254"
proof (rule ccontr)
  assume "length (run_of xs) \<noteq> 254"
  then have len: "length (run_of xs) < 254"
    using length_run_of(1) [of xs] by simp
  have b: "xs ! length (run_of xs) = b"
    using assms(1) by (rule nth_via_drop)
  have "length (run_of xs) < length xs"
    by (rule ccontr) (use assms(1) in simp)
  with len have "take 254 xs ! length (run_of xs) = 0"
    using nth_length_takeWhile [of "\<lambda>b. b \<noteq> 0" "take 254 xs"] by (simp add: run_of_def)
  with len b assms(2) show False by simp
qed

lemma block_cases:
  assumes "xs \<noteq> []"
  obtains (tail) "drop (length (run_of xs)) xs = []" "run_of xs = xs" "after_run xs = []"
  | (zero) t where "drop (length (run_of xs)) xs = 0 # t" "xs = run_of xs @ 0 # t" "after_run xs = t"
  | (full) b t where "b \<noteq> 0" "drop (length (run_of xs)) xs = b # t" "length (run_of xs) = 254"
      "xs = run_of xs @ b # t" "after_run xs = b # t"
proof (cases "drop (length (run_of xs)) xs")
  case Nil
  then show ?thesis
    using run_of_split [of xs] tail by (simp add: after_run_def)
next
  case (Cons b t)
  then have "xs = run_of xs @ b # t"
    using run_of_split [of xs] by simp
  then show ?thesis
    using Cons zero full [of b t] run_of_stop [OF Cons] by (cases "b = 0") (auto simp: after_run_def)
qed

lemma lossless_survivors: "cobs_lossless xs \<Longrightarrow> survivors xs = xs"
proof (induction xs rule: survivors.induct)
  case (1 xs)
  show ?case
  proof (cases "xs = []")
    case False
    then show ?thesis
    proof (cases rule: block_cases)
      case tail
      then show ?thesis using False by (subst survivors.simps) (simp add: survivors.simps)
    next
      case (zero t)
      then have "length (run_of xs) < 254" "t \<noteq> []" "cobs_lossless t"
        using "1.prems" by (simp_all add: cobs_lossless.simps [of xs])
      then show ?thesis
        using zero "1.IH" False by (subst survivors.simps) auto
    next
      case (full b t)
      then have "cobs_lossless (b # t)"
        using "1.prems" by (simp add: cobs_lossless.simps [of xs])
      then show ?thesis
        using full "1.IH" False by (subst survivors.simps) auto
    qed
  qed (simp add: survivors.simps)
qed

lemma survivors_length: "length (survivors xs) \<le> length xs"
proof (induction xs rule: survivors.induct)
  case (1 xs)
  show ?case
  proof (cases "xs = []")
    case False
    then have IH: "length (survivors (after_run xs)) \<le> length (after_run xs)"
      using "1" by blast
    from False show ?thesis
    proof (cases rule: block_cases)
      case (zero t)
      then have "length xs = length (run_of xs) + Suc (length t)" by (metis length_append length_Cons)
      then show ?thesis using False IH zero by (subst survivors.simps) simp
    next
      case (full b t)
      then have "length xs = length (run_of xs) + Suc (length t)" by (metis length_append length_Cons)
      then show ?thesis using False IH full by (subst survivors.simps) simp
    qed (simp add: survivors.simps)
  qed (simp add: survivors.simps)
qed

lemma lossy_survivors: "\<not> cobs_lossless xs \<Longrightarrow> length (survivors xs) < length xs"
proof (induction xs rule: survivors.induct)
  case (1 xs)
  show ?case
  proof (cases "xs = []")
    case True
    then show ?thesis using 1(3) by (simp add: cobs_lossless.simps)
  next
    case False
    then show ?thesis
    proof (cases rule: block_cases)
      case tail
      then show ?thesis using "1.prems" by (simp add: cobs_lossless.simps [of xs])
    next
      case (zero t)
      then have "length xs = length (run_of xs) + Suc (length t)" by (metis length_append length_Cons)
      moreover have "length (survivors t) < length t" if "length (run_of xs) < 254" "t \<noteq> []"
        using "1.prems" "1.IH" zero that False by (simp add: cobs_lossless.simps [of xs])
      ultimately show ?thesis
        using zero False survivors_length [of t] by (subst survivors.simps) (auto simp: not_less)
    next
      case (full b t)
      then have "length xs = length (run_of xs) + Suc (length t)" by (metis length_append length_Cons)
      moreover have "length (survivors (b # t)) < length (b # t)"
        using "1.prems" "1.IH" full False by (simp add: cobs_lossless.simps [of xs])
      ultimately show ?thesis
        using full False by (subst survivors.simps) simp
    qed
  qed
qed

lemma lossless_last: "cobs_lossless xs \<Longrightarrow> xs \<noteq> [] \<Longrightarrow> last xs \<noteq> 0"
proof (induction xs rule: survivors.induct)
  case (1 xs)
  from "1.prems"(2) show ?case
  proof (cases rule: block_cases)
    case tail
    then show ?thesis using run_of_nonzero [of "last xs" xs] "1.prems"(2) by simp
  next
    case (zero t)
    then have "t \<noteq> []" "cobs_lossless t"
      using "1.prems" by (simp_all add: cobs_lossless.simps [of xs])
    then have "last t \<noteq> 0" using 1 zero by auto
    moreover have "last xs = last t" using \<open>t \<noteq> []\<close> zero by (metis last_ConsR last_append list.distinct(1))
    ultimately show ?thesis by simp
  next
    case (full b t)
    then have "cobs_lossless (b # t)"
      using "1.prems" by (simp add: cobs_lossless.simps [of xs])
    then have "last (b # t) \<noteq> 0" using 1 full by auto
    moreover have "last xs = last (b # t)" using full by (metis last_append list.distinct(1))
    ultimately show ?thesis by simp
  qed
qed

lemma cobs_roundtrip_iff: "cobs_decode (cobs_encode d) = Inr d \<longleftrightarrow> cobs_lossless d"
proof
  assume "cobs_lossless d"
  then show "cobs_decode (cobs_encode d) = Inr d"
    using lossless_last [of d]
    by (auto simp: cobs_encode_blocks cobs_decode_blocks dec_enc_blocks lossless_survivors)
next
  assume dec: "cobs_decode (cobs_encode d) = Inr d"
  show "cobs_lossless d"
  proof (rule ccontr)
    assume "\<not> cobs_lossless d"
    then have "length (survivors d) < length d" by (rule lossy_survivors)
    with dec show False
      by (auto simp: cobs_encode_blocks cobs_decode_blocks dec_enc_blocks split: if_splits
          dest: arg_cong [where f = length])
  qed
qed

subsection \<open>No zero byte, bounded overhead, short inputs\<close>

lemma enc_blocks_no_zero: "0 \<notin> set (enc_blocks xs)"
proof (induction xs rule: enc_blocks.induct)
  case (1 xs)
  then show ?case
    using block_code(2) [of xs] run_of_nonzero [of 0 xs]
    by (subst enc_blocks.simps) (auto simp del: of_nat_Suc of_nat_add)
qed

lemma cobs_encode_no_zero: "0 \<notin> set (cobs_encode xs)"
  by (simp add: cobs_encode_blocks enc_blocks_no_zero)

lemma cobs_encode_Nil_iff [simp]: "cobs_encode xs = [] \<longleftrightarrow> xs = []"
  by (simp add: cobs_encode_blocks)

lemma enc_blocks_overhead: "length (enc_blocks xs) \<le> length xs + length xs div 254 + 1"
proof (induction xs rule: enc_blocks.induct)
  case (1 xs)
  show ?case
  proof (cases "xs = []")
    case False
    then have IH: "length (enc_blocks (after_run xs)) \<le> length (after_run xs) + length (after_run xs) div 254 + 1"
      by (rule 1)
    have enc: "length (enc_blocks xs) = Suc (length (run_of xs)) + length (enc_blocks (after_run xs))"
      using False by (subst enc_blocks.simps) simp
    from False show ?thesis
    proof (cases rule: block_cases)
      case tail
      then show ?thesis using enc by (simp add: enc_blocks.simps)
    next
      case (zero t)
      then have len: "length xs = length (run_of xs) + Suc (length t)" by (metis length_append length_Cons)
      then have "length t div 254 \<le> length xs div 254" by (intro div_le_mono) simp
      then show ?thesis using enc [unfolded zero(3)] IH [unfolded zero(3)] len by linarith
    next
      case (full b t)
      then have len: "length xs = 254 + length (after_run xs)" by (metis length_append length_Cons)
      then have "length xs div 254 = Suc (length (after_run xs) div 254)" by simp
      then show ?thesis using enc IH full(3) len by linarith
    qed
  qed (simp add: enc_blocks.simps)
qed

lemma enc_blocks_ge: "length xs \<le> length (enc_blocks xs)"
proof (induction xs rule: enc_blocks.induct)
  case (1 xs)
  show ?case
  proof (cases "xs = []")
    case False
    then have "length (enc_blocks xs) = Suc (length (run_of xs)) + length (enc_blocks (after_run xs))"
      by (subst enc_blocks.simps) simp
    moreover have "length (drop (length (run_of xs)) xs) \<le> Suc (length (after_run xs))"
      by (auto simp: after_run_def simp del: length_drop split: list.splits)
    then have "length xs \<le> length (run_of xs) + Suc (length (after_run xs))" by simp
    ultimately show ?thesis using 1 [OF False] by linarith
  qed simp
qed

lemma cobs_encode_bounds: "length d \<le> length (cobs_encode d)" "length (cobs_encode d) \<le> length d + length d div 254 + 1"
  using enc_blocks_overhead [of d] by (simp_all add: cobs_encode_blocks enc_blocks_ge)

lemma lossless_zero_free: "0 \<notin> set xs \<Longrightarrow> cobs_lossless xs"
proof (induction xs rule: cobs_lossless.induct)
  case (1 xs)
  have "drop (length (run_of xs)) xs = b # t \<Longrightarrow> b \<noteq> 0 \<and> 0 \<notin> set (b # t)" for b t
    using 1(3) by (metis in_set_dropD list.set_intros(1))
  then show ?case
    using 1(2) by (subst cobs_lossless.simps) (auto split: list.splits)
qed

lemma dec_blocks_length: "dec_blocks xs = Some ys \<Longrightarrow> length ys \<le> length xs"
proof (induction xs arbitrary: ys rule: dec_blocks.induct)
  case (2 c xs)
  show ?case
  proof (cases "c = 0 \<or> length xs < unat c - 1")
    case True
    then show ?thesis using "2.prems" by (auto simp: dec_blocks.simps split: if_splits)
  next
    case False
    let ?n = "unat c - 1"
    from False "2.prems" obtain zs where zs: "dec_blocks (drop ?n xs) = Some zs"
        and ys: "ys = take ?n xs @ (if c < 0xFF \<and> drop ?n xs \<noteq> [] then 0 # zs else zs)"
      by (auto simp: dec_blocks.simps split: if_splits)
    have "length zs \<le> length (drop ?n xs)"
      using False zs by (intro "2.IH") auto
    then show ?thesis using False ys by auto
  qed
qed simp

lemma lossless_short:
  "length xs \<le> 254 \<Longrightarrow> cobs_lossless xs \<longleftrightarrow> xs = [] \<or> last xs \<noteq> 0"
proof (induction xs rule: survivors.induct)
  case (1 xs)
  show ?case
  proof (cases "xs = []")
    case False
    from False show ?thesis
    proof (cases rule: block_cases)
      case tail
      then show ?thesis
        using run_of_nonzero [of "last xs" xs] False by (simp add: cobs_lossless.simps [of xs])
    next
      case (zero t)
      then have len: "length xs = length (run_of xs) + Suc (length t)" by (metis length_append length_Cons)
      have last: "last xs = (if t = [] then 0 else last t)"
        using zero by (metis last.simps last_append list.distinct(1))
      have "cobs_lossless t \<longleftrightarrow> t = [] \<or> last t \<noteq> 0"
      proof (cases "t = []")
        case True
        then show ?thesis by (simp add: cobs_lossless.simps)
      next
        case t: False
        then show ?thesis
          using 1 False zero(3) len by (metis add_leD2 le_add1 le_add_same_cancel1 le_SucI linorder_le_cases not_less_eq_eq)
      qed
      then show ?thesis
        using zero len last False "1.prems" by (simp add: cobs_lossless.simps [of xs]) 
    next
      case (full b t)
      then have "length xs = 254 + Suc (length t)" by (metis length_append length_Cons)
      then show ?thesis using "1.prems" by simp
    qed
  qed (simp add: cobs_lossless.simps)
qed

lemma full_block_loses_zero:
  "length r = 254 \<Longrightarrow> 0 \<notin> set r \<Longrightarrow> \<not> cobs_lossless (r @ 0 # t)"
proof -
  assume "length r = 254" "0 \<notin> set r"
  then have "run_of (r @ 0 # t) = r"
    by (auto simp: run_of_def takeWhile_eq_all_conv)
  with \<open>length r = 254\<close> show ?thesis
    by (simp add: cobs_lossless.simps [of "r @ 0 # t"])
qed

lemma trailing_zero_lossy: "\<not> cobs_lossless (xs @ [0])"
  using lossless_last [of "xs @ [0]"] by auto

lemma cobs_lossy_shorter:
  "\<not> cobs_lossless d \<Longrightarrow> \<exists>d'. cobs_decode (cobs_encode d) = Inr d' \<and> length d' < length d"
  using lossy_survivors [of d] by (auto simp: cobs_encode_blocks cobs_decode_blocks dec_enc_blocks)

subsection \<open>What is lost\<close>

lemma run_of_snoc_zero: "run_of (d @ [0]) = run_of d"
  by (cases "254 \<le> length d") (auto simp: run_of_def takeWhile_tail)

lemma survivors_snoc_zero: "cobs_lossless d \<Longrightarrow> survivors (d @ [0]) = d"
proof (induction d rule: survivors.induct)
  case (1 d)
  note unfold = survivors.simps [of "d @ [0]"] run_of_snoc_zero
  show ?case
  proof (cases "d = []")
    case True
    then show ?thesis by (simp add: survivors.simps run_of_def after_run_def)
  next
    case False
    then show ?thesis
    proof (cases rule: block_cases)
      case tail
      then have "after_run (d @ [0]) = []"
        by (simp add: after_run_def run_of_snoc_zero)
      then show ?thesis using tail by (simp add: unfold survivors.simps)
    next
      case (zero t)
      then have "length (run_of d) \<le> length d" using length_run_of by blast
      then have after: "after_run (d @ [0]) = t @ [0]"
        using zero by (simp add: after_run_def run_of_snoc_zero)
      have "length (run_of d) < 254" "cobs_lossless t" "t \<noteq> []"
        using zero "1.prems" by (simp_all add: cobs_lossless.simps [of d])
      moreover from this have "survivors (t @ [0]) = t"
        using "1.IH" False zero by auto
      ultimately show ?thesis using zero after by (simp add: unfold)
    next
      case (full b t)
      then have "length (run_of d) \<le> length d" using length_run_of by blast
      then have after: "after_run (d @ [0]) = (b # t) @ [0]"
        using full by (simp add: after_run_def run_of_snoc_zero)
      have "cobs_lossless (b # t)"
        using full "1.prems" by (simp add: cobs_lossless.simps [of d])
      then have "survivors ((b # t) @ [0]) = b # t"
        using "1.IH" False full by auto
      then show ?thesis using full after by (simp add: unfold)
    qed
  qed
qed

lemma survivors_short_snoc_zero: "length d < 254 \<Longrightarrow> survivors (d @ [0]) = d"
proof (induction d rule: survivors.induct)
  case (1 d)
  note unfold = survivors.simps [of "d @ [0]"] run_of_snoc_zero
  show ?case
  proof (cases "d = []")
    case True
    then show ?thesis by (simp add: survivors.simps run_of_def after_run_def)
  next
    case False
    then show ?thesis
    proof (cases rule: block_cases)
      case tail
      then have "after_run (d @ [0]) = []"
        by (simp add: after_run_def run_of_snoc_zero)
      then show ?thesis using tail by (simp add: unfold survivors.simps)
    next
      case (zero t)
      then have len: "length d = length (run_of d) + Suc (length t)" by (metis length_append length_Cons)
      then have after: "after_run (d @ [0]) = t @ [0]"
        using zero by (simp add: after_run_def run_of_snoc_zero)
      have "length (run_of d) < 254" "length t < 254"
        using len "1.prems" by simp_all
      moreover from this have "survivors (t @ [0]) = t"
        using "1.IH" False zero by (cases "t = []") auto
      ultimately show ?thesis using zero after by (simp add: unfold)
    next
      case (full b t)
      then have "length d = 254 + Suc (length t)" by (metis length_append length_Cons)
      then show ?thesis using "1.prems" by simp
    qed
  qed
qed

lemma cobs_decode_survivors:
  "cobs_decode (cobs_encode d) =
     Inr (if survivors d \<noteq> [] \<and> last (survivors d) = 0 then butlast (survivors d) else survivors d)"
  by (simp add: cobs_encode_blocks cobs_decode_blocks dec_enc_blocks)

lemma cobs_trailing_zero:
  "cobs_lossless d \<Longrightarrow> cobs_decode (cobs_encode (d @ [0])) = Inr d"
  using lossless_last [of d] by (auto simp: cobs_decode_survivors survivors_snoc_zero)

lemma cobs_two_trailing_zeros:
  "length d < 253 \<Longrightarrow> cobs_decode (cobs_encode (d @ [0, 0])) = Inr d"
  using survivors_short_snoc_zero [of "d @ [0]"] by (simp add: cobs_decode_survivors)

lemma cobs_full_block:
  assumes "length r = 254" "0 \<notin> set r" "cobs_lossless t"
  shows "cobs_decode (cobs_encode (r @ 0 # t)) = Inr (r @ t)"
proof -
  have run: "run_of (r @ 0 # t) = r"
    using assms(1,2) by (auto simp: run_of_def takeWhile_eq_all_conv)
  have after: "after_run (r @ 0 # t) = t"
    by (simp add: after_run_def run)
  have "survivors (r @ 0 # t) = r @ t"
    using assms by (subst survivors.simps) (simp add: run after lossless_survivors)
  moreover have "r \<noteq> []"
    using assms(1) by auto
  then have "last r \<noteq> 0"
    using assms(2) by (metis last_in_set)
  then have "last (r @ t) \<noteq> 0"
    using assms(3) lossless_last [of t] by (simp add: last_append)
  ultimately show ?thesis
    by (simp add: cobs_decode_survivors)
qed

subsection \<open>The standard encoder\<close>

text \<open>The encoder of the paper the documentation cites, which the device uses: as \<open>enc_blocks\<close>, but a
  full block does not take a zero with it, and an input that ends in a zero ends in an empty block.\<close>

function std_encode :: "bytes \<Rightarrow> bytes" where
  "std_encode xs =
     word_of_nat (length (run_of xs) + 1) # run_of xs @
       (case drop (length (run_of xs)) xs of
          [] \<Rightarrow> []
        | b # t \<Rightarrow> if length (run_of xs) = 254 then std_encode (b # t) else std_encode t)"
  by pat_completeness auto
termination
proof (relation "measure length", goal_cases)
  case (2 xs b t)
  then have "length (b # t) = length xs - 254" by (metis length_drop)
  moreover have "254 \<le> length xs" using 2(2) length_run_of(2) [of xs] by simp
  ultimately show ?case by simp
next
  case (3 xs b t)
  then have "length (b # t) = length xs - length (run_of xs)" by (metis length_drop)
  then show ?case by simp
qed simp

declare std_encode.simps [simp del]

lemma std_encode_not_Nil [simp]: "std_encode xs \<noteq> []"
  by (subst std_encode.simps) simp

lemma dec_std_encode: "dec_blocks (std_encode xs) = Some xs"
proof (induction xs rule: std_encode.induct)
  case (1 xs)
  define c where "c = (word_of_nat (length (run_of xs) + 1) :: u8)"
  note code = block_code [of xs, folded c_def]
  note unfold = std_encode.simps [of xs, folded c_def] dec_blocks.simps
  show ?case
  proof (cases "drop (length (run_of xs)) xs")
    case Nil
    then show ?thesis using run_of_split [of xs] by (simp add: unfold code)
  next
    case (Cons b t)
    then have xs: "xs = run_of xs @ b # t" using run_of_split [of xs] by simp
    show ?thesis
    proof (cases "length (run_of xs) = 254")
      case True
      then have "dec_blocks (std_encode (b # t)) = Some (b # t)" using 1 Cons by blast
      then show ?thesis using xs True Cons by (simp add: unfold code)
    next
      case False
      then have "b = 0" using run_of_stop [OF Cons] by auto
      moreover have "length (run_of xs) < 254" using False length_run_of(1) [of xs] by simp
      moreover have "dec_blocks (std_encode t) = Some t" using 1 Cons False by blast
      ultimately show ?thesis using xs False Cons by (simp add: unfold code)
    qed
  qed
qed

lemma cobs_decode_std:
  "cobs_decode (std_encode d) = Inr (if d \<noteq> [] \<and> last d = 0 then butlast d else d)"
  by (simp add: cobs_decode_blocks dec_std_encode)

subsection \<open>Properties\<close>

text \<open>C27: decoding an encoding returns the input exactly when the input is \<open>cobs_lossless\<close> (it does not
  end in a zero, and no full block of 254 non-zero bytes is followed by a zero); otherwise the
  decoder still reports success, with fewer bytes than went in.\<close>

theorem cobs_roundtrip_exact:
  "if cobs_lossless d
   then cobs_decode (cobs_encode d) = Inr d
   else \<exists>d'. cobs_decode (cobs_encode d) = Inr d' \<and> length d' < length d"
  using cobs_roundtrip_iff [of d] cobs_lossy_shorter [of d] by simp

text \<open>For inputs of up to 254 bytes, which covers every frame of the R10 session, the round trip
  holds exactly when the input is empty or does not end in a zero byte.\<close>

theorem cobs_roundtrip_short:
  "length d \<le> 254 \<Longrightarrow> cobs_decode (cobs_encode d) = Inr d \<longleftrightarrow> d = [] \<or> last d \<noteq> 0"
  by (simp add: cobs_roundtrip_iff lossless_short)

theorem cobs_roundtrip_short_witness:
  "length ([0, 104, 105, 0, 119] :: bytes) \<le> 254 \<and>
   cobs_encode [0, 104, 105, 0, 119] = [1, 3, 104, 105, 2, 119] \<and>
   cobs_decode (cobs_encode [0, 104, 105, 0, 119]) = Inr [0, 104, 105, 0, 119]"
proof (intro conjI)
  show "cobs_encode [0, 104, 105, 0, 119] = [1, 3, 104, 105, 2, 119]"
    by code_simp
  show "cobs_decode (cobs_encode [0, 104, 105, 0, 119]) = Inr [0, 104, 105, 0, 119]"
    using cobs_roundtrip_short [of "[0, 104, 105, 0, 119]"] by simp
qed simp

text \<open>An encoding never holds the delimiter byte 0, and is at most one byte longer than its input
  plus one byte for every 254 (the capacity the code reserves).\<close>

theorem cobs_encode_framing:
  "0 \<notin> set (cobs_encode d) \<and> length (cobs_encode d) \<le> length d + length d div 254 + 1"
  using enc_blocks_no_zero [of d] enc_blocks_overhead [of d] by (simp add: cobs_encode_blocks)

text \<open>A zero byte right after a full block of 254 non-zero bytes is lost: the encoder skips it as if
  the block's code implied it, but the decoder adds no zero after the code 255, so what comes back
  is the input without that zero.\<close>

theorem cobs_full_block_drops_zero:
  assumes "length r = 254" and "0 \<notin> set r" and "cobs_lossless t"
  shows "cobs_decode (cobs_encode (r @ 0 # t)) = Inr (r @ t)"
  by (rule cobs_full_block) (use assms in auto)

theorem cobs_full_block_drops_zero_witness:
  "cobs_decode (cobs_encode (replicate 254 1 @ 0 # [7])) = Inr (replicate 254 1 @ [7])"
  by (rule cobs_full_block_drops_zero) (simp_all add: lossless_short)

text \<open>The decoder inverts the standard encoder, which the device uses, except that it removes a
  zero byte at the end of the data.\<close>

theorem cobs_decode_standard:
  "cobs_decode (std_encode d) = Inr (if d \<noteq> [] \<and> last d = 0 then butlast d else d)"
  by (rule cobs_decode_std)

end
