(* ===== verification/Errors.thy ===== *)
theory Errors
  imports Cobs
begin

text \<open>
  \<open>src/error.rs\<close>: the crate's error type and the GFDI response codes, with the parts of
  \<open>std::io::Error\<close> the crate looks at (its kind). The protobuf library's \<open>DecodeError\<close> is only
  carried and displayed, so it is its description.
\<close>

datatype error_kind = WouldBlock | BrokenPipe | OtherKind int

datatype io_error = IoError (io_kind: error_kind)

datatype pb_error = PbError string

datatype error =
    Crc u16 u16
  | Cobs decode_error
  | FrameTooShort nat nat
  | Nak u16 u8
  | MultiLinkRegister u8
  | Protobuf pb_error
  | HandshakeTimeout
  | TransportError io_error

datatype response_status = Ack | NakStatus | Unsupported | CobsError | CrcError | LengthError

definition response_status_from_u8 :: "u8 \<Rightarrow> response_status option" where
  "response_status_from_u8 v =
     (if v = 0 then Some Ack
      else if v = 1 then Some NakStatus
      else if v = 2 then Some Unsupported
      else if v = 3 then Some CobsError
      else if v = 4 then Some CrcError
      else if v = 5 then Some LengthError
      else None)"

fun response_status_code :: "response_status \<Rightarrow> u8" where
  "response_status_code Ack = 0"
| "response_status_code NakStatus = 1"
| "response_status_code Unsupported = 2"
| "response_status_code CobsError = 3"
| "response_status_code CrcError = 4"
| "response_status_code LengthError = 5"

lemma response_status_code_inverse [simp]:
  "response_status_from_u8 (response_status_code s) = Some s"
  by (cases s) (simp_all add: response_status_from_u8_def)

end
