(* ===== verification/Multilink.thy ===== *)
theory Multilink
  imports Errors
begin

text \<open>
  \<open>src/multilink.rs\<close>: the MultiLink control messages (REGISTER and its response) and the handle
  byte in front of every BLE chunk.
\<close>

named_theorems link_simps "handles and chunks"

datatype service_id = Gfdi | Nfc | RealTimeHr | Echo | KeepAlive

fun service_code :: "service_id \<Rightarrow> u16" where
  "service_code Gfdi = 1"
| "service_code Nfc = 2"
| "service_code RealTimeHr = 6"
| "service_code Echo = 15"
| "service_code KeepAlive = 22"

datatype register_status = Success | InvalidServiceId | PendingAuth | AlreadyInUse | Rejected

fun register_code :: "register_status \<Rightarrow> u8" where
  "register_code Success = 0"
| "register_code InvalidServiceId = 1"
| "register_code PendingAuth = 2"
| "register_code AlreadyInUse = 3"
| "register_code Rejected = 4"

definition register_status_from_u8 :: "u8 \<Rightarrow> register_status option" where
  "register_status_from_u8 v =
     (if v = 0 then Some Success
      else if v = 1 then Some InvalidServiceId
      else if v = 2 then Some PendingAuth
      else if v = 3 then Some AlreadyInUse
      else if v = 4 then Some Rejected
      else None)"

definition build_register :: "u64 \<Rightarrow> service_id \<Rightarrow> bytes" where
  "build_register txn svc_id = [0x00, 0x00] @ le64 txn @ le16 (service_code svc_id) @ [0x00]"

definition parse_register_response :: "bytes \<Rightarrow> (register_status \<times> u8 \<times> u8) option" where
  "parse_register_response data =
     (if length data < 15 \<or> data ! 1 \<noteq> 0x01 then None
      else case register_status_from_u8 (data ! 12) of
             None \<Rightarrow> None
           | Some status \<Rightarrow> Some (status, data ! 13, data ! 14))"

definition strip_handle :: "bytes \<Rightarrow> u8 \<Rightarrow> bytes option" where
  "strip_handle chunk expected_handle =
     (case chunk of [] \<Rightarrow> None | b # rest \<Rightarrow> if b = expected_handle then Some rest else None)"

definition chunk_with_handle :: "bytes \<Rightarrow> u8 \<Rightarrow> nat \<Rightarrow> bytes list" where
  "chunk_with_handle data h mtu =
     (let payload_per_chunk = mtu - 1
      in if payload_per_chunk = 0 then []
         else map (\<lambda>chunk. h # chunk) (chunks_of payload_per_chunk data))"

subsection \<open>Lemmas\<close>

lemma register_code_inverse [simp]: "register_status_from_u8 (register_code s) = Some s"
  by (cases s) (simp_all add: register_status_from_u8_def)

lemma register_status_from_u8_Some:
  "register_status_from_u8 v = Some s \<longleftrightarrow> v = register_code s"
  by (cases s) (auto simp: register_status_from_u8_def split: if_splits)

lemma strip_handle_Cons [link_simps, simp]: "strip_handle (h # rest) h = Some rest"
  by (simp add: strip_handle_def)

lemma strip_handle_Some_iff: "strip_handle chunk h = Some data \<longleftrightarrow> chunk = h # data"
  by (auto simp: strip_handle_def split: list.splits if_splits)

lemma length_build_register [simp]: "length (build_register t s) = 13"
  by (simp add: build_register_def)

lemma chunk_with_handle_strip:
  "2 \<le> mtu \<Longrightarrow> map (\<lambda>c. strip_handle c h) (chunk_with_handle data h mtu) = map Some (chunks_of (mtu - 1) data)"
  by (simp add: chunk_with_handle_def comp_def)

lemma chunk_with_handle_lengths:
  "c \<in> set (chunk_with_handle data h mtu) \<Longrightarrow> 2 \<le> length c \<and> length c \<le> mtu \<and> hd c = h"
  by (auto simp: chunk_with_handle_def Let_def Suc_le_eq split: if_splits dest!: chunks_of_length)

lemma chunk_with_handle_concat:
  "2 \<le> mtu \<Longrightarrow> concat (map tl (chunk_with_handle data h mtu)) = data"
  by (simp add: chunk_with_handle_def comp_def concat_chunks_of)

lemma chunk_with_handle_small_mtu: "mtu \<le> 1 \<Longrightarrow> chunk_with_handle data h mtu = []"
  by (simp add: chunk_with_handle_def)

subsection \<open>Properties\<close>

text \<open>C14: splitting data for a write characteristic of at least two bytes loses and reorders nothing: each
  chunk is the handle byte and at most mtu-1 bytes, never more than the MTU, and the receiver that
  strips the handle from each chunk and concatenates gets the data back.\<close>

theorem chunking_is_lossless:
  assumes "2 \<le> mtu"
  shows "list_all (\<lambda>c. hd c = h \<and> 2 \<le> length c \<and> length c \<le> mtu) (chunk_with_handle data h mtu) \<and>
         concat (map (\<lambda>c. the (strip_handle c h)) (chunk_with_handle data h mtu)) = data"
proof
  show "list_all (\<lambda>c. hd c = h \<and> 2 \<le> length c \<and> length c \<le> mtu) (chunk_with_handle data h mtu)"
    using chunk_with_handle_lengths by (auto simp: list_all_iff)
  have "concat (map (\<lambda>c. the (strip_handle c h)) (chunk_with_handle data h mtu)) =
        concat (map the (map (\<lambda>c. strip_handle c h) (chunk_with_handle data h mtu)))"
    by (simp add: comp_def)
  also have "\<dots> = data"
    using assms by (simp add: chunk_with_handle_strip comp_def concat_chunks_of)
  finally show "concat (map (\<lambda>c. the (strip_handle c h)) (chunk_with_handle data h mtu)) = data" .
qed

theorem chunking_is_lossless_witness:
  "chunk_with_handle [1, 2, 3, 4, 5] 7 3 = [[7, 1, 2], [7, 3, 4], [7, 5]] \<and>
   concat (map (\<lambda>c. the (strip_handle c 7)) (chunk_with_handle [1, 2, 3, 4, 5] 7 3)) = [1, 2, 3, 4, 5]"
proof
  show "chunk_with_handle [1, 2, 3, 4, 5] 7 3 = [[7, 1, 2], [7, 3, 4], [7, 5]]"
    by code_simp
  show "concat (map (\<lambda>c. the (strip_handle c 7)) (chunk_with_handle [1, 2, 3, 4, 5] 7 3)) = [1, 2, 3, 4, 5]"
    using chunking_is_lossless [of 3 7 "[1, 2, 3, 4, 5]"] by simp
qed

end
