(* ===== verification/Crc16.thy ===== *)
theory Crc16
  imports Prelude
begin

text \<open>
  \<open>src/crc.rs\<close>: CRC-16/ARC computed nibble by nibble with a 16-entry table. \<open>crc16\<close> is the
  code's loop; \<open>crc_ref\<close> is the bit-serial definition of the polynomial 0x8005 (reflected,
  0xA001) that the documentation names. The theory proves the two equal and derives what the
  framing layer relies on: a frame that carries its own CRC has residue 0, and damage confined
  to two neighbouring bytes always changes the CRC.
\<close>

named_theorems crc_simps "linearity and injectivity of the CRC"

subsection \<open>The code\<close>

definition crc_table :: "u16 list" where
  "crc_table =
    [0x0000, 0xCC01, 0xD801, 0x1400, 0xF001, 0x3C00, 0x2800, 0xE401, 0xA001, 0x6C00, 0x7800, 0xB401,
     0x5000, 0x9C01, 0x8801, 0x4400]"

definition crc_byte :: "u16 \<Rightarrow> u8 \<Rightarrow> u16" where
  "crc_byte crc b =
    (let tmp = (drop_bit 4 crc AND 0x0FFF) XOR crc_table ! unat (crc AND 0xF) XOR crc_table ! unat (b AND 0xF)
     in (drop_bit 4 tmp AND 0x0FFF) XOR crc_table ! unat (tmp AND 0xF) XOR crc_table ! unat (drop_bit 4 b))"

definition crc16 :: "bytes \<Rightarrow> u16" where
  "crc16 data = foldl crc_byte 0 data"

subsection \<open>The reference: one shift per bit\<close>

definition crc_bit :: "u16 \<Rightarrow> u16" where
  "crc_bit c = (if bit c 0 then drop_bit 1 c XOR 0xA001 else drop_bit 1 c)"

definition crc_ref_byte :: "u16 \<Rightarrow> u8 \<Rightarrow> u16" where
  "crc_ref_byte c b = (crc_bit ^^ 8) (c XOR ucast b)"

definition crc_ref :: "bytes \<Rightarrow> u16" where
  "crc_ref data = foldl crc_ref_byte 0 data"

subsection \<open>One nibble of the table is four shifts\<close>

lemma crc_bit_xor: "crc_bit (a XOR b) = crc_bit a XOR crc_bit b"
  by (rule bit_word_eqI) (auto simp: crc_bit_def bit_simps)

lemma crc_bits_xor [crc_simps]:
  "(crc_bit ^^ n) (a XOR b) = (crc_bit ^^ n) a XOR (crc_bit ^^ n) b"
  by (induction n) (simp_all add: crc_bit_xor)

lemma crc_bits_shift:
  "(\<And>i. i < n \<Longrightarrow> \<not> bit c i) \<Longrightarrow> (crc_bit ^^ n) c = drop_bit n c"
proof (induction n arbitrary: c)
  case (Suc n)
  have "crc_bit c = drop_bit 1 c"
    using Suc.prems [of 0] by (simp add: crc_bit_def)
  moreover have "(crc_bit ^^ n) (drop_bit 1 c) = drop_bit n (drop_bit 1 c)"
    by (rule Suc.IH) (use Suc.prems in \<open>simp add: bit_simps\<close>)
  ultimately show ?case
    by (simp add: funpow_swap1)
qed simp

lemma crc_bits_push: "n + 8 \<le> 16 \<Longrightarrow> (crc_bit ^^ n) (push_bit n (ucast (b :: u8))) = ucast b"
  by (subst crc_bits_shift) (auto simp: bit_simps intro!: bit_word_eqI dest!: bit_imp_le_length [of b])

lemma crc_table_upto: "\<forall>n\<in>set [0..<16]. crc_table ! n = (crc_bit ^^ 4) (word_of_nat n)"
  by code_simp

lemma crc_table_nth: "n < 16 \<Longrightarrow> crc_table ! n = (crc_bit ^^ 4) (word_of_nat n)"
  using crc_table_upto by simp

lemma and_15_mask: "x AND 15 = take_bit 4 x" for x :: "'a::len word"
  by (simp add: take_bit_eq_mask mask_eq_exp_minus_1)

lemma unat_nibble: "unat (take_bit 4 x :: 'a::len word) < 16"
  using take_bit_nat_less_exp [of 4 "unat x"] by (simp add: unsigned_take_bit_eq)

lemma crc_nibble:
  "n < 16 \<Longrightarrow>
   (drop_bit 4 crc AND 0x0FFF) XOR crc_table ! unat (crc AND 0xF) XOR crc_table ! n =
   (crc_bit ^^ 4) (crc XOR word_of_nat n)"
proof -
  assume n: "n < 16"
  have split: "crc = push_bit 4 (drop_bit 4 crc) XOR take_bit 4 crc"
    by (rule bit_word_eqI) (auto simp: bit_simps)
  have "(crc_bit ^^ 4) (push_bit 4 (drop_bit 4 crc)) = drop_bit 4 (push_bit 4 (drop_bit 4 crc))"
    by (rule crc_bits_shift) (auto simp: bit_simps)
  also have "\<dots> = drop_bit 4 crc AND mask 12"
    by (rule bit_word_eqI) (auto simp: bit_simps)
  also have "(mask 12 :: u16) = 0x0FFF"
    by (simp add: mask_eq_exp_minus_1)
  finally have "(crc_bit ^^ 4) crc = (drop_bit 4 crc AND 0x0FFF) XOR (crc_bit ^^ 4) (take_bit 4 crc)"
    by (subst split) (simp only: crc_bits_xor)
  moreover have "crc_table ! unat (crc AND 0xF) = (crc_bit ^^ 4) (take_bit 4 crc)"
    by (simp add: and_15_mask crc_table_nth unat_nibble)
  ultimately show ?thesis
    by (simp add: crc_bits_xor crc_table_nth n xor.assoc)
qed

lemma crc_byte_ref [crc_simps]: "crc_byte crc b = crc_ref_byte crc b"
proof -
  let ?lo = "ucast (take_bit 4 b) :: u16" and ?hi = "ucast (drop_bit 4 b) :: u16"
  have lo: "unat (take_bit 4 b) < 16"
    by (rule unat_nibble)
  have hi: "unat (drop_bit 4 b) < 16"
  proof -
    have "take_bit 8 (unat b) div 16 < 16"
      using take_bit_nat_less_exp [of 8 "unat b"] by simp
    then show ?thesis
      by (simp add: unsigned_drop_bit_eq drop_bit_eq_div [where 'a = nat])
  qed
  have "ucast b = ?lo XOR push_bit 4 ?hi"
    by (rule bit_word_eqI) (auto simp: bit_simps dest: bit_imp_le_length)
  moreover have "(crc_bit ^^ 4) (push_bit 4 ?hi) = ?hi"
    by (subst crc_bits_shift) (auto simp: bit_simps intro!: bit_word_eqI dest!: bit_imp_le_length [of b])
  moreover have "(crc_bit ^^ 8) c = (crc_bit ^^ 4) ((crc_bit ^^ 4) c)" for c
    by (simp flip: funpow_add [THEN fun_cong, unfolded comp_def])
  ultimately have "crc_ref_byte crc b = (crc_bit ^^ 4) ((crc_bit ^^ 4) (crc XOR ?lo) XOR ?hi)"
    by (simp add: crc_ref_byte_def crc_bits_xor xor.assoc)
  moreover have "word_of_nat (unat (take_bit 4 b)) = ?lo" "word_of_nat (unat (drop_bit 4 b)) = ?hi"
    by simp_all
  ultimately show ?thesis
    by (simp add: crc_byte_def Let_def and_15_mask [of b] crc_nibble lo hi)
qed

subsection \<open>Injectivity and residue\<close>

lemma crc_bits_inj: "(crc_bit ^^ n) a = (crc_bit ^^ n) b \<longleftrightarrow> a = b"
proof -
  have zero: "crc_bit d = 0 \<Longrightarrow> d = 0" for d
  proof -
    assume "crc_bit d = 0"
    then have bits: "\<not> bit (crc_bit d) i" for i by simp
    have "\<not> bit d 0"
      using bits [of 15] by (auto simp: crc_bit_def bit_simps split: if_splits dest: bit_imp_le_length)
    with bits have "\<not> bit d (Suc i)" for i
      by (auto simp: crc_bit_def bit_simps)
    with \<open>\<not> bit d 0\<close> show "d = 0"
      by (metis bit_0_eq bit_eqI bot_apply bot_bool_def not0_implies_Suc)
  qed
  have inj: "crc_bit a = crc_bit b \<longleftrightarrow> a = b" for a b
    using zero [of "a XOR b"] by (auto simp: crc_bit_xor)
  show ?thesis
    by (induction n) (simp_all add: inj)
qed

lemma crc_fold_inj: "foldl crc_byte s data = foldl crc_byte t data \<longleftrightarrow> s = t"
proof (induction data arbitrary: s t)
  case (Cons b data)
  have "crc_byte s b = crc_byte t b \<longleftrightarrow> s = t"
    by (simp add: crc_byte_ref crc_ref_byte_def crc_bits_inj)
  then show ?case using Cons.IH by simp
qed simp

text \<open>Two bytes at once: sixteen shifts of the state with the bytes, little-endian, mixed in.\<close>

lemma crc_two_bytes: "crc_byte (crc_byte s a) b = (crc_bit ^^ 16) (s XOR of_le16 a b)"
proof -
  have "of_le16 a b = ucast a XOR push_bit 8 (ucast b)"
    by (rule bit_word_eqI) (auto simp: of_le16_def bit_simps dest: bit_imp_le_length)
  moreover have "(crc_bit ^^ 8) (push_bit 8 (ucast b)) = ucast b"
    by (rule crc_bits_push) simp
  moreover have "(crc_bit ^^ 16) c = (crc_bit ^^ 8) ((crc_bit ^^ 8) c)" for c
    by (simp flip: funpow_add [THEN fun_cong, unfolded comp_def])
  ultimately show ?thesis
    by (simp add: crc_byte_ref crc_ref_byte_def crc_bits_xor xor.assoc)
qed

text \<open>A frame that ends in the little-endian CRC of its body has residue 0, and only such a frame.\<close>

lemma crc_residue: "crc16 (data @ [a, b]) = 0 \<longleftrightarrow> crc16 data = of_le16 a b"
proof -
  have "(crc_bit ^^ 16) 0 = 0"
    using crc_bits_shift [of 16 0] by (simp)
  moreover have "crc16 (data @ [a, b]) = (crc_bit ^^ 16) (crc16 data XOR of_le16 a b)"
    by (simp add: crc16_def crc_two_bytes)
  ultimately have "crc16 (data @ [a, b]) = 0 \<longleftrightarrow> crc16 data XOR of_le16 a b = 0"
    using crc_bits_inj [of 16 "crc16 data XOR of_le16 a b" 0] by (simp only:)
  then show ?thesis by simp
qed

lemma crc16_trailing_zero: "crc16 (data @ [0]) = 0 \<longleftrightarrow> crc16 data = 0"
proof -
  have "crc_ref_byte c 0 = 0 \<longleftrightarrow> c = 0" for c
    using crc_bits_inj [of 8 c 0] crc_bits_shift [of 8 0] by (simp add: crc_ref_byte_def)
  then show ?thesis by (simp add: crc16_def crc_byte_ref)
qed

lemma crc16_two_byte_damage:
  "crc16 (xs @ [a, b] @ ys) = crc16 (xs @ [c, d] @ ys) \<longleftrightarrow> a = c \<and> b = d"
proof -
  have "crc16 (xs @ [a, b] @ ys) = crc16 (xs @ [c, d] @ ys) \<longleftrightarrow>
    (crc_bit ^^ 16) (crc16 xs XOR of_le16 a b) = (crc_bit ^^ 16) (crc16 xs XOR of_le16 c d)"
    by (simp add: crc16_def crc_two_bytes crc_fold_inj)
  also have "\<dots> \<longleftrightarrow> of_le16 a b = of_le16 c d"
    by (simp add: crc_bits_inj)
  finally show ?thesis by (simp add: of_le16_inj)
qed

subsection \<open>Properties\<close>

text \<open>C25: the table-driven CRC computes the bit-serial CRC-16/ARC (reflected polynomial 0xA001, start
  value 0, no final xor) on every input, and gives the standard check value 0xBB3D for the nine
  bytes 123456789.\<close>

theorem crc16_is_crc16_arc:
  "crc16 data = crc_ref data \<and>
   crc16 [0x31, 0x32, 0x33, 0x34, 0x35, 0x36, 0x37, 0x38, 0x39] = 0xBB3D"
proof
  show "crc16 data = crc_ref data"
    by (simp add: crc16_def crc_ref_def crc_byte_ref cong: foldl_cong)
qed code_simp

end
