(* ===== verification/Gfdi_Frame.thy ===== *)
theory Gfdi_Frame
  imports Crc16 Errors
begin

text \<open>
  \<open>src/gfdi.rs\<close>, framing: message types, the parsed frame \<open>GfdiFrame\<close> and its identity
  classification, \<open>parse_frame\<close>/\<open>parse_cobs_frame\<close> and the frame builders. A frame is
  \<open>[length u16] [header 2 bytes] [payload] [crc u16]\<close>, little-endian; on the wire it is COBS-encoded
  between two zero bytes.
\<close>

named_theorems frame_simps "building and parsing frames"

subsection \<open>Message types\<close>

definition MSG_ACK :: u16 where "MSG_ACK = 5000"
definition MSG_FILE_TRANSFER :: u16 where "MSG_FILE_TRANSFER = 5003"
definition MSG_FILE_DATA :: u16 where "MSG_FILE_DATA = 5004"
definition MSG_FIT_DEFINITION :: u16 where "MSG_FIT_DEFINITION = 5011"
definition MSG_FIT_DATA :: u16 where "MSG_FIT_DATA = 5012"
definition MSG_DEVICE_INFO :: u16 where "MSG_DEVICE_INFO = 5024"
definition MSG_PROTOBUF_REQUEST :: u16 where "MSG_PROTOBUF_REQUEST = 5043"
definition MSG_PROTOBUF_RESPONSE :: u16 where "MSG_PROTOBUF_RESPONSE = 5044"
definition MSG_CONFIGURATION :: u16 where "MSG_CONFIGURATION = 5050"

text \<open>The inclusive range \<open>5101..=5112\<close>, by its bounds.\<close>

definition MSG_AUTH :: "u16 \<times> u16" where "MSG_AUTH = (5101, 5112)"

lemmas msg_defs = MSG_ACK_def MSG_FILE_TRANSFER_def MSG_FILE_DATA_def MSG_FIT_DEFINITION_def
  MSG_FIT_DATA_def MSG_DEVICE_INFO_def MSG_PROTOBUF_REQUEST_def MSG_PROTOBUF_RESPONSE_def
  MSG_CONFIGURATION_def MSG_AUTH_def

definition type_carries_identity :: "u16 \<Rightarrow> bool" where
  "type_carries_identity mt \<longleftrightarrow>
     mt \<in> {MSG_FILE_TRANSFER, MSG_FILE_DATA, MSG_FIT_DEFINITION, MSG_FIT_DATA, MSG_DEVICE_INFO} \<or>
     fst MSG_AUTH \<le> mt \<and> mt \<le> snd MSG_AUTH"

subsection \<open>The parsed frame\<close>

record gfdi_frame =
  msg_type :: u16
  txn_id :: "u8 option"
  payload :: bytes

definition acked_type :: "gfdi_frame \<Rightarrow> u16 option" where
  "acked_type f =
     (if msg_type f \<noteq> MSG_ACK then None
      else if 2 \<le> length (payload f) then Some (of_le16 (payload f ! 0) (payload f ! 1))
      else None)"

definition frame_carries_identity :: "gfdi_frame \<Rightarrow> bool" where
  "frame_carries_identity f =
     (if msg_type f = MSG_ACK
      then (case acked_type f of None \<Rightarrow> True | Some t \<Rightarrow> type_carries_identity t)
      else type_carries_identity (msg_type f))"

subsection \<open>Parsing\<close>

definition parse_frame :: "bytes \<Rightarrow> error + gfdi_frame" where
  "parse_frame frame =
     (let n = length frame in
      if n < 6 then Inl (FrameTooShort n 6)
      else
        let crc_recv = of_le16 (frame ! (n - 2)) (frame ! (n - 1));
            crc_calc = crc16 (take (n - 2) frame)
        in if crc_recv \<noteq> crc_calc then Inl (Crc crc_calc crc_recv)
           else
             let (mt, tid, payload_start) =
                   (if n \<ge> 4 \<and> frame ! 3 AND 0x80 \<noteq> 0
                    then (ucast (frame ! 2) + 5000, Some (frame ! 3 AND 0x7F), 4)
                    else (of_le16 (frame ! 2) (frame ! 3), None, 4))
             in Inr \<lparr>msg_type = mt, txn_id = tid, payload = subrange frame payload_start (n - 2)\<rparr>)"

definition parse_cobs_frame :: "bytes \<Rightarrow> error + gfdi_frame" where
  "parse_cobs_frame cobs_bytes =
     (case cobs_decode cobs_bytes of Inl e \<Rightarrow> Inl (Cobs e) | Inr frame \<Rightarrow> parse_frame frame)"

subsection \<open>Building\<close>

definition build_frame :: "u16 \<Rightarrow> bytes \<Rightarrow> bytes" where
  "build_frame mt p =
     (let len = word_of_nat (2 + 2 + length p + 2) :: u16;
          frame = le16 len @ le16 mt @ p;
          crc = crc16 frame
      in frame @ le16 crc)"

definition build_ack :: "u16 \<Rightarrow> u8 \<Rightarrow> bytes \<Rightarrow> bytes" where
  "build_ack orig_msg_type status p = build_frame MSG_ACK (le16 orig_msg_type @ [status] @ p)"

definition wrap_cobs :: "bytes \<Rightarrow> bytes" where
  "wrap_cobs frame = [0x00] @ cobs_encode frame @ [0x00]"

subsection \<open>The checksum contract\<close>

text \<open>What framing needs of a checksum: the residue of a body with its checksum is 0, a zero byte does
  not move a zero residue, and changing one or two neighbouring bytes changes the checksum.\<close>

locale frame_check =
  fixes check :: "bytes \<Rightarrow> u16"
  assumes residue: "check (data @ [a, b]) = 0 \<longleftrightarrow> check data = of_le16 a b"
    and zero_step: "check (data @ [0]) = 0 \<longleftrightarrow> check data = 0"
    and two_byte_damage: "check (xs @ [a, b] @ ys) = check (xs @ [c, d] @ ys) \<longleftrightarrow> a = c \<and> b = d"
begin

definition checked :: "bytes \<Rightarrow> bool" where
  "checked f \<longleftrightarrow> check f = 0"

lemma checked_append: "checked (data @ le16 (check data))"
  using residue [of data "le16 (check data) ! 0" "le16 (check data) ! 1"]
  by (simp add: checked_def le16_def of_le16_le16 [unfolded le16_def, simplified])

lemma checked_iff:
  assumes "2 \<le> length f"
  shows "checked f \<longleftrightarrow>
    check (take (length f - 2) f) = of_le16 (f ! (length f - 2)) (f ! (length f - 1))"
proof -
  let ?n = "length f"
  have "checked f \<longleftrightarrow> checked (take (?n - 2) f @ [f ! (?n - 2), f ! (?n - 1)])"
    using split_last_two [OF assms] by simp
  also have "\<dots> \<longleftrightarrow> check (take (?n - 2) f) = of_le16 (f ! (?n - 2)) (f ! (?n - 1))"
    by (simp only: checked_def residue)
  finally show ?thesis .
qed

lemma checked_zeros: "checked (data @ replicate k 0) \<longleftrightarrow> checked data"
proof (induction k)
  case (Suc k)
  have "data @ replicate (Suc k) 0 = (data @ replicate k 0) @ [0]"
    by (simp add: replicate_append_same)
  then show ?case using Suc zero_step [of "data @ replicate k 0"] by (simp only: checked_def)
qed simp

lemma damage_detected:
  "checked (xs @ [a, b] @ ys) \<Longrightarrow> (a, b) \<noteq> (c, d) \<Longrightarrow> \<not> checked (xs @ [c, d] @ ys)"
  using two_byte_damage [of xs a b ys c d] by (auto simp: checked_def)

end

interpretation arc: frame_check crc16
  by unfold_locales (simp_all only: crc_residue crc16_trailing_zero crc16_two_byte_damage)

subsection \<open>Functional behaviour of the parser\<close>

text \<open>The header as the parser reads it from a frame's third and fourth byte.\<close>

definition header_type :: "u8 \<Rightarrow> u8 \<Rightarrow> u16" where
  "header_type b2 b3 = (if bit b3 7 then ucast b2 + 5000 else of_le16 b2 b3)"

definition header_txn :: "u8 \<Rightarrow> u8 \<Rightarrow> u8 option" where
  "header_txn b2 b3 = (if bit b3 7 then Some (take_bit 7 b3) else None)"

lemma high_bit: "b AND 0x80 \<noteq> 0 \<longleftrightarrow> bit b 7" for b :: u8
  using and_exp_eq_0_iff_not_bit [of b 7] by simp

lemma low_seven: "b AND 0x7F = take_bit 7 b" for b :: u8
  by (simp add: take_bit_eq_mask mask_eq_exp_minus_1)

lemma parse_frame_eq:
  "parse_frame f =
     (if length f < 6 then Inl (FrameTooShort (length f) 6)
      else if \<not> arc.checked f
      then Inl (Crc (crc16 (take (length f - 2) f)) (of_le16 (f ! (length f - 2)) (f ! (length f - 1))))
      else Inr \<lparr>msg_type = header_type (f ! 2) (f ! 3), txn_id = header_txn (f ! 2) (f ! 3),
                payload = subrange f 4 (length f - 2)\<rparr>)"
  by (auto simp: parse_frame_def Let_def arc.checked_iff high_bit low_seven header_type_def header_txn_def)

lemma checked_build_frame: "arc.checked (build_frame mt p)"
  unfolding build_frame_def Let_def by (rule arc.checked_append)

lemma length_build_frame [frame_simps, simp]: "length (build_frame mt p) = length p + 6"
  by (simp add: build_frame_def Let_def)

lemma build_frame_header:
  "build_frame mt p ! 2 = ucast mt" "build_frame mt p ! 3 = ucast (drop_bit 8 mt)"
  by (simp_all add: build_frame_def Let_def le16_def)

lemma build_frame_payload:
  "subrange (build_frame mt p) 4 (4 + length p) = p"
  "subrange (build_frame mt p) 4 (length p + 4) = p"
  by (simp_all add: build_frame_def Let_def subrange_def le16_def)

lemma parse_build_frame [frame_simps]:
  "parse_frame (build_frame mt p) =
     Inr \<lparr>msg_type = header_type (ucast mt) (ucast (drop_bit 8 mt)),
          txn_id = header_txn (ucast mt) (ucast (drop_bit 8 mt)), payload = p\<rparr>"
  by (simp add: parse_frame_eq checked_build_frame build_frame_header build_frame_payload)

lemma of_le16_ucast: "of_le16 (ucast mt) (ucast (drop_bit 8 mt)) = mt"
  using of_le16_le16 [of mt] by (simp add: le16_def)

lemma parse_build_frame_standard [frame_simps]:
  "\<not> bit mt 15 \<Longrightarrow> parse_frame (build_frame mt p) = Inr \<lparr>msg_type = mt, txn_id = None, payload = p\<rparr>"
  by (simp add: parse_build_frame header_type_def header_txn_def bit_simps of_le16_ucast)

subsection \<open>Frames on the wire\<close>

definition crc_high_byte :: "bytes \<Rightarrow> u8" where
  "crc_high_byte f = ucast (drop_bit 8 (crc16 (take (length f - 2) f)))"

lemma build_frame_not_Nil [simp]: "build_frame mt p \<noteq> []"
  by (metis length_build_frame add_eq_0_iff_both_eq_0 list.size(3) zero_neq_numeral)

lemma last_build_frame: "last (build_frame mt p) = crc_high_byte (build_frame mt p)"
  by (simp add: crc_high_byte_def build_frame_def Let_def le16_def)

lemma lossless_build_frame:
  "length p \<le> 248 \<Longrightarrow> cobs_lossless (build_frame mt p) \<longleftrightarrow> crc_high_byte (build_frame mt p) \<noteq> 0"
  by (simp add: lossless_short last_build_frame)

lemma parse_frame_payload_length: "parse_frame f = Inr g \<Longrightarrow> length (payload g) = length f - 6"
  by (auto simp: parse_frame_eq split: if_splits)

lemma parse_cobs_frame_lossless [frame_simps]:
  "cobs_lossless f \<Longrightarrow> parse_cobs_frame (cobs_encode f) = parse_frame f"
  by (simp add: parse_cobs_frame_def cobs_roundtrip_iff [THEN iffD2])

lemma parse_cobs_frame_lossy:
  assumes "\<not> cobs_lossless f" "parse_cobs_frame (cobs_encode f) = Inr g"
  shows "length (payload g) < length f - 6"
proof -
  obtain d where d: "cobs_decode (cobs_encode f) = Inr d" "length d < length f"
    using cobs_lossy_shorter [OF assms(1)] by blast
  then have "parse_frame d = Inr g" using assms(2) by (simp add: parse_cobs_frame_def)
  then have "length (payload g) = length d - 6" "6 \<le> length d"
    by (auto dest: parse_frame_payload_length simp: parse_frame_eq split: if_splits)
  with d(2) show ?thesis by simp
qed

lemma parse_damaged:
  "parse_frame (xs @ [a, b] @ ys) = Inr g \<Longrightarrow> (a, b) \<noteq> (c, d) \<Longrightarrow>
   \<exists>e r. parse_frame (xs @ [c, d] @ ys) = Inl (Crc e r)"
  using arc.damage_detected [of xs a b ys c d] by (simp add: parse_frame_eq split: if_splits)

lemma less_8000_bit: "mt < 0x8000 \<Longrightarrow> \<not> bit mt 15" for mt :: u16
  by (simp add: bit_iff_odd div_word_less)

text \<open>A frame that loses zeros from its end is still accepted: the bytes before them are taken for the
  CRC, so the payload is as many bytes short.\<close>

definition cut_result :: "u16 \<Rightarrow> bytes \<Rightarrow> nat \<Rightarrow> error + gfdi_frame" where
  "cut_result mt p k =
     (if length p < k then Inl (FrameTooShort (length p + 6 - k) 6)
      else Inr \<lparr>msg_type = mt, txn_id = None, payload = take (length p - k) p\<rparr>)"

lemma parse_cut:
  assumes mt: "\<not> bit mt 15" and f: "build_frame mt p = g @ replicate k 0" and k: "k \<le> 2"
  shows "parse_frame g = cut_result mt p k"
proof (cases "length p < k")
  case True
  have "length g + k = length p + 6" using arg_cong [OF f, of length] by simp
  then show ?thesis using True k by (simp add: parse_frame_eq cut_result_def)
next
  case False
  have len: "length g = length p + 6 - k" using arg_cong [OF f, of length] by simp
  have g: "g = take (length g) (build_frame mt p)" by (simp add: f)
  have "arc.checked g"
    using checked_build_frame [of mt p] by (simp only: f arc.checked_zeros)
  moreover have "g ! 2 = ucast mt" "g ! 3 = ucast (drop_bit 8 mt)"
    using len False k by (subst g, simp add: build_frame_header)+
  moreover have "subrange g 4 (length g - 2) = take (length p - k) p"
  proof -
    have "drop 4 (build_frame mt p) = p @ drop (length p + 4) (build_frame mt p)"
      using subrange_split [of 4 "length p + 4" "build_frame mt p"] by (simp add: build_frame_payload)
    then have "drop 4 g = take (length g - 4) (p @ drop (length p + 4) (build_frame mt p))"
      by (subst g) (simp only: drop_take)
    then show ?thesis using len False k by (simp add: subrange_def)
  qed
  ultimately show ?thesis
    using len False k mt
    by (simp add: parse_frame_eq cut_result_def header_type_def header_txn_def bit_simps of_le16_ucast)
qed

lemma build_frame_snoc:
  "build_frame mt p = butlast (build_frame mt p) @ [crc_high_byte (build_frame mt p)]"
  by (metis append_butlast_last_id build_frame_not_Nil last_build_frame)

lemma std_link:
  assumes "\<not> bit mt 15"
  shows "parse_cobs_frame (std_encode (build_frame mt p)) =
           cut_result mt p (if crc_high_byte (build_frame mt p) = 0 then 1 else 0)"
proof (cases "crc_high_byte (build_frame mt p) = 0")
  case True
  then have "parse_cobs_frame (std_encode (build_frame mt p)) = parse_frame (butlast (build_frame mt p))"
    by (simp add: parse_cobs_frame_def cobs_decode_std last_build_frame)
  moreover have "build_frame mt p = butlast (build_frame mt p) @ replicate 1 0"
    using True build_frame_snoc [of mt p] by simp
  ultimately show ?thesis using True parse_cut [OF assms, of p _ 1] by simp
next
  case False
  then show ?thesis
    using assms parse_cut [OF assms, of p "build_frame mt p" 0]
    by (simp add: parse_cobs_frame_def cobs_decode_std last_build_frame)
qed

text \<open>How many zero bytes a frame has at its end, of the two its CRC takes.\<close>

definition crc_zeros :: "bytes \<Rightarrow> nat" where
  "crc_zeros f = (if last f \<noteq> 0 then 0 else if last (butlast f) \<noteq> 0 then 1 else 2)"

lemma host_link:
  assumes mt: "\<not> bit mt 15" and p: "length p \<le> 248"
  shows "parse_cobs_frame (cobs_encode (build_frame mt p)) = cut_result mt p (crc_zeros (build_frame mt p))"
proof -
  let ?f = "build_frame mt p"
  obtain body a b where f: "?f = body @ [a, b]"
    using split_last_two [of ?f] by auto
  have len: "length body = length p + 4" using arg_cong [OF f, of length] by simp
  consider (ok) "b \<noteq> 0" | (one) "b = 0" "a \<noteq> 0" | (two) "b = 0" "a = 0" by blast
  then show ?thesis
  proof cases
    case ok
    then have "cobs_lossless ?f"
      using p len by (simp add: f lossless_short)
    then show ?thesis
      using parse_cut [OF mt, of p ?f 0] ok f
      by (simp add: crc_zeros_def parse_cobs_frame_def cobs_roundtrip_iff [THEN iffD2])
  next
    case one
    then have "cobs_lossless (body @ [a])"
      using p len by (simp add: lossless_short)
    then have "cobs_decode (cobs_encode ((body @ [a]) @ [0])) = Inr (body @ [a])"
      by (rule cobs_trailing_zero)
    then show ?thesis
      using parse_cut [OF mt, of p "body @ [a]" 1] one f
      by (simp add: crc_zeros_def parse_cobs_frame_def butlast_append)
  next
    case two
    have "cobs_decode (cobs_encode (body @ [0, 0])) = Inr body"
      using p len by (intro cobs_two_trailing_zeros) simp
    then show ?thesis
      using parse_cut [OF mt, of p body 2] two f
      by (simp add: crc_zeros_def parse_cobs_frame_def butlast_append numeral_2_eq_2)
  qed
qed

subsection \<open>Identity classification\<close>

lemma build_ack_parse:
  "parse_frame (build_ack t st p) =
     Inr \<lparr>msg_type = MSG_ACK, txn_id = None, payload = le16 t @ st # p\<rparr>"
  using parse_build_frame_standard [of MSG_ACK "le16 t @ st # p"]
  by (simp add: build_ack_def MSG_ACK_def bit_numeral_rec)

lemma acked_type_of_ack:
  "acked_type \<lparr>msg_type = MSG_ACK, txn_id = tid, payload = le16 t @ rest\<rparr> = Some t"
  by (simp add: acked_type_def le16_def of_le16_ucast)

text \<open>A frame with the compressed header, as the documentation lays it out: the type less 5000 in one
  byte and the transaction id with the high bit set.\<close>

definition compressed_frame :: "u8 \<Rightarrow> u8 \<Rightarrow> bytes \<Rightarrow> bytes" where
  "compressed_frame b tid p =
     (let frame = le16 (word_of_nat (length p + 6)) @ [b, tid OR 0x80] @ p in frame @ le16 (crc16 frame))"

lemma parse_compressed:
  assumes "tid < 0x80"
  shows "parse_frame (compressed_frame b tid p) =
           Inr \<lparr>msg_type = ucast b + 5000, txn_id = Some tid, payload = p\<rparr>"
proof -
  have chk: "arc.checked (compressed_frame b tid p)"
    unfolding compressed_frame_def Let_def by (rule arc.checked_append)
  have bit7: "bit (tid OR 0x80) 7"
    using and_exp_eq_0_iff_not_bit [of "tid OR 0x80" 7] by (simp add: bit_simps bit_numeral_rec)
  have low: "take_bit 7 (tid OR 0x80) = tid"
  proof (rule bit_word_eqI)
    fix n assume n: "n < LENGTH(8)"
    have "\<not> bit tid 7" using assms by (simp add: bit_iff_odd div_word_less)
    moreover have "n = 0 \<or> n = 1 \<or> n = 2 \<or> n = 3 \<or> n = 4 \<or> n = 5 \<or> n = 6 \<or> n = 7"
      using n by auto
    ultimately show "bit (take_bit 7 (tid OR 0x80)) n = bit tid n"
      by (auto simp: bit_simps bit_numeral_rec)
  qed
  have fields: "length (compressed_frame b tid p) = length p + 6"
      "compressed_frame b tid p ! 2 = b" "compressed_frame b tid p ! 3 = tid OR 0x80"
      "subrange (compressed_frame b tid p) 4 (4 + length p) = p"
    by (simp_all add: compressed_frame_def Let_def le16_def subrange_def)
  show ?thesis
    using fields chk bit7 low by (simp add: parse_frame_eq header_type_def header_txn_def add.commute)
qed

subsection \<open>Properties\<close>

text \<open>A frame is accepted exactly when it has at least six bytes and the CRC over the whole frame,
  its own CRC bytes included, is 0.\<close>

theorem parse_frame_accepts:
  "(\<exists>g. parse_frame f = Inr g) \<longleftrightarrow> 6 \<le> length f \<and> crc16 f = 0"
  by (auto simp: parse_frame_eq arc.checked_def)

text \<open>Parsing a built frame of a type below 0x8000, payload of any length, returns the type, no
  transaction id and the payload.\<close>

theorem build_parse_frame:
  assumes "mt < 0x8000"
  shows "parse_frame (build_frame mt p) = Inr \<lparr>msg_type = mt, txn_id = None, payload = p\<rparr>"
  by (rule parse_build_frame_standard [OF less_8000_bit [OF assms]])

theorem build_parse_frame_witness:
  "build_frame 5024 [0x74] = [7, 0, 0xA0, 0x13, 0x74, 0xB8, 0xF5] \<and>
   parse_frame (build_frame 5024 [0x74]) = Inr \<lparr>msg_type = 5024, txn_id = None, payload = [0x74]\<rparr>"
proof
  show "build_frame 5024 [0x74] = [7, 0, 0xA0, 0x13, 0x74, 0xB8, 0xF5]" by code_simp
  show "parse_frame (build_frame 5024 [0x74]) = Inr \<lparr>msg_type = 5024, txn_id = None, payload = [0x74]\<rparr>"
    by (rule build_parse_frame) simp
qed

text \<open>C26: damage confined to one byte or two neighbouring bytes of an accepted frame, wherever in the
  frame, always makes the parser report a CRC error.\<close>

theorem damaged_frame_rejected:
  assumes "parse_frame (xs @ [a, b] @ ys) = Inr g" and "(a, b) \<noteq> (c, d)"
  shows "\<exists>e r. parse_frame (xs @ [c, d] @ ys) = Inl (Crc e r)"
  using assms by (rule parse_damaged)

theorem damaged_frame_rejected_witness:
  "\<exists>e r. parse_frame ([7, 0, 0xA0, 0x13] @ [0x75, 0xB8] @ [0xF5]) = Inl (Crc e r)"
proof (rule damaged_frame_rejected)
  show "parse_frame ([7, 0, 0xA0, 0x13] @ [0x74, 0xB8] @ [0xF5]) =
      Inr \<lparr>msg_type = 5024, txn_id = None, payload = [0x74]\<rparr>"
    by code_simp
qed simp

text \<open>C15: a frame of up to 248 payload bytes that the host encodes is read back whole when its CRC does
  not end in a zero byte; otherwise the decoder strips the zero (two when the CRC is 0) and the parser
  still accepts the frame, with the last one or two payload bytes taken for its CRC, unless the payload is
  shorter than what is missing: then the frame is reported as too short.\<close>

theorem link_roundtrip:
  assumes "mt < 0x8000" and "length p \<le> 248"
  shows "parse_cobs_frame (cobs_encode (build_frame mt p)) =
    (let f = build_frame mt p;
         k = (if last f \<noteq> 0 then 0 else if last (butlast f) \<noteq> 0 then 1 else 2)
     in if length p < k then Inl (FrameTooShort (length p + 6 - k) 6)
        else Inr \<lparr>msg_type = mt, txn_id = None, payload = take (length p - k) p\<rparr>)"
  using host_link [OF less_8000_bit [OF assms(1)] assms(2)] by (simp only: cut_result_def crc_zeros_def Let_def)

theorem link_roundtrip_witness:
  "parse_cobs_frame (cobs_encode (build_frame 5044 [0x74, 0x00])) =
     Inr \<lparr>msg_type = 5044, txn_id = None, payload = [0x74, 0x00]\<rparr>"
proof -
  have "last (build_frame 5044 [0x74, 0x00]) \<noteq> 0" by code_simp
  then show ?thesis using link_roundtrip [of 5044 "[0x74, 0x00]"] by simp
qed

text \<open>The same for frames of any length from a device that uses the standard encoder: a frame whose CRC
  ends in a zero byte (one in 256) passes the CRC check with its last payload byte missing. The
  witness is a wake reply whose protobuf message the host sees cut short.\<close>

theorem device_link_roundtrip:
  assumes "mt < 0x8000"
  shows "parse_cobs_frame (std_encode (build_frame mt p)) =
    (if last (build_frame mt p) \<noteq> 0 then Inr \<lparr>msg_type = mt, txn_id = None, payload = p\<rparr>
     else if p = [] then Inl (FrameTooShort 5 6)
     else Inr \<lparr>msg_type = mt, txn_id = None, payload = butlast p\<rparr>)"
  using std_link [OF less_8000_bit [OF assms], of p]
  by (auto simp: cut_result_def last_build_frame butlast_conv_take)

theorem device_link_roundtrip_witness:
  "parse_cobs_frame (std_encode (build_frame 5044
     [27, 0, 0, 0, 0, 0, 7, 0, 0, 0, 7, 0, 0, 0, 0xB2, 0x02, 0x04, 0x22, 0x02, 0x08, 0x02])) =
     Inr \<lparr>msg_type = 5044, txn_id = None, payload =
     [27, 0, 0, 0, 0, 0, 7, 0, 0, 0, 7, 0, 0, 0, 0xB2, 0x02, 0x04, 0x22, 0x02, 0x08]\<rparr>"
proof -
  let ?p = "[27, 0, 0, 0, 0, 0, 7, 0, 0, 0, 7, 0, 0, 0, 0xB2, 0x02, 0x04, 0x22, 0x02, 0x08, 0x02]"
  have "last (build_frame 5044 ?p) = 0" by code_simp
  then show ?thesis using device_link_roundtrip [of 5044 ?p] by simp
qed

text \<open>A frame with the compressed header is read with its type put back above 5000 and its 7-bit
  transaction id.\<close>

theorem compressed_header_roundtrip:
  assumes "tid < 0x80"
  shows "parse_frame (compressed_frame b tid p) =
           Inr \<lparr>msg_type = ucast b + 5000, txn_id = Some tid, payload = p\<rparr>"
  by (rule parse_compressed [OF assms])

theorem compressed_header_roundtrip_witness:
  "parse_frame (compressed_frame 43 1 [0x74]) = Inr \<lparr>msg_type = 5043, txn_id = Some 1, payload = [0x74]\<rparr>"
  using compressed_header_roundtrip [of 1 43 "[0x74]"] by simp

text \<open>An acknowledgment built for a message type names that type, and counts as identity-bearing
  exactly when the acknowledged type does.\<close>

theorem ack_identity_follows_acked_type:
  "\<exists>f. parse_frame (build_ack t st p) = Inr f \<and> acked_type f = Some t \<and>
       (frame_carries_identity f \<longleftrightarrow> type_carries_identity t)"
  by (simp add: build_ack_parse acked_type_of_ack frame_carries_identity_def)

end
