(* ===== verification/Gfdi_Handshake.thy ===== *)
theory Gfdi_Handshake
  imports Gfdi_Frame
begin

text \<open>
  \<open>src/gfdi.rs\<close>, payloads: the device information of the 5024 message, the capability bitmap of the
  5050 message and the 14-byte fragmentation header in front of a protobuf message. A Rust
  \<open>String\<close> is the list of its UTF-8 bytes; \<open>String::from_utf8_lossy\<close> is \<open>utf8_lossy\<close>.
\<close>

named_theorems payload_simps "payload layouts"

subsection \<open>from_utf8_lossy\<close>

text \<open>The standard library takes one character, or a maximal prefix of one that cannot be
  completed, from the front; \<open>utf8_unit b rest\<close> says whether a character starts with \<open>b\<close> and how many
  bytes of \<open>rest\<close> it, or its broken prefix, has. A byte past the end reads as 0.\<close>

definition byte_at :: "bytes \<Rightarrow> nat \<Rightarrow> u8" where
  "byte_at bs i = (if i < length bs then bs ! i else 0)"

definition utf8_cont :: "u8 \<Rightarrow> bool" where
  "utf8_cont b \<longleftrightarrow> b AND 0xC0 = 0x80"

definition utf8_char_width :: "u8 \<Rightarrow> nat" where
  "utf8_char_width b =
     (if b < 0x80 then 1
      else if 0xC2 \<le> b \<and> b \<le> 0xDF then 2
      else if 0xE0 \<le> b \<and> b \<le> 0xEF then 3
      else if 0xF0 \<le> b \<and> b \<le> 0xF4 then 4
      else 0)"

text \<open>The second bytes allowed after a lead byte of a three- or four-byte character.\<close>

definition utf8_second :: "u8 \<Rightarrow> u8 \<Rightarrow> bool" where
  "utf8_second b b1 \<longleftrightarrow>
     b = 0xE0 \<and> 0xA0 \<le> b1 \<and> b1 \<le> 0xBF \<or>
     0xE1 \<le> b \<and> b \<le> 0xEC \<and> 0x80 \<le> b1 \<and> b1 \<le> 0xBF \<or>
     b = 0xED \<and> 0x80 \<le> b1 \<and> b1 \<le> 0x9F \<or>
     0xEE \<le> b \<and> b \<le> 0xEF \<and> 0x80 \<le> b1 \<and> b1 \<le> 0xBF \<or>
     b = 0xF0 \<and> 0x90 \<le> b1 \<and> b1 \<le> 0xBF \<or>
     0xF1 \<le> b \<and> b \<le> 0xF3 \<and> 0x80 \<le> b1 \<and> b1 \<le> 0xBF \<or>
     b = 0xF4 \<and> 0x80 \<le> b1 \<and> b1 \<le> 0x8F"

definition utf8_unit :: "u8 \<Rightarrow> bytes \<Rightarrow> bool \<times> nat" where
  "utf8_unit b rest =
     (let w = utf8_char_width b in
      if w = 1 then (True, 0)
      else if w = 2 then (if utf8_cont (byte_at rest 0) then (True, 1) else (False, 0))
      else if w = 3 then
        (if \<not> utf8_second b (byte_at rest 0) then (False, 0)
         else if utf8_cont (byte_at rest 1) then (True, 2) else (False, 1))
      else if w = 4 then
        (if \<not> utf8_second b (byte_at rest 0) then (False, 0)
         else if \<not> utf8_cont (byte_at rest 1) then (False, 1)
         else if utf8_cont (byte_at rest 2) then (True, 3) else (False, 2))
      else (False, 0))"

function utf8_lossy :: "bytes \<Rightarrow> bytes" where
  "utf8_lossy [] = []"
| "utf8_lossy (b # rest) =
     (let (ok, n) = utf8_unit b rest
      in (if ok then b # take n rest else [0xEF, 0xBF, 0xBD]) @ utf8_lossy (drop n rest))"
  by pat_completeness auto
termination
  by (relation "measure length") auto

subsection \<open>Device information\<close>

record device_info =
  protocol_version :: u16
  product_number :: u16
  unit_id :: u32
  software_version :: u16
  max_packet_size :: u16
  friendly_name :: bytes
  device_name :: bytes
  model_name :: bytes

definition read_length_prefixed_string :: "bytes \<Rightarrow> nat \<Rightarrow> bytes \<times> nat" where
  "read_length_prefixed_string data pos =
     (if length data \<le> pos then ([], pos)
      else
        let len = unat (data ! pos); pos = pos + 1
        in if length data < pos + len then ([], pos)
           else (utf8_lossy (subrange data pos (pos + len)), pos + len))"

definition parse_device_info :: "bytes \<Rightarrow> error + device_info" where
  "parse_device_info p =
     (if length p < 12 then Inl (FrameTooShort (length p) 12)
      else
        let (fn, pos) = read_length_prefixed_string p 12;
            (dn, pos) = read_length_prefixed_string p pos;
            (mn, pos) = read_length_prefixed_string p pos
        in Inr \<lparr>protocol_version = of_le16 (p ! 0) (p ! 1),
                product_number = of_le16 (p ! 2) (p ! 3),
                unit_id = of_le32 (p ! 4) (p ! 5) (p ! 6) (p ! 7),
                software_version = of_le16 (p ! 8) (p ! 9),
                max_packet_size = of_le16 (p ! 10) (p ! 11),
                friendly_name = fn, device_name = dn, model_name = mn\<rparr>)"

text \<open>Byte-string literals \<open>b"..."\<close> as their ASCII codes.\<close>

definition ascii :: "string \<Rightarrow> bytes" where
  "ascii s = map (\<lambda>c. word_of_nat (of_char c)) s"

definition build_device_info_response :: bytes where
  "build_device_info_response =
     (let host = le16 150 @ le16 0xFFFF @ le32 0xFFFFFFFF @ le16 100 @ le16 0xFFFF @
            concat (map (\<lambda>s. word_of_nat (length s) # s) [ascii ''divotmaker'', ascii ''Linux'', ascii ''Desktop'']) @
            [0x01]
      in build_ack MSG_DEVICE_INFO 0 host)"

subsection \<open>Capabilities\<close>

definition CAP_SWING_SENSOR :: nat where
  "CAP_SWING_SENSOR = 30"

definition parse_capabilities :: "bytes \<Rightarrow> nat list" where
  "parse_capabilities p =
     (if p = [] then []
      else
        let bitmap_size = unat (p ! 0);
            bitmap = subrange p 1 (min (length p) (1 + bitmap_size))
        in concat (map (\<lambda>(byte_idx, byte).
             concat (map (\<lambda>b. if byte AND push_bit b 1 \<noteq> 0 then [byte_idx * 8 + b] else []) [0..<8]))
             (enumerate 0 bitmap)))"

definition build_host_capabilities :: bytes where
  "build_host_capabilities =
     (let bitmap = replicate 13 0 :: bytes;
          i = CAP_SWING_SENSOR div 8;
          bitmap = bitmap[i := bitmap ! i OR push_bit (CAP_SWING_SENSOR mod 8) 1]
      in build_frame MSG_CONFIGURATION (word_of_nat (length bitmap) # bitmap))"

subsection \<open>The fragmentation header\<close>

record frag_header =
  req_id :: u16
  offset :: u32
  total_len :: u32
  chunk_size :: u32

definition parse_frag_header :: "bytes \<Rightarrow> error + (frag_header \<times> bytes)" where
  "parse_frag_header p =
     (if length p < 14 then Inl (FrameTooShort (length p) 14)
      else
        let size = of_le32 (p ! 10) (p ! 11) (p ! 12) (p ! 13);
            pb_data = subrange p 14 (min (length p) (14 + unat size))
        in Inr (\<lparr>req_id = of_le16 (p ! 0) (p ! 1),
                 offset = of_le32 (p ! 2) (p ! 3) (p ! 4) (p ! 5),
                 total_len = of_le32 (p ! 6) (p ! 7) (p ! 8) (p ! 9),
                 chunk_size = size\<rparr>, pb_data))"

definition protobuf_payload :: "u16 \<Rightarrow> bytes \<Rightarrow> bytes" where
  "protobuf_payload rid pb =
     (let pb_len = word_of_nat (length pb) in le16 rid @ le32 0 @ le32 pb_len @ le32 pb_len @ pb)"

definition build_protobuf_request :: "u16 \<Rightarrow> bytes \<Rightarrow> bytes" where
  "build_protobuf_request rid pb = build_frame MSG_PROTOBUF_REQUEST (protobuf_payload rid pb)"

subsection \<open>Lossy decoding is the identity on UTF-8 and always yields UTF-8\<close>

function utf8_valid :: "bytes \<Rightarrow> bool" where
  "utf8_valid [] \<longleftrightarrow> True"
| "utf8_valid (b # rest) \<longleftrightarrow>
     fst (utf8_unit b rest) \<and> utf8_valid (drop (snd (utf8_unit b rest)) rest)"
  by pat_completeness auto
termination
  by (relation "measure length") auto

lemma utf8_lossy_valid: "utf8_valid bs \<Longrightarrow> utf8_lossy bs = bs"
  by (induction bs rule: utf8_valid.induct) (auto split: prod.splits)

lemma past_end [simp]: "\<not> utf8_cont 0" "\<not> utf8_second b 0"
  by (simp_all add: utf8_cont_def utf8_second_def)

lemma byte_at_inside:
  "utf8_cont (byte_at xs i) \<Longrightarrow> i < length xs" "utf8_second b (byte_at xs i) \<Longrightarrow> i < length xs"
  by (simp_all add: byte_at_def split: if_splits)

lemma utf8_unit_True:
  "utf8_unit b rest = (True, n) \<longleftrightarrow>
     utf8_char_width b = 1 \<and> n = 0 \<or>
     utf8_char_width b = 2 \<and> n = 1 \<and> utf8_cont (byte_at rest 0) \<or>
     utf8_char_width b = 3 \<and> n = 2 \<and> utf8_second b (byte_at rest 0) \<and> utf8_cont (byte_at rest 1) \<or>
     utf8_char_width b = 4 \<and> n = 3 \<and> utf8_second b (byte_at rest 0) \<and> utf8_cont (byte_at rest 1) \<and>
       utf8_cont (byte_at rest 2)"
  by (auto simp: utf8_unit_def Let_def)

lemma utf8_unit_length: "utf8_unit b rest = (True, n) \<Longrightarrow> n \<le> length rest"
  by (auto simp: utf8_unit_True Suc_le_eq dest: byte_at_inside)

lemma byte_at_take: "i < n \<Longrightarrow> n \<le> length xs \<Longrightarrow> byte_at (take n xs @ ys) i = byte_at xs i"
  by (simp add: byte_at_def nth_append)

lemma utf8_unit_prefix:
  assumes "utf8_unit b rest = (True, n)"
  shows "utf8_unit b (take n rest @ ys) = (True, n)"
  using assms utf8_unit_length [OF assms] unfolding utf8_unit_True
  by (elim disjE) (simp_all only: byte_at_take, simp_all add: byte_at_take)

lemma utf8_lossy_is_valid: "utf8_valid (utf8_lossy bs)"
proof (induction bs rule: utf8_lossy.induct)
  case (2 b rest)
  obtain ok n where u: "utf8_unit b rest = (ok, n)" by fastforce
  note ih = 2 [OF u [symmetric] refl]
  show ?case
  proof (cases ok)
    case True
    have "n \<le> length rest" using utf8_unit_length [of b rest] u True by simp
    then show ?thesis
      using utf8_unit_prefix [of b rest n "utf8_lossy (drop n rest)"] u True ih by simp
  next
    case False
    have "utf8_unit 0xEF (0xBF # 0xBD # ys) = (True, 2)" for ys
      by (simp add: utf8_unit_def utf8_char_width_def utf8_second_def byte_at_def utf8_cont_def)
    then show ?thesis using u False ih by simp
  qed
qed simp

subsection \<open>Encoded text is valid\<close>

text \<open>UTF-8 as the standard defines it, on Unicode scalar values.\<close>

definition unicode_scalar :: "nat \<Rightarrow> bool" where
  "unicode_scalar c \<longleftrightarrow> c < 0xD800 \<or> 0xE000 \<le> c \<and> c < 0x110000"

definition utf8_byte :: "nat \<Rightarrow> u8" where
  "utf8_byte n = word_of_nat n"

definition utf8_tail :: "nat \<Rightarrow> u8" where
  "utf8_tail k = utf8_byte (0x80 + k mod 64)"

definition utf8_encode_char :: "nat \<Rightarrow> bytes" where
  "utf8_encode_char c =
     (if c < 0x80 then [utf8_byte c]
      else if c < 0x800 then [utf8_byte (0xC0 + c div 64), utf8_tail c]
      else if c < 0x10000 then [utf8_byte (0xE0 + c div 64 div 64), utf8_tail (c div 64), utf8_tail c]
      else [utf8_byte (0xF0 + c div 64 div 64 div 64), utf8_tail (c div 64 div 64), utf8_tail (c div 64), utf8_tail c])"

definition utf8_encode :: "nat list \<Rightarrow> bytes" where
  "utf8_encode cs = concat (map utf8_encode_char cs)"

lemma utf8_byte_compare:
  assumes "n < 256"
  shows "numeral k \<le> utf8_byte n \<longleftrightarrow> unat (numeral k :: u8) \<le> n"
    "utf8_byte n \<le> numeral k \<longleftrightarrow> n \<le> unat (numeral k :: u8)"
    "utf8_byte n < numeral k \<longleftrightarrow> n < unat (numeral k :: u8)"
    "utf8_byte n = numeral k \<longleftrightarrow> n = unat (numeral k :: u8)"
proof -
  have "unat (utf8_byte n) = n" using assms by (simp add: utf8_byte_def unat_of_nat take_bit_nat_eq_self)
  then show "numeral k \<le> utf8_byte n \<longleftrightarrow> unat (numeral k :: u8) \<le> n"
    "utf8_byte n \<le> numeral k \<longleftrightarrow> n \<le> unat (numeral k :: u8)"
    "utf8_byte n < numeral k \<longleftrightarrow> n < unat (numeral k :: u8)"
    "utf8_byte n = numeral k \<longleftrightarrow> n = unat (numeral k :: u8)"
    by (simp_all only: word_le_nat_alt word_less_nat_alt word_unat_eq_iff)
qed

lemma utf8_tail_cont: "utf8_cont (utf8_tail k)"
proof -
  have "list_all (\<lambda>k. utf8_cont (utf8_tail k)) [0..<64]" by code_simp
  then have "utf8_cont (utf8_tail (k mod 64))" by (simp add: list_all_iff)
  then show ?thesis by (simp add: utf8_tail_def)
qed

lemma utf8_width_lead:
  "n < 0x80 \<Longrightarrow> utf8_char_width (utf8_byte n) = 1"
  "0xC2 \<le> n \<Longrightarrow> n \<le> 0xDF \<Longrightarrow> utf8_char_width (utf8_byte n) = 2"
  "0xE0 \<le> n \<Longrightarrow> n \<le> 0xEF \<Longrightarrow> utf8_char_width (utf8_byte n) = 3"
  "0xF0 \<le> n \<Longrightarrow> n \<le> 0xF4 \<Longrightarrow> utf8_char_width (utf8_byte n) = 4"
  by (simp_all add: utf8_char_width_def utf8_byte_compare)

lemma utf8_second_three:
  assumes "32 \<le> x" "x < 864 \<or> 896 \<le> x" "x < 1024"
  shows "utf8_second (utf8_byte (0xE0 + x div 64)) (utf8_tail x)"
proof -
  define q r where "q = x div 64" and "r = x mod 64"
  then have x: "x = 64 * q + r" "r < 64" by simp_all
  then have "q < 16" using assms(3) by linarith
  moreover have "q = 0 \<and> 32 \<le> r \<or> 1 \<le> q \<and> q \<le> 12 \<or> q = 13 \<and> r < 32 \<or> 14 \<le> q" using x assms by linarith
  ultimately show ?thesis
    using x(2) by (auto simp: utf8_second_def utf8_tail_def utf8_byte_compare q_def [symmetric] r_def [symmetric])
qed

lemma utf8_second_four:
  assumes "16 \<le> x" "x < 272"
  shows "utf8_second (utf8_byte (0xF0 + x div 64)) (utf8_tail x)"
proof -
  define q r where "q = x div 64" and "r = x mod 64"
  then have x: "x = 64 * q + r" "r < 64" by simp_all
  then have "q = 0 \<and> 16 \<le> r \<or> 1 \<le> q \<and> q \<le> 3 \<or> q = 4 \<and> r < 16" using assms by linarith
  then show ?thesis
    using x(2) by (auto simp: utf8_second_def utf8_tail_def utf8_byte_compare q_def [symmetric] r_def [symmetric])
qed

lemma utf8_valid_char:
  assumes "unicode_scalar c" "utf8_valid rest"
  shows "utf8_valid (utf8_encode_char c @ rest)"
proof -
  consider "c < 0x80" | "0x80 \<le> c" "c < 0x800" | "0x800 \<le> c" "c < 0x10000" | "0x10000 \<le> c" by linarith
  then show ?thesis
  proof cases
    case 1
    then have "utf8_unit (utf8_byte c) rest = (True, 0)" by (simp add: utf8_unit_True utf8_width_lead)
    then show ?thesis using 1 assms(2) by (simp add: utf8_encode_char_def)
  next
    case 2
    then have "2 \<le> c div 64" "c div 64 \<le> 31" by simp_all
    then have "utf8_unit (utf8_byte (0xC0 + c div 64)) (utf8_tail c # rest) = (True, 1)"
      by (simp add: utf8_unit_True utf8_width_lead byte_at_def utf8_tail_cont)
    then show ?thesis using 2 assms(2) by (simp add: utf8_encode_char_def)
  next
    case 3
    then have "32 \<le> c div 64" "c div 64 < 864 \<or> 896 \<le> c div 64" "c div 64 < 1024"
      using assms(1) by (auto simp: unicode_scalar_def)
    note second = utf8_second_three [OF this]
    have "c div 64 div 64 \<le> 15" using 3 by simp
    then have "utf8_unit (utf8_byte (0xE0 + c div 64 div 64)) (utf8_tail (c div 64) # utf8_tail c # rest) = (True, 2)"
      using second by (simp add: utf8_unit_True utf8_width_lead byte_at_def utf8_tail_cont)
    then show ?thesis using 3 assms(2) by (simp add: utf8_encode_char_def)
  next
    case 4
    then have "16 \<le> c div 64 div 64" "c div 64 div 64 < 272" using assms(1) by (auto simp: unicode_scalar_def)
    note second = utf8_second_four [OF this]
    have "c div 64 div 64 div 64 \<le> 4" using 4 assms(1) by (simp add: unicode_scalar_def)
    then have "utf8_unit (utf8_byte (0xF0 + c div 64 div 64 div 64))
        (utf8_tail (c div 64 div 64) # utf8_tail (c div 64) # utf8_tail c # rest) = (True, 3)"
      using second by (simp add: utf8_unit_True utf8_width_lead byte_at_def utf8_tail_cont)
    then show ?thesis using 4 assms(2) by (simp add: utf8_encode_char_def)
  qed
qed

lemma utf8_encode_valid: "list_all unicode_scalar cs \<Longrightarrow> utf8_valid (utf8_encode cs)"
  by (induction cs) (simp_all add: utf8_encode_def utf8_valid_char)

subsection \<open>Strings and device information\<close>

definition prefixed :: "bytes \<Rightarrow> bytes" where
  "prefixed s = word_of_nat (length s) # s"

lemma unat_length_u8: "length s < 256 \<Longrightarrow> unat (word_of_nat (length s) :: u8) = length s"
  by (simp add: unat_of_nat take_bit_nat_eq_self)

lemma read_prefixed [payload_simps]:
  assumes "length s < 256" "pos = length pre"
  shows "read_length_prefixed_string (pre @ prefixed s @ rest) pos = (utf8_lossy s, pos + 1 + length s)"
  using assms
  by (simp add: read_length_prefixed_string_def prefixed_def unat_length_u8 subrange_def nth_append)

lemma read_cut:
  assumes "length s < unat n" "pos = length pre"
  shows "read_length_prefixed_string (pre @ n # s) pos = ([], pos + 1)"
  using assms by (simp add: read_length_prefixed_string_def nth_append)

text \<open>The layout the device sends: the numbers, then the names.\<close>

definition device_numbers :: "device_info \<Rightarrow> bytes" where
  "device_numbers d =
     le16 (protocol_version d) @ le16 (product_number d) @ le32 (unit_id d) @
     le16 (software_version d) @ le16 (max_packet_size d)"

definition device_info_payload :: "device_info \<Rightarrow> bytes" where
  "device_info_payload d =
     device_numbers d @ prefixed (friendly_name d) @ prefixed (device_name d) @ prefixed (model_name d)"

lemma device_numbers_length: "length (device_numbers d) = 12"
  by (simp add: device_numbers_def)

lemma le16_ucasts [payload_simps]: "of_le16 (ucast w) (ucast (drop_bit 8 w)) = w"
  using of_le16_le16 [of w] by (simp add: le16_def)

lemma le32_ucasts [payload_simps]:
  "of_le32 (ucast w) (ucast (drop_bit 8 w)) (ucast (drop_bit 16 w)) (ucast (drop_bit 24 w)) = w"
  using of_le32_le32 [of w] by (simp add: le32_def)

lemma of_le32_0 [payload_simps]: "of_le32 0 0 0 0 = 0"
  by (simp add: of_le32_def)

text \<open>The numbers come back whatever follows them; the names are what the three reads give.\<close>

lemma parse_device_numbers:
  assumes "read_length_prefixed_string (device_numbers d @ names) 12 = (f, i)"
    "read_length_prefixed_string (device_numbers d @ names) i = (g, j)"
    "read_length_prefixed_string (device_numbers d @ names) j = (h, k)"
  shows "parse_device_info (device_numbers d @ names) = Inr (d\<lparr>friendly_name := f, device_name := g, model_name := h\<rparr>)"
  using assms
  by (simp add: parse_device_info_def device_numbers_length)
     (simp add: device_numbers_def le16_def le32_def payload_simps)

lemma parse_device_names:
  assumes "list_all (\<lambda>s. length s < 256) [a, b, c]"
  shows "parse_device_info (device_numbers d @ prefixed a @ prefixed b @ prefixed c @ rest) =
    Inr (d\<lparr>friendly_name := utf8_lossy a, device_name := utf8_lossy b, model_name := utf8_lossy c\<rparr>)"
proof (rule parse_device_numbers)
  let ?p = "device_numbers d @ prefixed a @ prefixed b @ prefixed c @ rest"
  show "read_length_prefixed_string ?p 12 = (utf8_lossy a, 12 + 1 + length a)"
    by (rule read_prefixed) (use assms in \<open>simp_all add: device_numbers_length\<close>)
  show "read_length_prefixed_string ?p (12 + 1 + length a) = (utf8_lossy b, 12 + 1 + length a + 1 + length b)"
    using read_prefixed [of b "12 + 1 + length a" "device_numbers d @ prefixed a" "prefixed c @ rest"] assms
    by (simp add: device_numbers_length prefixed_def)
  show "read_length_prefixed_string ?p (12 + 1 + length a + 1 + length b) =
      (utf8_lossy c, 12 + 1 + length a + 1 + length b + 1 + length c)"
    using read_prefixed [of c "12 + 1 + length a + 1 + length b" "device_numbers d @ prefixed a @ prefixed b" rest] assms
    by (simp add: device_numbers_length prefixed_def)
qed

text \<open>A first name longer than what is left of the payload: the reads go on inside it.\<close>

lemma parse_cut_name:
  assumes "list_all (\<lambda>s. length s < 256) [a, b]" "length (prefixed a @ prefixed b @ rest) < unat n"
  shows "parse_device_info (device_numbers d @ n # prefixed a @ prefixed b @ rest) =
    Inr (d\<lparr>friendly_name := [], device_name := utf8_lossy a, model_name := utf8_lossy b\<rparr>)"
proof (rule parse_device_numbers)
  let ?p = "device_numbers d @ n # prefixed a @ prefixed b @ rest"
  show "read_length_prefixed_string ?p 12 = ([], 12 + 1)"
    by (rule read_cut) (use assms in \<open>simp_all add: device_numbers_length\<close>)
  show "read_length_prefixed_string ?p (12 + 1) = (utf8_lossy a, 12 + 1 + 1 + length a)"
    using read_prefixed [of a "12 + 1" "device_numbers d @ [n]" "prefixed b @ rest"] assms
    by (simp add: device_numbers_length)
  show "read_length_prefixed_string ?p (12 + 1 + 1 + length a) = (utf8_lossy b, 12 + 1 + 1 + length a + 1 + length b)"
    using read_prefixed [of b "12 + 1 + 1 + length a" "device_numbers d @ n # prefixed a" rest] assms
    by (simp add: device_numbers_length prefixed_def)
qed

lemma parse_device_info_layout:
  assumes "list_all (\<lambda>s. length s < 256 \<and> utf8_valid s) [friendly_name d, device_name d, model_name d]"
  shows "parse_device_info (device_info_payload d @ rest) = Inr d"
  using parse_device_names [of "friendly_name d" "device_name d" "model_name d" d rest] assms
  by (simp add: device_info_payload_def utf8_lossy_valid)

subsection \<open>Capabilities\<close>

lemma bit_test: "byte AND push_bit b 1 \<noteq> 0 \<longleftrightarrow> bit byte b" for byte :: u8
  using and_exp_eq_0_iff_not_bit [of byte b] by (simp add: push_bit_eq_mult)

lemmas bit_test_exp = bit_test [simplified]

lemma concat_if_filter: "concat (map (\<lambda>x. if P x then [f x] else []) xs) = map f (filter P xs)"
  by (induction xs) auto

lemma bits_ascending:
  "concat (map (\<lambda>(i, byte). map (\<lambda>b. i * 8 + b) (filter (bit byte) [0..<8])) (enumerate k bs)) =
   filter (\<lambda>i. bit (bs ! (i div 8 - k)) (i mod 8)) [8 * k..<8 * (k + length bs)]" for bs :: bytes
proof (induction bs arbitrary: k)
  case Nil
  show ?case by simp
next
  case (Cons x bs)
  have split: "[8 * k..<8 * (k + length (x # bs))] =
      map (\<lambda>b. k * 8 + b) [0..<8] @ [8 * Suc k..<8 * (Suc k + length bs)]"
  proof -
    have "map (\<lambda>b. k * 8 + b) [0..<8] = [8 * k..<8 * Suc k]"
      using map_add_upt [of "8 * k" 8] by (simp add: add.commute mult.commute)
    then show ?thesis
      using upt_add_eq_append [of "8 * k" "8 * Suc k" "8 * length bs"] by (simp add: algebra_simps)
  qed
  have tail: "filter (\<lambda>i. bit ((x # bs) ! (i div 8 - k)) (i mod 8)) [8 * Suc k..<8 * (Suc k + length bs)] =
      filter (\<lambda>i. bit (bs ! (i div 8 - Suc k)) (i mod 8)) [8 * Suc k..<8 * (Suc k + length bs)]"
    by (intro filter_cong refl) (auto simp: nth_Cons' Suc_diff_le)
  have head: "filter (\<lambda>i. bit ((x # bs) ! (i div 8 - k)) (i mod 8)) (map (\<lambda>b. k * 8 + b) [0..<8]) =
      map (\<lambda>b. k * 8 + b) (filter (bit x) [0..<8])"
  proof -
    have "filter (\<lambda>b. bit ((x # bs) ! ((k * 8 + b) div 8 - k)) ((k * 8 + b) mod 8)) [0..<8] =
        filter (bit x) [0..<8]"
      by (intro filter_cong refl) (auto simp: div_mult_self3)
    then show ?thesis by (simp only: filter_map comp_def)
  qed
  show ?case
    unfolding split filter_append head tail using Cons.IH [of "Suc k"] by simp
qed

lemma parse_capabilities_Cons:
  "parse_capabilities (n # bitmap) =
     filter (\<lambda>i. bit (bitmap ! (i div 8)) (i mod 8)) [0..<8 * min (unat n) (length bitmap)]"
proof -
  let ?bm = "take (unat n) bitmap"
  have "subrange (n # bitmap) 1 (min (length (n # bitmap)) (1 + unat n)) = ?bm"
    by (simp add: subrange_def min_def)
  then have "parse_capabilities (n # bitmap) =
      concat (map (\<lambda>(i, byte). map (\<lambda>b. i * 8 + b) (filter (bit byte) [0..<8])) (enumerate 0 ?bm))"
    by (simp add: parse_capabilities_def bit_test bit_test_exp concat_if_filter del: upt_rec_numeral)
  also have "\<dots> = filter (\<lambda>i. bit (?bm ! (i div 8)) (i mod 8)) [0..<8 * length ?bm]"
    using bits_ascending [of 0 ?bm] by simp
  also have "\<dots> = filter (\<lambda>i. bit (bitmap ! (i div 8)) (i mod 8)) [0..<8 * min (unat n) (length bitmap)]"
    by (intro filter_cong) (auto simp: min.commute)
  finally show ?thesis .
qed

subsection \<open>Fragmentation\<close>

lemma parse_protobuf_payload [payload_simps]:
  assumes "length pb < 2 ^ 32"
  shows "parse_frag_header (protobuf_payload rid pb) =
    Inr (\<lparr>req_id = rid, offset = 0, total_len = word_of_nat (length pb), chunk_size = word_of_nat (length pb)\<rparr>, pb)"
proof -
  define n :: u32 where "n = word_of_nat (length pb)"
  have n: "unat n = length pb"
    using assms by (simp add: n_def unat_of_nat take_bit_nat_eq_self)
  have p: "protobuf_payload rid pb = le16 rid @ le32 0 @ le32 n @ le32 n @ pb"
    by (simp add: protobuf_payload_def n_def Let_def)
  have "parse_frag_header (le16 rid @ le32 0 @ le32 n @ le32 n @ pb) =
      Inr (\<lparr>req_id = rid, offset = 0, total_len = n, chunk_size = n\<rparr>, pb)"
    using n by (simp add: parse_frag_header_def Let_def le16_def le32_def payload_simps subrange_def)
  then show ?thesis by (simp add: p n_def)
qed

lemma parse_frag_header_error:
  "(\<exists>h. parse_frag_header p = Inr h) \<longleftrightarrow> 14 \<le> length p"
  by (auto simp: parse_frag_header_def Let_def)

lemma build_protobuf_request_parse:
  "parse_frame (build_protobuf_request rid pb) =
     Inr \<lparr>msg_type = MSG_PROTOBUF_REQUEST, txn_id = None, payload = protobuf_payload rid pb\<rparr>"
  unfolding build_protobuf_request_def
  by (rule parse_build_frame_standard) (simp add: MSG_PROTOBUF_REQUEST_def bit_numeral_rec)

lemma host_capabilities_parse:
  "parse_frame build_host_capabilities =
     Inr \<lparr>msg_type = MSG_CONFIGURATION, txn_id = None, payload = [13, 0, 0, 0, 0x40, 0, 0, 0, 0, 0, 0, 0, 0, 0]\<rparr>"
proof -
  have "build_host_capabilities =
      build_frame MSG_CONFIGURATION [13, 0, 0, 0, 0x40, 0, 0, 0, 0, 0, 0, 0, 0, 0]"
    by code_simp
  then show ?thesis
    using parse_build_frame_standard [of MSG_CONFIGURATION "[13, 0, 0, 0, 0x40, 0, 0, 0, 0, 0, 0, 0, 0, 0]"]
    by (simp add: MSG_CONFIGURATION_def bit_numeral_rec)
qed

subsection \<open>Properties\<close>

text \<open>The parser reads back a 5024 payload laid out as the device sends it, with any trailing
  bytes: fixed fields little-endian, then three strings of fewer than 256 bytes of UTF-8 behind their
  length bytes.\<close>

theorem device_info_roundtrip:
  assumes "list_all (\<lambda>s. length s < 256 \<and> utf8_valid s) [friendly_name d, device_name d, model_name d]"
  shows "parse_device_info (device_info_payload d @ rest) = Inr d"
  using assms by (rule parse_device_info_layout)

theorem device_info_roundtrip_witness:
  "parse_device_info (device_info_payload
     \<lparr>protocol_version = 150, product_number = 4010, unit_id = 3000000001, software_version = 440,
      max_packet_size = 375, friendly_name = ascii ''R10'', device_name = [0xC3, 0xA9], model_name = []\<rparr> @ [1]) =
   Inr \<lparr>protocol_version = 150, product_number = 4010, unit_id = 3000000001, software_version = 440,
      max_packet_size = 375, friendly_name = [0x52, 0x31, 0x30], device_name = [0xC3, 0xA9], model_name = []\<rparr>"
proof -
  let ?d = "\<lparr>protocol_version = 150, product_number = 4010, unit_id = 3000000001, software_version = 440,
      max_packet_size = 375, friendly_name = ascii ''R10'', device_name = [0xC3, 0xA9], model_name = []\<rparr>"
  have r10: "ascii ''R10'' = [0x52, 0x31, 0x30]" by code_simp
  have "utf8_valid (ascii ''R10'')" "utf8_valid [0xC3, 0xA9]"
    by code_simp+
  then show ?thesis
    using device_info_roundtrip [of ?d "[1]"] by (simp add: r10)
qed

text \<open>C40: what the parser makes of a device's names: three length-prefixed strings of any bytes come out decoded
  lossily, in order, next to the unchanged numbers and whatever follows them; when they are the UTF-8
  encoding of Unicode text, they come out byte for byte. When the first name is longer than the payload holds,
  it comes out empty and the two others are read from its own bytes.\<close>

theorem device_names_parsed:
  assumes "list_all (\<lambda>s. length s < 256) [a, b, c]"
  shows "parse_device_info (device_numbers d @ prefixed a @ prefixed b @ prefixed c @ rest) =
      Inr (d\<lparr>friendly_name := utf8_lossy a, device_name := utf8_lossy b, model_name := utf8_lossy c\<rparr>) \<and>
    (list_all (list_all unicode_scalar) [f, g, h] \<and> [a, b, c] = map utf8_encode [f, g, h] \<longrightarrow>
      parse_device_info (device_numbers d @ prefixed a @ prefixed b @ prefixed c @ rest) =
        Inr (d\<lparr>friendly_name := a, device_name := b, model_name := c\<rparr>)) \<and>
    (length (prefixed a @ prefixed b @ rest) < unat n \<longrightarrow>
      parse_device_info (device_numbers d @ n # prefixed a @ prefixed b @ rest) =
        Inr (d\<lparr>friendly_name := [], device_name := utf8_lossy a, model_name := utf8_lossy b\<rparr>))"
proof (intro conjI impI)
  show parsed: "parse_device_info (device_numbers d @ prefixed a @ prefixed b @ prefixed c @ rest) =
      Inr (d\<lparr>friendly_name := utf8_lossy a, device_name := utf8_lossy b, model_name := utf8_lossy c\<rparr>)"
    by (rule parse_device_names [OF assms])
  assume "list_all (list_all unicode_scalar) [f, g, h] \<and> [a, b, c] = map utf8_encode [f, g, h]"
  then have "utf8_lossy a = a" "utf8_lossy b = b" "utf8_lossy c = c" by (simp_all add: utf8_lossy_valid utf8_encode_valid)
  then show "parse_device_info (device_numbers d @ prefixed a @ prefixed b @ prefixed c @ rest) =
      Inr (d\<lparr>friendly_name := a, device_name := b, model_name := c\<rparr>)" using parsed by simp
qed (use parse_cut_name assms in simp)

definition demo_info :: device_info where
  "demo_info = \<lparr>protocol_version = 150, product_number = 4010, unit_id = 3000000001, software_version = 440,
     max_packet_size = 375, friendly_name = [], device_name = [], model_name = []\<rparr>"

theorem device_names_parsed_witness:
  "parse_device_info (device_numbers demo_info @ prefixed [0x52, 0x31, 0x30] @ prefixed [0xC3, 0xA9, 0xF0, 0x9F, 0x8F, 0x8C] @
      prefixed [] @ [1]) =
     Inr (demo_info\<lparr>friendly_name := [0x52, 0x31, 0x30], device_name := [0xC3, 0xA9, 0xF0, 0x9F, 0x8F, 0x8C]\<rparr>) \<and>
   parse_device_info (device_numbers demo_info @ 9 # prefixed [0x52, 0x31, 0x30] @ prefixed [0x41] @ []) =
     Inr (demo_info\<lparr>device_name := [0x52, 0x31, 0x30], model_name := [0x41]\<rparr>)"
proof
  let ?a = "[0x52, 0x31, 0x30] :: bytes" and ?b = "[0xC3, 0xA9, 0xF0, 0x9F, 0x8F, 0x8C] :: bytes"
  have utf8: "[?a, ?b, []] = map utf8_encode [[0x52, 0x31, 0x30], [0xE9, 0x1F3CC], []]"
      "list_all (list_all unicode_scalar) [[0x52, 0x31, 0x30], [0xE9, 0x1F3CC], []]"
    by (simp_all add: utf8_encode_def utf8_encode_char_def utf8_byte_def utf8_tail_def unicode_scalar_def)
  have lengths: "list_all (\<lambda>s. length s < 256) [?a, ?b, []]" "list_all (\<lambda>s. length s < 256) [?a, [0x41], []]" by simp_all
  have kept: "demo_info\<lparr>friendly_name := x, device_name := y, model_name := []\<rparr> = demo_info\<lparr>friendly_name := x, device_name := y\<rparr>"
      "demo_info\<lparr>friendly_name := [], device_name := x, model_name := y\<rparr> = demo_info\<lparr>device_name := x, model_name := y\<rparr>" for x y
    by (simp_all add: demo_info_def)
  have "parse_device_info (device_numbers demo_info @ prefixed ?a @ prefixed ?b @ prefixed [] @ [1]) =
      Inr (demo_info\<lparr>friendly_name := ?a, device_name := ?b, model_name := []\<rparr>)"
    by (rule device_names_parsed [OF lengths(1), THEN conjunct2, THEN conjunct1, THEN mp]) (rule conjI [OF utf8(2,1)])
  then show "parse_device_info (device_numbers demo_info @ prefixed ?a @ prefixed ?b @ prefixed [] @ [1]) =
      Inr (demo_info\<lparr>friendly_name := ?a, device_name := ?b\<rparr>)"
    by (simp only: kept)
  have lossy: "utf8_lossy ?a = ?a" "utf8_lossy [0x41] = [0x41]" by code_simp+
  have short: "length (prefixed ?a @ prefixed [0x41] @ []) < unat (9 :: u8)" by (simp add: prefixed_def)
  show "parse_device_info (device_numbers demo_info @ 9 # prefixed ?a @ prefixed [0x41] @ []) =
      Inr (demo_info\<lparr>device_name := ?a, model_name := [0x41]\<rparr>)"
    using device_names_parsed [OF lengths(2), THEN conjunct2, THEN conjunct2, THEN mp, OF short, of demo_info]
    by (simp only: kept lossy)
qed

text \<open>The capability list is, in ascending order, exactly the indexes of the bits set in the bitmap
  the payload really holds (its first byte may promise more); the host's own message sets bit 30 only.\<close>

theorem capabilities_are_set_bits:
  "parse_capabilities (n # bitmap) =
     filter (\<lambda>i. bit (bitmap ! (i div 8)) (i mod 8)) [0..<8 * min (unat n) (length bitmap)] \<and>
   parse_capabilities [] = [] \<and>
   (\<exists>f. parse_frame build_host_capabilities = Inr f \<and> msg_type f = MSG_CONFIGURATION \<and>
        parse_capabilities (payload f) = [CAP_SWING_SENSOR])"
proof (intro conjI)
  show "parse_capabilities (n # bitmap) =
     filter (\<lambda>i. bit (bitmap ! (i div 8)) (i mod 8)) [0..<8 * min (unat n) (length bitmap)]"
    by (rule parse_capabilities_Cons)
  show "parse_capabilities [] = []"
    by (simp add: parse_capabilities_def)
  have "parse_capabilities [13, 0, 0, 0, 0x40, 0, 0, 0, 0, 0, 0, 0, 0, 0] = [CAP_SWING_SENSOR]"
    by code_simp
  then show "\<exists>f. parse_frame build_host_capabilities = Inr f \<and> msg_type f = MSG_CONFIGURATION \<and>
        parse_capabilities (payload f) = [CAP_SWING_SENSOR]"
    by (simp add: host_capabilities_parse)
qed

text \<open>A protobuf request of fewer than 4 GB carries its request id and its message through framing
  and fragmentation header: parsing the frame and then its header gives both back, at offset 0 and with
  the full length as total and chunk size.\<close>

theorem protobuf_request_roundtrip:
  assumes "length pb < 2 ^ 32"
  shows "\<exists>f. parse_frame (build_protobuf_request rid pb) = Inr f \<and> msg_type f = MSG_PROTOBUF_REQUEST \<and>
     parse_frag_header (payload f) =
       Inr (\<lparr>req_id = rid, offset = 0, total_len = word_of_nat (length pb),
             chunk_size = word_of_nat (length pb)\<rparr>, pb)"
  using parse_protobuf_payload [OF assms] by (simp add: build_protobuf_request_parse)

theorem protobuf_request_roundtrip_witness:
  "\<exists>f. parse_frame (build_protobuf_request 1 [8, 1]) = Inr f \<and> msg_type f = MSG_PROTOBUF_REQUEST \<and>
     parse_frag_header (payload f) =
       Inr (\<lparr>req_id = 1, offset = 0, total_len = 2, chunk_size = 2\<rparr>, [8, 1])"
  using protobuf_request_roundtrip [of "[8, 1]" 1] by simp

end
