(* ===== verification/Testing_Frames.thy ===== *)
theory Testing_Frames
  imports Multilink Gfdi_Handshake
begin

text \<open>
  \<open>src/testing.rs\<close>: the builders that put frames on the wire, for the crate's and downstream tests.
  The identity values are the synthetic ones of the source.
\<close>

definition DEVICE_INFO_UNIT_ID :: u32 where
  "DEVICE_INFO_UNIT_ID = 0x5EED1D01"

definition DEVICE_INFO_NAME :: bytes where
  "DEVICE_INFO_NAME = ascii ''Approach R10 SYNTH''"

definition encode_frame :: "u16 \<Rightarrow> bytes \<Rightarrow> bytes" where
  "encode_frame mt p = wrap_cobs (build_frame mt p)"

definition ack_frame :: "u16 \<Rightarrow> u8 \<Rightarrow> bytes \<Rightarrow> bytes" where
  "ack_frame acked status p = wrap_cobs (build_ack acked status p)"

definition device_info_frame :: bytes where
  "device_info_frame =
     (let p = le16 150 @ le16 119 @ le32 DEVICE_INFO_UNIT_ID @ le16 1 @ le16 512 @
            concat (map (\<lambda>name. word_of_nat (length name) # name)
                      [DEVICE_INFO_NAME, ascii ''R10'', ascii ''Approach R10''])
      in encode_frame MSG_DEVICE_INFO p)"

definition test_chunks :: "u8 \<Rightarrow> bytes \<Rightarrow> nat \<Rightarrow> bytes list" where
  "test_chunks h bs mtu = chunk_with_handle bs h mtu"

definition with_handle :: "u8 \<Rightarrow> bytes \<Rightarrow> bytes" where
  "with_handle h bs = concat [[h], bs]"

subsection \<open>Properties\<close>

text \<open>The synthetic device information frame is a frame the parser accepts, and its payload reads
  back as the synthetic unit id and names.\<close>

theorem device_info_frame_parses:
  "\<exists>f. parse_cobs_frame (subrange device_info_frame 1 (length device_info_frame - 1)) = Inr f \<and>
       msg_type f = MSG_DEVICE_INFO \<and>
       parse_device_info (payload f) =
         Inr \<lparr>protocol_version = 150, product_number = 119, unit_id = DEVICE_INFO_UNIT_ID,
              software_version = 1, max_packet_size = 512, friendly_name = DEVICE_INFO_NAME,
              device_name = ascii ''R10'', model_name = ascii ''Approach R10''\<rparr>"
proof -
  let ?d = "\<lparr>protocol_version = 150, product_number = 119, unit_id = DEVICE_INFO_UNIT_ID,
              software_version = 1, max_packet_size = 512, friendly_name = DEVICE_INFO_NAME,
              device_name = ascii ''R10'', model_name = ascii ''Approach R10''\<rparr>"
  define p where "p = device_info_payload ?d"
  have frame: "device_info_frame = 0 # cobs_encode (build_frame MSG_DEVICE_INFO p) @ [0]"
    by (simp add: device_info_frame_def encode_frame_def wrap_cobs_def p_def device_info_payload_def device_numbers_def
        prefixed_def)
  have p: "p = [150, 0, 119, 0, 1, 29, 237, 94, 1, 0, 0, 2, 18, 65, 112, 112, 114, 111, 97, 99, 104, 32, 82, 49, 48, 32, 83, 89,
      78, 84, 72, 3, 82, 49, 48, 12, 65, 112, 112, 114, 111, 97, 99, 104, 32, 82, 49, 48]"
    unfolding p_def by code_simp
  have len: "length p = 48" by (simp add: p)
  have "last (build_frame MSG_DEVICE_INFO p) = 0xD4"
    by (simp add: p build_frame_def Let_def crc16_def le16_def msg_defs, simp add: crc_byte_def crc_table_def)
  then have crc: "crc_zeros (build_frame MSG_DEVICE_INFO p) = 0" by (simp add: crc_zeros_def)
  have "parse_cobs_frame (cobs_encode (build_frame MSG_DEVICE_INFO p)) =
      cut_result MSG_DEVICE_INFO p 0"
    using host_link [of MSG_DEVICE_INFO p] crc len by (simp add: MSG_DEVICE_INFO_def bit_numeral_rec)
  moreover have "utf8_valid DEVICE_INFO_NAME" "utf8_valid (ascii ''R10'')" "utf8_valid (ascii ''Approach R10'')"
    by code_simp+
  moreover have "length DEVICE_INFO_NAME = 18" "length (ascii ''R10'') = 3" "length (ascii ''Approach R10'') = 12"
    by code_simp+
  ultimately show ?thesis
    using parse_device_info_layout [of ?d "[]"]
    by (simp add: frame subrange_def cut_result_def p_def)
qed

end
