(* ===== verification/Capture.thy ===== *)
theory Capture
  imports Testing_Frames "HOL-Library.Sublist"
begin

text \<open>
  \<open>src/capture.rs\<close>: the filter that keeps the device's identity out of recorded traffic. It is fed raw
  BLE chunks with a value each and hands back the values of the chunks that are safe to record. The
  specification tags every stream byte with its chunk's value and says which segments between
  delimiters must not be released.
\<close>

named_theorems filter_simps "the filter on one byte"

subsection \<open>The code\<close>

definition MAX_FRAME_BYTES :: nat where
  "MAX_FRAME_BYTES = 8 * 1024"

definition MAX_HELD_CHUNKS :: nat where
  "MAX_HELD_CHUNKS = 256"

record 'a identity_filter =
  frame :: bytes
  tainted :: bool
  held :: "'a list"

definition filter_new :: "'a identity_filter" where
  "filter_new = \<lparr>frame = [], tainted = False, held = []\<rparr>"

definition frame_excluded :: "bytes \<Rightarrow> bool" where
  "frame_excluded cobs_bytes =
     (case parse_cobs_frame cobs_bytes of Inl _ \<Rightarrow> True | Inr f \<Rightarrow> frame_carries_identity f)"

text \<open>One turn of the loop over a chunk's bytes: the filter, the values released so far by this call, and
  whether the chunk may still be kept.\<close>

definition filter_byte :: "u8 \<Rightarrow> 'a identity_filter \<times> 'a list \<times> bool \<Rightarrow> 'a identity_filter \<times> 'a list \<times> bool" where
  "filter_byte b s =
     (let (f, out, keep) = s in
      if b \<noteq> 0 then
        (if length (frame f) < MAX_FRAME_BYTES
         then (f\<lparr>frame := frame f @ [b]\<rparr>, out, keep)
         else (f\<lparr>tainted := True\<rparr>, out, keep))
      else if frame f = [] \<and> \<not> tainted f then (f, out, keep)
      else if tainted f \<or> frame_excluded (frame f)
      then (f\<lparr>held := [], frame := [], tainted := False\<rparr>, out, False)
      else (f\<lparr>held := [], frame := [], tainted := False\<rparr>, out @ held f, keep))"

definition filter_feed :: "bytes \<Rightarrow> 'a \<Rightarrow> 'a identity_filter \<Rightarrow> 'a list \<times> 'a identity_filter" where
  "filter_feed chunk value f =
     (let (f, out, keep) = fold filter_byte (drop 1 chunk) (f, [], True);
          f = (if length (held f) \<ge> MAX_HELD_CHUNKS then f\<lparr>held := [], tainted := True\<rparr> else f)
      in if keep \<and> \<not> tainted f
         then (if frame f = [] then (out @ [value], f)
               else (out, f\<lparr>held := held f @ [value]\<rparr>))
         else (out, f))"

text \<open>Feeding a whole capture, as the documentation's example does.\<close>

fun filter_run :: "(bytes \<times> 'a) list \<Rightarrow> 'a identity_filter \<Rightarrow> 'a list \<times> 'a identity_filter" where
  "filter_run [] f = ([], f)"
| "filter_run ((chunk, value) # cs) f =
     (let (out, f) = filter_feed chunk value f; (outs, f) = filter_run cs f in (out @ outs, f))"

subsection \<open>The specification\<close>

text \<open>The stream, each byte tagged with the number of its chunk.\<close>

definition tagged_stream :: "bytes list \<Rightarrow> (u8 \<times> nat) list" where
  "tagged_stream chunks = concat (map (\<lambda>(i, c). map (\<lambda>b. (b, i)) (drop 1 c)) (enumerate 0 chunks))"

text \<open>The chunks released when chunk \<open>i\<close> carries the value \<open>i\<close>.\<close>

definition released :: "bytes list \<Rightarrow> nat list" where
  "released chunks = fst (filter_run (map (\<lambda>(i, c). (c, i)) (enumerate 0 chunks)) filter_new)"

text \<open>What must not be released: bytes between delimiters that carry identity, cannot be parsed, or are
  too many to classify.\<close>

definition forbidden :: "bytes \<Rightarrow> bool" where
  "forbidden bs \<longleftrightarrow> bs \<noteq> [] \<and> (frame_excluded bs \<or> MAX_FRAME_BYTES < length bs)"

text \<open>A scan of the tagged stream: the segment that is open, and the chunks that carry a byte or the
  closing delimiter of a forbidden segment.\<close>

definition scan_tagged :: "u8 \<times> nat \<Rightarrow> (u8 \<times> nat) list \<times> nat set \<Rightarrow> (u8 \<times> nat) list \<times> nat set" where
  "scan_tagged bt s =
     (let (cur, bad) = s in
      if fst bt \<noteq> 0 then (cur @ [bt], bad)
      else ([], if forbidden (map fst cur) then bad \<union> set (map snd (cur @ [bt])) else bad))"

subsection \<open>The invariant\<close>

text \<open>In the middle of chunk \<open>k\<close>: \<open>rel\<close> is everything released so far, the rest is the filter and the
  scan. Nothing released or held touches a forbidden segment, nothing released touches the open one,
  and the frame buffer is the open segment up to the size bound.\<close>

definition filter_inv ::
  "nat \<Rightarrow> nat set \<Rightarrow> nat identity_filter \<Rightarrow> bool \<Rightarrow> (u8 \<times> nat) list \<Rightarrow> nat set \<Rightarrow> bool" where
  "filter_inv k rel f keep cur bad \<longleftrightarrow>
     frame f = take MAX_FRAME_BYTES (map fst cur) \<and>
     (MAX_FRAME_BYTES < length cur \<longrightarrow> tainted f) \<and>
     (tainted f \<longrightarrow> cur \<noteq> []) \<and>
     (held f \<noteq> [] \<longrightarrow> cur \<noteq> []) \<and>
     0 \<notin> fst ` set cur \<and>
     rel \<inter> (bad \<union> snd ` set cur) = {} \<and> set (held f) \<inter> bad = {} \<and>
     (\<forall>i \<in> rel \<union> set (held f). i < k) \<and>
     (keep \<longrightarrow> k \<notin> bad)"

lemma filter_byte_push [filter_simps]:
  "b \<noteq> 0 \<Longrightarrow> length (frame f) < MAX_FRAME_BYTES \<Longrightarrow>
   filter_byte b (f, out, keep) = (f\<lparr>frame := frame f @ [b]\<rparr>, out, keep)"
  by (simp add: filter_byte_def)

lemma filter_byte_long [filter_simps]:
  "b \<noteq> 0 \<Longrightarrow> MAX_FRAME_BYTES \<le> length (frame f) \<Longrightarrow>
   filter_byte b (f, out, keep) = (f\<lparr>tainted := True\<rparr>, out, keep)"
  by (simp add: filter_byte_def)

lemma filter_byte_gap [filter_simps]:
  "frame f = [] \<Longrightarrow> \<not> tainted f \<Longrightarrow> filter_byte 0 (f, out, keep) = (f, out, keep)"
  by (simp add: filter_byte_def)

lemma filter_byte_drop [filter_simps]:
  "tainted f \<or> frame f \<noteq> [] \<and> frame_excluded (frame f) \<Longrightarrow>
   filter_byte 0 (f, out, keep) = (\<lparr>frame = [], tainted = False, held = []\<rparr>, out, False)"
  by (cases f) (auto simp: filter_byte_def)

lemma filter_byte_release [filter_simps]:
  "\<not> tainted f \<Longrightarrow> frame f \<noteq> [] \<Longrightarrow> \<not> frame_excluded (frame f) \<Longrightarrow>
   filter_byte 0 (f, out, keep) = (\<lparr>frame = [], tainted = False, held = []\<rparr>, out @ held f, keep)"
  by (cases f) (simp add: filter_byte_def)

lemma MAX_FRAME_BYTES_pos [simp]: "0 < MAX_FRAME_BYTES"
  by (simp add: MAX_FRAME_BYTES_def)

lemma filter_inv_nonzero:
  assumes inv: "filter_inv k rel f keep cur bad" and b: "b \<noteq> 0"
    and step: "filter_byte b (f, out, keep) = (f', out', keep')"
  shows "filter_inv k rel f' keep' (cur @ [(b, k)]) bad \<and> out' = out"
proof -
  have rel: "rel \<inter> (bad \<union> snd ` set (cur @ [(b, k)])) = {}"
    using inv by (auto simp: filter_inv_def)
  show ?thesis
  proof (cases "length (frame f) < MAX_FRAME_BYTES")
    case True
    then have "length cur < MAX_FRAME_BYTES" using inv by (simp add: filter_inv_def min_def split: if_splits)
    moreover from this have "frame f = map fst cur" using inv by (simp add: filter_inv_def)
    moreover have "f' = f\<lparr>frame := frame f @ [b]\<rparr>" "out' = out" "keep' = keep"
      using step b True by (simp_all add: filter_byte_push)
    ultimately show ?thesis
      using inv rel b by (simp add: filter_inv_def)
  next
    case False
    then have "MAX_FRAME_BYTES \<le> length cur" using inv by (simp add: filter_inv_def)
    moreover have "f' = f\<lparr>tainted := True\<rparr>" "out' = out" "keep' = keep"
      using step b False by (simp_all add: filter_byte_long)
    ultimately show ?thesis
      using inv rel b by (simp add: filter_inv_def)
  qed
qed

lemma filter_inv_zero:
  assumes inv: "filter_inv k (rel \<union> set out) f keep cur bad"
    and step: "filter_byte 0 (f, out, keep) = (f', out', keep')"
    and bad': "bad' = (if forbidden (map fst cur) then bad \<union> set (map snd (cur @ [(0, k)])) else bad)"
  shows "filter_inv k (rel \<union> set out') f' keep' [] bad'"
proof (cases "cur = []")
  case True
  then have "frame f = []" "\<not> tainted f" "bad' = bad"
    using inv bad' by (auto simp: filter_inv_def forbidden_def)
  then show ?thesis
    using inv step True by (simp add: filter_byte_gap)
next
  case False
  then have ne: "frame f \<noteq> []" using inv by (simp add: filter_inv_def)
  have lt: "\<forall>i \<in> rel \<union> set out. i < k" using inv by (simp add: filter_inv_def)
  show ?thesis
  proof (cases "tainted f \<or> frame_excluded (frame f)")
    case True
    then have "f' = \<lparr>frame = [], tainted = False, held = []\<rparr>" "out' = out" "\<not> keep'"
      using step ne by (auto simp: filter_byte_drop)
    moreover have "(rel \<union> set out) \<inter> bad' = {}"
      using inv lt unfolding bad' filter_inv_def by auto
    ultimately show ?thesis using lt by (simp add: filter_inv_def)
  next
    case safe: False
    then have "frame f = map fst cur" "bad' = bad"
      using inv bad' by (auto simp: filter_inv_def forbidden_def)
    moreover have "f' = \<lparr>frame = [], tainted = False, held = []\<rparr>" "out' = out @ held f" "keep' = keep"
      using step ne safe by (auto simp: filter_byte_release)
    ultimately show ?thesis using inv by (auto simp: filter_inv_def)
  qed
qed

lemma filter_inv_byte:
  assumes "filter_inv k (rel \<union> set out) f keep cur bad" "filter_byte b (f, out, keep) = (f', out', keep')"
    "scan_tagged (b, k) (cur, bad) = (cur', bad')"
  shows "filter_inv k (rel \<union> set out') f' keep' cur' bad'"
proof (cases "b = 0")
  case True
  then show ?thesis
    using filter_inv_zero [OF assms(1) assms(2) [unfolded True]] assms(3) by (auto simp: scan_tagged_def)
next
  case False
  then show ?thesis
    using filter_inv_nonzero [OF assms(1) False assms(2)] assms(3) by (auto simp: scan_tagged_def)
qed

lemma filter_inv_bytes:
  assumes "filter_inv k (rel \<union> set out) f keep cur bad"
    "fold filter_byte bs (f, out, keep) = (f', out', keep')"
    "fold scan_tagged (map (\<lambda>b. (b, k)) bs) (cur, bad) = (cur', bad')"
  shows "filter_inv k (rel \<union> set out') f' keep' cur' bad'"
  using assms
proof (induction bs arbitrary: out f keep cur bad)
  case (Cons b bs)
  obtain f1 out1 keep1 where s: "filter_byte b (f, out, keep) = (f1, out1, keep1)"
    by (metis surj_pair)
  obtain cur1 bad1 where t: "scan_tagged (b, k) (cur, bad) = (cur1, bad1)"
    by fastforce
  from filter_inv_byte [OF Cons.prems(1) s t] show ?case
    using Cons.IH [of out1 f1 keep1 cur1 bad1] Cons.prems(2,3) s t by simp
qed simp

lemma filter_inv_feed:
  assumes start: "filter_inv k rel f True cur bad" and feed: "filter_feed c k f = (out, f')"
    and scan: "fold scan_tagged (map (\<lambda>b. (b, k)) (drop 1 c)) (cur, bad) = (cur', bad')"
    and bounds: "bad' \<subseteq> {..k}" "snd ` set cur' \<subseteq> {..k}"
  shows "filter_inv (Suc k) (rel \<union> set out) f' True cur' bad'"
proof -
  obtain f1 out1 keep1 where s: "fold filter_byte (drop 1 c) (f, [], True) = (f1, out1, keep1)"
    by (metis surj_pair)
  have inv: "filter_inv k (rel \<union> set out1) f1 keep1 cur' bad'"
    using filter_inv_bytes [OF _ s scan, of rel] start by simp
  define f2 where "f2 = (if length (held f1) \<ge> MAX_HELD_CHUNKS then f1\<lparr>held := [], tainted := True\<rparr> else f1)"
  have "MAX_HELD_CHUNKS \<le> length (held f1) \<Longrightarrow> held f1 \<noteq> []"
    by (auto simp: MAX_HELD_CHUNKS_def)
  then have inv2: "filter_inv k (rel \<union> set out1) f2 keep1 cur' bad'"
    using inv by (auto simp: filter_inv_def f2_def)
  have out: "(out, f') = (if keep1 \<and> \<not> tainted f2
         then (if frame f2 = [] then (out1 @ [k], f2) else (out1, f2\<lparr>held := held f2 @ [k]\<rparr>))
         else (out1, f2))"
    using feed s by (simp only: filter_feed_def Let_def split_conv f2_def)
  have fresh: "Suc k \<notin> bad'" using bounds by auto
  have lt: "\<forall>i \<in> rel \<union> set out1 \<union> set (held f2). i < Suc k"
    using inv2 by (auto simp: filter_inv_def less_Suc_eq)
  consider (drop) "\<not> keep1 \<or> tainted f2" | (pass) "keep1" "\<not> tainted f2" "frame f2 = []"
    | (hold) "keep1" "\<not> tainted f2" "frame f2 \<noteq> []" by blast
  then show ?thesis
  proof cases
    case drop
    then have "out = out1" "f' = f2" using out by auto
    then show ?thesis using inv2 fresh lt by (simp add: filter_inv_def)
  next
    case pass
    then have "out = out1 @ [k]" "f' = f2" "cur' = []" using out inv2 by (auto simp: filter_inv_def)
    then show ?thesis using inv2 pass fresh lt by (simp add: filter_inv_def)
  next
    case hold
    then have "out = out1" "f' = f2\<lparr>held := held f2 @ [k]\<rparr>" "cur' \<noteq> []"
      using out inv2 by (auto simp: filter_inv_def)
    then show ?thesis using inv2 hold fresh lt by (simp add: filter_inv_def)
  qed
qed

subsection \<open>The whole stream\<close>

text \<open>The run with the chunks numbered from \<open>k\<close>.\<close>

lemma enumerate_Suc [filter_simps]: "enumerate k (c # cs) = (k, c) # enumerate (Suc k) cs"
  by simp

definition tagged_from :: "nat \<Rightarrow> bytes list \<Rightarrow> (u8 \<times> nat) list" where
  "tagged_from k cs = concat (map (\<lambda>(i, c). map (\<lambda>b. (b, i)) (drop 1 c)) (enumerate k cs))"

lemma scan_tagged_bound:
  assumes "fold scan_tagged bts (cur, bad) = (cur', bad')" "bad \<union> snd ` set cur \<subseteq> S" "snd ` set bts \<subseteq> S"
  shows "bad' \<union> snd ` set cur' \<subseteq> S"
  using assms
proof (induction bts arbitrary: cur bad)
  case (Cons bt bts)
  obtain cur1 bad1 where t: "scan_tagged bt (cur, bad) = (cur1, bad1)" by fastforce
  then have "bad1 \<union> snd ` set cur1 \<subseteq> S"
    using Cons.prems(2,3) by (cases bt) (force simp: scan_tagged_def split: if_splits)
  then show ?case
    using Cons.IH [of cur1 bad1] Cons.prems t by auto
qed simp

lemma filter_inv_run:
  assumes "filter_inv k rel f True cur bad" "bad \<union> snd ` set cur \<subseteq> {..<k}"
    "filter_run (map (\<lambda>(i, c). (c, i)) (enumerate k cs)) f = (outs, f')"
    "fold scan_tagged (tagged_from k cs) (cur, bad) = (cur', bad')"
  shows "filter_inv (k + length cs) (rel \<union> set outs) f' True cur' bad'"
  using assms
proof (induction cs arbitrary: k rel f cur bad outs)
  case Nil
  then show ?case by (simp add: tagged_from_def)
next
  case (Cons c cs)
  obtain out1 f1 where feed: "filter_feed c k f = (out1, f1)" by fastforce
  obtain outs2 where rest: "filter_run (map (\<lambda>(i, c). (c, i)) (enumerate (Suc k) cs)) f1 = (outs2, f')"
      and outs: "outs = out1 @ outs2"
    using Cons.prems(3) feed by (auto split: prod.splits)
  let ?bts = "map (\<lambda>b. (b, k)) (drop 1 c)"
  obtain cur1 bad1 where t: "fold scan_tagged ?bts (cur, bad) = (cur1, bad1)" by fastforce
  have bound: "bad1 \<union> snd ` set cur1 \<subseteq> {..<Suc k}"
    by (rule scan_tagged_bound [OF t]) (use Cons.prems(2) in auto)
  have "filter_inv (Suc k) (rel \<union> set out1) f1 True cur1 bad1"
    using filter_inv_feed [OF Cons.prems(1) feed t] bound by (simp add: lessThan_Suc_atMost)
  moreover have "fold scan_tagged (tagged_from (Suc k) cs) (cur1, bad1) = (cur', bad')"
    using Cons.prems(4) t by (simp add: tagged_from_def)
  ultimately have "filter_inv (Suc k + length cs) (rel \<union> set out1 \<union> set outs2) f' True cur' bad'"
    by (rule Cons.IH [OF _ bound rest])
  then show ?case by (simp add: outs Un_assoc)
qed

lemma released_inv:
  assumes "fold scan_tagged (tagged_stream chunks) ([], {}) = (cur, bad)"
  shows "set (released chunks) \<inter> (bad \<union> snd ` set cur) = {}"
proof -
  obtain outs f where run: "filter_run (map (\<lambda>(i, c). (c, i)) (enumerate 0 chunks)) filter_new = (outs, f)"
    by fastforce
  have "filter_inv (0 + length chunks) ({} \<union> set outs) f True cur bad"
    by (rule filter_inv_run [OF _ _ run]) (use assms in \<open>simp_all add: filter_inv_def filter_new_def
        tagged_stream_def tagged_from_def\<close>)
  then show ?thesis by (simp add: filter_inv_def released_def run)
qed

text \<open>The scan finds every segment that the stream has between delimiters.\<close>

lemma scan_tagged_mono: "bad \<subseteq> snd (fold scan_tagged bts (cur, bad))"
proof (induction bts arbitrary: cur bad)
  case (Cons bt bts)
  obtain cur1 bad1 where t: "scan_tagged bt (cur, bad) = (cur1, bad1)" by fastforce
  then have "bad \<subseteq> bad1" by (auto simp: scan_tagged_def split: if_splits)
  then show ?case using Cons.IH [of bad1 cur1] t by auto
qed simp

lemma scan_tagged_segment:
  "0 \<notin> fst ` set seg \<Longrightarrow> fold scan_tagged seg (cur, bad) = (cur @ seg, bad)"
proof (induction seg arbitrary: cur)
  case (Cons bt seg)
  then show ?case by (auto simp: scan_tagged_def)
qed simp

lemma scan_tagged_delimited:
  "pre = [] \<or> fst (last pre) = 0 \<Longrightarrow> \<exists>bad. fold scan_tagged pre ([], {}) = ([], bad)"
proof (cases pre rule: rev_cases)
  case (snoc ys bt)
  assume "pre = [] \<or> fst (last pre) = 0"
  then show ?thesis using snoc by (cases "fold scan_tagged ys ([], {})") (simp add: scan_tagged_def)
qed simp

lemma forbidden_segment_withheld:
  assumes "tagged_stream chunks = pre @ seg @ (0, k) # post"
    and "pre = [] \<or> fst (last pre) = 0" and "0 \<notin> fst ` set seg" and "forbidden (map fst seg)"
  shows "set (released chunks) \<inter> set (map snd (seg @ [(0, k)])) = {}"
proof -
  obtain bad where pre: "fold scan_tagged pre ([], {}) = ([], bad)"
    using scan_tagged_delimited [OF assms(2)] by blast
  have "fold scan_tagged (tagged_stream chunks) ([], {}) =
      fold scan_tagged post ([], bad \<union> set (map snd (seg @ [(0, k)])))"
    using assms(3,4) by (simp add: assms(1) pre scan_tagged_segment) (simp add: scan_tagged_def)
  then have "set (map snd (seg @ [(0, k)])) \<subseteq> snd (fold scan_tagged (tagged_stream chunks) ([], {}))"
    using scan_tagged_mono [of "bad \<union> set (map snd (seg @ [(0, k)]))" post "[]"] by auto
  then show ?thesis
    using released_inv [of chunks] by (cases "fold scan_tagged (tagged_stream chunks) ([], {})") auto
qed

lemma open_segment_withheld:
  assumes "tagged_stream chunks = pre @ seg" "pre = [] \<or> fst (last pre) = 0" "0 \<notin> fst ` set seg"
  shows "set (released chunks) \<inter> snd ` set seg = {}"
proof -
  obtain bad where "fold scan_tagged pre ([], {}) = ([], bad)"
    using scan_tagged_delimited [OF assms(2)] by blast
  then have "fold scan_tagged (tagged_stream chunks) ([], {}) = (seg, bad)"
    using assms(1,3) by (simp add: scan_tagged_segment)
  then show ?thesis using released_inv by blast
qed

subsection \<open>Order and bounds\<close>

definition filter_bounded :: "'a identity_filter \<Rightarrow> bool" where
  "filter_bounded f \<longleftrightarrow> length (frame f) \<le> MAX_FRAME_BYTES \<and> length (held f) \<le> MAX_HELD_CHUNKS \<and>
     (held f \<noteq> [] \<or> tainted f \<longrightarrow> frame f \<noteq> [])"

lemma filter_bytes_bounded:
  "fold filter_byte bs (f, out, keep) = (f', out', keep') \<Longrightarrow> filter_bounded f \<Longrightarrow> filter_bounded f'"
proof (induction bs arbitrary: f out keep)
  case (Cons b bs)
  obtain f1 out1 keep1 where s: "filter_byte b (f, out, keep) = (f1, out1, keep1)"
    by (metis surj_pair)
  have "filter_bounded f1"
    using s Cons.prems(2)
    by (auto simp: filter_byte_def filter_bounded_def MAX_FRAME_BYTES_def split: if_splits)
  then show ?case using Cons s by simp
qed simp

lemma filter_feed_bounded:
  assumes "filter_feed c v f = (out, f')" "filter_bounded f"
  shows "filter_bounded f'"
proof -
  obtain f1 out1 keep1 where s: "fold filter_byte (drop 1 c) (f, [], True) = (f1, out1, keep1)"
    by (metis surj_pair)
  have "filter_bounded f1" using filter_bytes_bounded [OF s assms(2)] .
  moreover have "MAX_HELD_CHUNKS \<le> length (held f1) \<Longrightarrow> held f1 \<noteq> []"
    by (auto simp: MAX_HELD_CHUNKS_def)
  ultimately show ?thesis
    using assms(1) s by (auto simp: filter_feed_def filter_bounded_def Let_def split: if_splits)
qed

lemma filter_run_bounded: "filter_bounded f \<Longrightarrow> filter_bounded (snd (filter_run cvs f))"
proof (induction cvs arbitrary: f)
  case (Cons cv cvs)
  obtain c v out f1 where "cv = (c, v)" "filter_feed c v f = (out, f1)" by fastforce
  then show ?case
    using Cons.IH [of f1] Cons.prems filter_feed_bounded [of c v f out f1] by (simp add: split_beta)
qed simp

lemma subseq_front: "subseq (xs @ ys) vs \<Longrightarrow> subseq xs vs"
  by (rule subseq_order.trans [OF prefix_imp_subseq [OF prefixI [OF refl]]])

lemma subseq_later: "subseq xs vs \<Longrightarrow> subseq xs (vs @ ws)"
  by (rule subseq_order.trans [OF _ prefix_imp_subseq [OF prefixI [OF refl]]])

lemma subseq_snoc: "subseq xs vs \<Longrightarrow> subseq (xs @ [v]) (vs @ [v])"
  by (intro list_emb_append_mono) simp_all

lemma filter_byte_subseq:
  assumes "filter_byte b (f, out, keep) = (f', out', keep')" "subseq (out @ held f) vs"
  shows "subseq (out' @ held f') vs"
  using assms subseq_front [OF assms(2)] by (auto simp: filter_byte_def split: if_splits)

lemma filter_bytes_subseq:
  "fold filter_byte bs (f, out, keep) = (f', out', keep') \<Longrightarrow>
   subseq (rel @ out @ held f) vs \<Longrightarrow> subseq (rel @ out' @ held f') vs"
proof (induction bs arbitrary: f out keep)
  case (Cons b bs)
  obtain f1 out1 keep1 where s: "filter_byte b (f, out, keep) = (f1, out1, keep1)"
    by (metis surj_pair)
  have "filter_byte b (f, rel @ out, keep) = (f1, rel @ out1, keep1)"
    using s by (auto simp: filter_byte_def split: if_splits)
  then have "subseq (rel @ out1 @ held f1) vs"
    using filter_byte_subseq Cons.prems(2) by (metis append.assoc)
  then show ?case using Cons s by simp
qed simp

lemma filter_feed_subseq:
  assumes "filter_feed c v f = (out, f')" "subseq (rel @ held f) vs" "filter_bounded f"
  shows "subseq (rel @ out @ held f') (vs @ [v])"
proof -
  obtain f1 out1 keep1 where s: "fold filter_byte (drop 1 c) (f, [], True) = (f1, out1, keep1)"
    by (metis surj_pair)
  have "subseq (rel @ out1 @ held f1) vs"
    using filter_bytes_subseq [OF s, of rel vs] assms(2) by simp
  then have sub: "subseq (rel @ out1) vs" "subseq (rel @ out1 @ held f1) vs"
    using subseq_front [of "rel @ out1" "held f1"] by simp_all
  have ext: "subseq xs vs \<Longrightarrow> subseq xs (vs @ [v]) \<and> subseq (xs @ [v]) (vs @ [v])" for xs
    by (simp add: subseq_later subseq_snoc)
  have "frame f1 = [] \<Longrightarrow> held f1 = []"
    using filter_bytes_bounded [OF s assms(3)] by (auto simp: filter_bounded_def)
  then show ?thesis
    using assms(1) s ext [OF sub(1)] ext [OF sub(2)]
    by (auto simp: filter_feed_def Let_def split: if_splits)
qed

lemma filter_run_subseq:
  "filter_bounded f \<Longrightarrow> subseq (rel @ held f) vs \<Longrightarrow> subseq (rel @ fst (filter_run cvs f)) (vs @ map snd cvs)"
proof (induction cvs arbitrary: rel f vs)
  case Nil
  then show ?case by (simp add: subseq_front)
next
  case (Cons cv cvs)
  obtain c v out f1 where cv: "cv = (c, v)" "filter_feed c v f = (out, f1)" by fastforce
  then show ?case
    using Cons.IH [of f1 "rel @ out" "vs @ [v]"] filter_feed_subseq [of c v f out f1 rel vs]
      filter_feed_bounded [of c v f out f1] Cons.prems
    by (simp add: split_beta)
qed

subsection \<open>Nothing else is withheld\<close>

text \<open>For chunks that carry at least one stream byte, and at most as many as can be held.\<close>

definition filter_exact ::
  "nat \<Rightarrow> nat set \<Rightarrow> nat identity_filter \<Rightarrow> bool \<Rightarrow> (u8 \<times> nat) list \<Rightarrow> nat set \<Rightarrow> bool" where
  "filter_exact k rel f keep cur bad \<longleftrightarrow>
     filter_inv k rel f keep cur bad \<and>
     (tainted f \<longleftrightarrow> MAX_FRAME_BYTES < length cur) \<and>
     (keep \<longleftrightarrow> k \<notin> bad) \<and>
     set (held f) \<subseteq> snd ` set cur \<and> length (held f) \<le> k \<and>
     (\<forall>i < k. i \<in> rel \<union> bad \<union> (if tainted f then snd ` set cur else set (held f)))"

lemma filter_exact_byte:
  assumes inv: "filter_exact k (rel \<union> set out) f keep cur bad"
    and step: "filter_byte b (f, out, keep) = (f', out', keep')"
    and scan: "scan_tagged (b, k) (cur, bad) = (cur', bad')"
  shows "filter_exact k (rel \<union> set out') f' keep' cur' bad'"
proof -
  have base: "filter_inv k (rel \<union> set out) f keep cur bad" using inv unfolding filter_exact_def by blast
  have inv': "filter_inv k (rel \<union> set out') f' keep' cur' bad'"
    by (rule filter_inv_byte [OF base step scan])
  have cover: "\<forall>i < k. i \<in> rel \<union> set out \<union> bad \<union> snd ` set cur"
    using inv by (auto simp: filter_exact_def split: if_splits)
  show ?thesis
  proof (cases "b = 0")
    case False
    then have cur': "cur' = cur @ [(b, k)]" "bad' = bad" using scan by (auto simp: scan_tagged_def)
    show ?thesis
    proof (cases "length (frame f) < MAX_FRAME_BYTES")
      case True
      then have len: "length cur < MAX_FRAME_BYTES"
        using base by (simp add: filter_inv_def min_def split: if_splits)
      have "f' = f\<lparr>frame := frame f @ [b]\<rparr>" "out' = out" "keep' = keep"
        using step False True by (simp_all add: filter_byte_push)
      then show ?thesis using inv inv' cur' len by (auto simp: filter_exact_def)
    next
      case long: False
      then have len: "MAX_FRAME_BYTES \<le> length cur" using base by (simp add: filter_inv_def)
      have "f' = f\<lparr>tainted := True\<rparr>" "out' = out" "keep' = keep"
        using step False long by (simp_all add: filter_byte_long)
      moreover have "\<forall>i < k. i \<in> rel \<union> set out \<union> bad \<union> snd ` set cur'" "set (held f) \<subseteq> snd ` set cur'"
        using inv by (auto simp: filter_exact_def cur' split: if_splits)
      ultimately show ?thesis using inv inv' cur' len by (simp add: filter_exact_def)
    qed
  next
    case b: True
    then have cur': "cur' = []"
        "bad' = (if forbidden (map fst cur) then bad \<union> set (map snd (cur @ [(0, k)])) else bad)"
      using scan by (auto simp: scan_tagged_def)
    show ?thesis
    proof (cases "cur = []")
      case True
      then have "frame f = []" "\<not> tainted f" "bad' = bad"
        using base cur' by (auto simp: filter_inv_def forbidden_def)
      then show ?thesis
        using inv inv' step True cur' b by (simp add: filter_byte_gap)
    next
      case False
      then have ne: "frame f \<noteq> []" using base by (simp add: filter_inv_def)
      have full: "\<not> MAX_FRAME_BYTES < length cur \<Longrightarrow> frame f = map fst cur"
        using base by (simp add: filter_inv_def)
      then have iff: "tainted f \<or> frame_excluded (frame f) \<longleftrightarrow> forbidden (map fst cur)"
        using inv False by (auto simp: filter_exact_def forbidden_def)
      show ?thesis
      proof (cases "forbidden (map fst cur)")
        case True
        then have "f' = \<lparr>frame = [], tainted = False, held = []\<rparr>" "out' = out" "\<not> keep'"
          using step ne iff b by (auto simp: filter_byte_drop)
        then show ?thesis
          using inv' cur' True cover by (auto simp: filter_exact_def)
      next
        case safe: False
        then have "f' = \<lparr>frame = [], tainted = False, held = []\<rparr>" "out' = out @ held f" "keep' = keep"
          using step ne iff b by (auto simp: filter_byte_release)
        moreover have "\<not> tainted f" using iff safe by simp
        ultimately show ?thesis
          using inv inv' cur' safe by (auto simp: filter_exact_def)
      qed
    qed
  qed
qed

lemma filter_exact_bytes:
  assumes "filter_exact k (rel \<union> set out) f keep cur bad"
    "fold filter_byte bs (f, out, keep) = (f', out', keep')"
    "fold scan_tagged (map (\<lambda>b. (b, k)) bs) (cur, bad) = (cur', bad')"
  shows "filter_exact k (rel \<union> set out') f' keep' cur' bad'"
  using assms
proof (induction bs arbitrary: out f keep cur bad)
  case (Cons b bs)
  obtain f1 out1 keep1 where s: "filter_byte b (f, out, keep) = (f1, out1, keep1)"
    by (metis surj_pair)
  obtain cur1 bad1 where t: "scan_tagged (b, k) (cur, bad) = (cur1, bad1)"
    by fastforce
  from filter_exact_byte [OF Cons.prems(1) s t] show ?case
    using Cons.IH [of out1 f1 keep1 cur1 bad1] Cons.prems(2,3) s t by simp
qed simp

lemma scan_tagged_ends_here:
  assumes "fold scan_tagged (map (\<lambda>b. (b, k)) bs) (cur, bad) = (cur', bad')" "bs \<noteq> []" "cur' \<noteq> []"
  shows "k \<in> snd ` set cur'"
proof -
  obtain bs0 b where "bs = bs0 @ [b]" using assms(2) by (cases bs rule: rev_cases) auto
  then show ?thesis
    using assms(1,3) by (cases "fold scan_tagged (map (\<lambda>b. (b, k)) bs0) (cur, bad)")
      (auto simp: scan_tagged_def split: if_splits)
qed

lemma filter_exact_feed:
  assumes start: "filter_exact k rel f True cur bad" and feed: "filter_feed c k f = (out, f')"
    and scan: "fold scan_tagged (map (\<lambda>b. (b, k)) (drop 1 c)) (cur, bad) = (cur', bad')"
    and bounds: "bad' \<subseteq> {..k}" "snd ` set cur' \<subseteq> {..k}"
    and body: "drop 1 c \<noteq> []" and few: "k < MAX_HELD_CHUNKS"
  shows "filter_exact (Suc k) (rel \<union> set out) f' True cur' bad'"
proof -
  have inv': "filter_inv (Suc k) (rel \<union> set out) f' True cur' bad'"
    by (rule filter_inv_feed [OF _ feed scan bounds]) (use start in \<open>simp add: filter_exact_def\<close>)
  obtain f1 out1 keep1 where s: "fold filter_byte (drop 1 c) (f, [], True) = (f1, out1, keep1)"
    by (metis surj_pair)
  have ex: "filter_exact k (rel \<union> set out1) f1 keep1 cur' bad'"
    using filter_exact_bytes [OF _ s scan, of rel] start by simp
  then have inv1: "filter_inv k (rel \<union> set out1) f1 keep1 cur' bad'"
    unfolding filter_exact_def by blast
  have "\<not> MAX_HELD_CHUNKS \<le> length (held f1)"
    using ex few by (simp add: filter_exact_def)
  then have out: "(out, f') = (if keep1 \<and> \<not> tainted f1
         then (if frame f1 = [] then (out1 @ [k], f1) else (out1, f1\<lparr>held := held f1 @ [k]\<rparr>))
         else (out1, f1))"
    using feed s by (simp only: filter_feed_def Let_def split_conv if_False)
  have fresh: "Suc k \<notin> bad'" using bounds by auto
  have here: "cur' \<noteq> [] \<Longrightarrow> k \<in> snd ` set cur'"
    by (rule scan_tagged_ends_here [OF scan body])
  have cover: "\<forall>i < k. i \<in> rel \<union> set out1 \<union> bad' \<union> (if tainted f1 then snd ` set cur' else set (held f1))"
    using ex unfolding filter_exact_def by blast
  consider (bad) "\<not> keep1" "k \<in> bad'" | (taint) "tainted f1" "cur' \<noteq> []"
    | (pass) "keep1" "\<not> tainted f1" "frame f1 = []" "cur' = []"
    | (hold) "keep1" "\<not> tainted f1" "frame f1 \<noteq> []" "cur' \<noteq> []"
    using ex inv1 by (auto simp: filter_exact_def filter_inv_def)
  then show ?thesis
  proof cases
    case bad
    then have eq: "out = out1" "f' = f1" using out by auto
    have "\<forall>i < Suc k. i \<in> rel \<union> set out1 \<union> bad' \<union> (if tainted f1 then snd ` set cur' else set (held f1))"
      using cover bad by (auto simp: less_Suc_eq)
    then show ?thesis
      using ex inv' fresh by (simp add: filter_exact_def eq)
  next
    case taint
    then have eq: "out = out1" "f' = f1" using out by auto
    have "\<forall>i < Suc k. i \<in> rel \<union> set out1 \<union> bad' \<union> snd ` set cur'"
      using cover taint here by (auto simp: less_Suc_eq)
    then show ?thesis
      using ex inv' fresh taint by (simp add: filter_exact_def eq)
  next
    case pass
    then have eq: "out = out1 @ [k]" "f' = f1" using out by auto
    have "\<forall>i < Suc k. i \<in> rel \<union> set (out1 @ [k]) \<union> bad' \<union> set (held f1)"
      using cover pass by (auto simp: less_Suc_eq)
    then show ?thesis
      using ex inv' fresh pass by (simp add: filter_exact_def eq)
  next
    case hold
    then have eq: "out = out1" "f' = f1\<lparr>held := held f1 @ [k]\<rparr>" using out by auto
    have "\<forall>i < Suc k. i \<in> rel \<union> set out1 \<union> bad' \<union> set (held f1 @ [k])"
      using cover hold by (auto simp: less_Suc_eq)
    then show ?thesis
      using ex inv' fresh hold here by (simp add: filter_exact_def eq)
  qed
qed

lemma filter_exact_run:
  assumes "filter_exact k rel f True cur bad" "bad \<union> snd ` set cur \<subseteq> {..<k}"
    "filter_run (map (\<lambda>(i, c). (c, i)) (enumerate k cs)) f = (outs, f')"
    "fold scan_tagged (tagged_from k cs) (cur, bad) = (cur', bad')"
    "\<forall>c \<in> set cs. drop 1 c \<noteq> []" "k + length cs \<le> MAX_HELD_CHUNKS"
  shows "filter_exact (k + length cs) (rel \<union> set outs) f' True cur' bad'"
  using assms
proof (induction cs arbitrary: k rel f cur bad outs)
  case Nil
  then show ?case by (simp add: tagged_from_def)
next
  case (Cons c cs)
  obtain out1 f1 where feed: "filter_feed c k f = (out1, f1)" by fastforce
  obtain outs2 where rest: "filter_run (map (\<lambda>(i, c). (c, i)) (enumerate (Suc k) cs)) f1 = (outs2, f')"
      and outs: "outs = out1 @ outs2"
    using Cons.prems(3) feed by (auto split: prod.splits)
  let ?bts = "map (\<lambda>b. (b, k)) (drop 1 c)"
  obtain cur1 bad1 where t: "fold scan_tagged ?bts (cur, bad) = (cur1, bad1)" by fastforce
  have bound: "bad1 \<union> snd ` set cur1 \<subseteq> {..<Suc k}"
    by (rule scan_tagged_bound [OF t]) (use Cons.prems(2) in auto)
  have "filter_exact (Suc k) (rel \<union> set out1) f1 True cur1 bad1"
    using filter_exact_feed [OF Cons.prems(1) feed t] bound Cons.prems(5,6) by (simp add: lessThan_Suc_atMost)
  moreover have "fold scan_tagged (tagged_from (Suc k) cs) (cur1, bad1) = (cur', bad')"
    using Cons.prems(4) t by (simp add: tagged_from_def)
  ultimately have "filter_exact (Suc k + length cs) (rel \<union> set out1 \<union> set outs2) f' True cur' bad'"
    using Cons.prems(5,6) by (intro Cons.IH [OF _ bound rest]) simp_all
  then show ?case by (simp add: outs Un_assoc)
qed

lemma released_ascending: "subseq (released chunks) [0..<length chunks]"
proof -
  have "filter_bounded (filter_new :: nat identity_filter)"
    by (simp add: filter_bounded_def filter_new_def)
  then show ?thesis
    using filter_run_subseq [of filter_new "[]" "[]" "map (\<lambda>(i, c). (c, i)) (enumerate 0 chunks)"]
    by (simp add: released_def filter_new_def comp_def split_beta)
qed

definition withheld_chunks :: "bytes list \<Rightarrow> nat set" where
  "withheld_chunks chunks = snd (fold scan_tagged (tagged_stream chunks) ([], {}))"

definition open_segment :: "bytes list \<Rightarrow> bytes" where
  "open_segment chunks = map fst (fst (fold scan_tagged (tagged_stream chunks) ([], {})))"

lemma released_exactly:
  assumes "\<forall>c \<in> set chunks. 2 \<le> length c" "length chunks \<le> MAX_HELD_CHUNKS" "open_segment chunks = []"
  shows "released chunks = filter (\<lambda>i. i \<notin> withheld_chunks chunks) [0..<length chunks]"
proof -
  obtain outs f where run: "filter_run (map (\<lambda>(i, c). (c, i)) (enumerate 0 chunks)) filter_new = (outs, f)"
    by fastforce
  obtain cur bad where scan: "fold scan_tagged (tagged_stream chunks) ([], {}) = (cur, bad)"
    by fastforce
  have cur: "cur = []" and bad: "withheld_chunks chunks = bad"
    using assms(3) by (simp_all add: open_segment_def withheld_chunks_def scan)
  have "filter_exact (0 + length chunks) ({} \<union> set outs) f True cur bad"
    by (rule filter_exact_run [OF _ _ run])
       (use assms scan in \<open>auto simp: filter_exact_def filter_inv_def filter_new_def tagged_stream_def
          tagged_from_def Suc_le_eq numeral_2_eq_2\<close>)
  then have "\<forall>i < length chunks. i \<in> set outs \<union> bad" "set outs \<inter> bad = {}" "\<forall>i \<in> set outs. i < length chunks"
    using cur by (auto simp: filter_exact_def filter_inv_def split: if_splits)
  moreover have outs: "released chunks = outs" by (simp add: released_def run)
  ultimately have "set (filter (\<lambda>i. i \<notin> bad) [0..<length chunks]) = set (released chunks)"
    by auto
  moreover obtain J where "released chunks = nths [0..<length chunks] J"
    using released_ascending [of chunks] by (auto simp: subseq_conv_nths)
  then have "sorted (released chunks)" "distinct (released chunks)"
    by (simp_all add: sorted_nths distinct_nthsI)
  ultimately show ?thesis
    unfolding bad by (intro sorted_distinct_set_unique) (auto simp: sorted_wrt_filter)
qed

subsection \<open>Identity-bearing frames are excluded\<close>

lemma cut_result_excluded:
  "type_carries_identity mt \<Longrightarrow> mt \<noteq> MSG_ACK \<Longrightarrow>
   case cut_result mt p k of Inl _ \<Rightarrow> True | Inr f \<Rightarrow> frame_carries_identity f"
  by (simp add: cut_result_def frame_carries_identity_def)

lemma cut_ack_excluded:
  assumes "type_carries_identity t" "k \<le> 2"
  shows "case cut_result MSG_ACK (le16 t @ st # p) k of Inl _ \<Rightarrow> True | Inr f \<Rightarrow> frame_carries_identity f"
proof -
  let ?q = "take (length (le16 t @ st # p) - k) (le16 t @ st # p)"
  show ?thesis
  proof (cases "2 \<le> length ?q")
    case True
    then have "?q ! 0 = le16 t ! 0" "?q ! 1 = le16 t ! 1" by (auto simp: le16_def)
    then have "of_le16 (?q ! 0) (?q ! 1) = t" by simp
    then show ?thesis
      using assms(1) True by (auto simp: cut_result_def frame_carries_identity_def acked_type_def)
  next
    case False
    then show ?thesis by (auto simp: cut_result_def frame_carries_identity_def acked_type_def)
  qed
qed

lemma identity_types: "type_carries_identity mt \<Longrightarrow> \<not> bit mt 15 \<and> mt \<noteq> MSG_ACK"
proof -
  assume "type_carries_identity mt"
  then have "mt \<le> 5112 \<and> mt \<noteq> MSG_ACK"
    by (auto simp: type_carries_identity_def msg_defs)
  then show ?thesis using less_8000_bit [of mt] by (auto simp: le_less_trans)
qed

lemma ack_bit: "\<not> bit MSG_ACK 15"
  by (simp add: MSG_ACK_def bit_numeral_rec)

subsection \<open>Properties\<close>

text \<open>Every frame of an identity-bearing type, and every acknowledgment of one, is excluded in its
  encoded form, from a device with the standard encoder at any length and from the host up to 245
  payload bytes; also when its last bytes are lost to a CRC that ends in zero.\<close>

theorem identity_frames_excluded:
  assumes "type_carries_identity t"
  shows "frame_excluded (std_encode (build_frame t p)) \<and> frame_excluded (std_encode (build_ack t st p)) \<and>
    (if length p \<le> 245
     then frame_excluded (cobs_encode (build_frame t p)) \<and> frame_excluded (cobs_encode (build_ack t st p))
     else True)"
proof -
  have t: "\<not> bit t 15" "t \<noteq> MSG_ACK" using identity_types [OF assms] by simp_all
  have "frame_excluded (std_encode (build_frame t p))"
    using cut_result_excluded [OF assms t(2)] by (simp add: frame_excluded_def std_link [OF t(1)])
  moreover have "frame_excluded (std_encode (build_ack t st p))"
    using cut_ack_excluded [OF assms] by (simp add: frame_excluded_def build_ack_def std_link [OF ack_bit])
  moreover have "length p \<le> 245 \<Longrightarrow> frame_excluded (cobs_encode (build_frame t p))"
    using cut_result_excluded [OF assms t(2)] by (simp add: frame_excluded_def host_link [OF t(1)])
  moreover have "length p \<le> 245 \<Longrightarrow> frame_excluded (cobs_encode (build_ack t st p))"
    using cut_ack_excluded [OF assms, of "crc_zeros _"]
    by (simp add: frame_excluded_def build_ack_def host_link [OF ack_bit] crc_zeros_def)
  ultimately show ?thesis by simp
qed

theorem identity_frames_excluded_witness:
  "frame_excluded (std_encode (build_frame MSG_DEVICE_INFO [1, 2])) \<and>
   frame_excluded (cobs_encode (build_ack MSG_DEVICE_INFO 0 [1, 2]))"
  using identity_frames_excluded [of MSG_DEVICE_INFO "[1, 2]" 0] by (simp add: type_carries_identity_def)

text \<open>C1: the filter never releases a chunk that carries a byte, or the closing delimiter, of a segment
  between delimiters that carries identity, cannot be parsed or is longer than the bound; nor a chunk
  with a byte of a segment that is still open. This holds for every way of cutting the stream into
  chunks.\<close>

theorem forbidden_bytes_never_released:
  assumes "tagged_stream chunks = pre @ seg @ closing" and "pre = [] \<or> fst (last pre) = 0"
    and "0 \<notin> fst ` set seg"
    and "closing = [] \<or> fst (hd closing) = 0 \<and> forbidden (map fst seg)"
  shows "set (released chunks) \<inter> set (map snd (seg @ take 1 closing)) = {}"
proof (cases closing)
  case Nil
  then show ?thesis using open_segment_withheld [of chunks pre seg] assms by simp
next
  case (Cons bt post)
  obtain k where "bt = (0, k)" using assms(4) Cons by (cases bt) simp
  then show ?thesis
    using forbidden_segment_withheld [of chunks pre seg k post] assms Cons by simp
qed

theorem forbidden_bytes_never_released_witness:
  "set (released [[5, 0, 2, 0x41], [5, 0], [5, 0]]) \<inter> {0, 1} = {} \<and>
   released [[5, 0, 2, 0x41], [5, 0], [5, 0]] = [2]"
proof
  have "forbidden [2, 0x41]" by code_simp
  then show "set (released [[5, 0, 2, 0x41], [5, 0], [5, 0]]) \<inter> {0, 1} = {}"
    using forbidden_bytes_never_released
      [of "[[5, 0, 2, 0x41], [5, 0], [5, 0]]" "[(0, 0)]" "[(2, 0), (0x41, 0)]" "[(0, 1), (0, 2)]"]
    by (simp add: tagged_stream_def)
  show "released [[5, 0, 2, 0x41], [5, 0], [5, 0]] = [2]" by code_simp
qed

text \<open>It withholds nothing else: for up to 256 chunks with a stream byte each, and no segment left
  open, the chunks released are, in order, all the chunks that touch no forbidden segment.\<close>

theorem released_exactly_the_safe_chunks:
  assumes "list_all (\<lambda>c. 2 \<le> length c) chunks" and "length chunks \<le> MAX_HELD_CHUNKS"
    and "open_segment chunks = []"
  shows "released chunks = filter (\<lambda>i. i \<notin> withheld_chunks chunks) [0..<length chunks]"
  using assms by (intro released_exactly) (simp_all add: list_all_iff)

theorem released_exactly_the_safe_chunks_witness:
  "released [[5, 0, 2, 0x41], [5, 0], [5, 0]] = [2]"
proof -
  have "open_segment [[5, 0, 2, 0x41], [5, 0], [5, 0]] = []" by code_simp
  moreover have "withheld_chunks [[5, 0, 2, 0x41], [5, 0], [5, 0]] = {0, 1}" by code_simp
  moreover have "length [[5, 0, 2, 0x41], [5, 0], [5, 0 :: u8]] \<le> MAX_HELD_CHUNKS" by code_simp
  ultimately show ?thesis
    using released_exactly_the_safe_chunks [of "[[5, 0, 2, 0x41], [5, 0], [5, 0]]"] by (simp add: upt_rec)
qed

text \<open>C34: whatever it is fed, the filter holds at most 8192 frame bytes and 256 values, holds values only
  while a frame is open, and hands values back in the order they were fed, each at most once.\<close>

theorem filter_bounded_and_ordered:
  "length (frame (snd (filter_run cvs filter_new))) \<le> 8192 \<and>
   length (held (snd (filter_run cvs filter_new))) \<le> 256 \<and>
   (if frame (snd (filter_run cvs filter_new)) = [] then held (snd (filter_run cvs filter_new)) = [] else True) \<and>
   subseq (fst (filter_run cvs filter_new)) (map snd cvs)"
proof -
  have new: "filter_bounded (filter_new :: 'a identity_filter)"
    by (simp add: filter_bounded_def filter_new_def)
  show ?thesis
    using filter_run_bounded [OF new, of cvs] filter_run_subseq [OF new, of "[]" "[]" cvs]
    by (auto simp: filter_bounded_def filter_new_def MAX_FRAME_BYTES_def MAX_HELD_CHUNKS_def)
qed

end
