(* ===== verification/Capture_Traffic.thy ===== *)
theory Capture_Traffic
  imports Capture
begin

text \<open>
  The identity filter on whole traffic: complete frames, cut into chunks as the crate does it. What is recorded
  is given exactly by the positions of the frames; a frame that comes a byte per chunk shows the limit on
  held chunks.
\<close>

subsection \<open>The values do not matter\<close>

definition map_held :: "('a \<Rightarrow> 'b) \<Rightarrow> 'a identity_filter \<Rightarrow> 'b identity_filter" where
  "map_held g f = \<lparr>frame = frame f, tainted = tainted f, held = map g (held f)\<rparr>"

lemma map_held_simps [simp]:
  "frame (map_held g f) = frame f" "tainted (map_held g f) = tainted f" "held (map_held g f) = map g (held f)"
  "(map_held g f)\<lparr>frame := x\<rparr> = map_held g (f\<lparr>frame := x\<rparr>)"
  "(map_held g f)\<lparr>tainted := t\<rparr> = map_held g (f\<lparr>tainted := t\<rparr>)"
  "(map_held g f)\<lparr>held := map g vs\<rparr> = map_held g (f\<lparr>held := vs\<rparr>)"
  "(map_held g f)\<lparr>held := []\<rparr> = map_held g (f\<lparr>held := []\<rparr>)"
  "(map_held g f)\<lparr>held := map g vs @ [g v]\<rparr> = map_held g (f\<lparr>held := vs @ [v]\<rparr>)"
  "map_held g filter_new = filter_new"
  by (simp_all add: map_held_def filter_new_def)

lemma filter_byte_map:
  "filter_byte b s = (f', out', keep') \<Longrightarrow>
   filter_byte b (map_held g (fst s), map g (fst (snd s)), snd (snd s)) = (map_held g f', map g out', keep')"
  by (cases s) (auto simp: filter_byte_def split: if_splits)

lemma filter_bytes_map:
  "fold filter_byte bs s = (f', out', keep') \<Longrightarrow>
   fold filter_byte bs (map_held g (fst s), map g (fst (snd s)), snd (snd s)) = (map_held g f', map g out', keep')"
proof (induction bs arbitrary: s)
  case (Cons b bs)
  obtain f1 out1 keep1 where b: "filter_byte b s = (f1, out1, keep1)" by (cases "filter_byte b s")
  then show ?case
    using Cons.IH [of "filter_byte b s"] Cons.prems filter_byte_map [OF b, of g] by simp
qed (cases s, simp)

lemma filter_feed_map:
  assumes "filter_feed c v f = (out, f')"
  shows "filter_feed c (g v) (map_held g f) = (map g out, map_held g f')"
proof -
  obtain f1 out1 keep1 where "fold filter_byte (drop 1 c) (f, [], True) = (f1, out1, keep1)"
    by (cases "fold filter_byte (drop 1 c) (f, [], True)")
  moreover from filter_bytes_map [OF this, of g]
  have "fold filter_byte (drop 1 c) (map_held g f, [], True) = (map_held g f1, map g out1, keep1)" by simp
  ultimately show ?thesis
    using assms by (auto simp: filter_feed_def Let_def split: if_splits)
qed

lemma filter_run_map:
  assumes "filter_run cvs f = (outs, f')"
  shows "filter_run (map (\<lambda>(c, v). (c, g v)) cvs) (map_held g f) = (map g outs, map_held g f')"
  using assms
proof (induction cvs arbitrary: f outs)
  case (Cons cv cvs)
  obtain c v where cv: "cv = (c, v)" by fastforce
  obtain out1 f1 where feed: "filter_feed c v f = (out1, f1)" by fastforce
  obtain outs2 where rest: "filter_run cvs f1 = (outs2, f')" "outs = out1 @ outs2"
    using Cons.prems by (auto simp: cv feed split: prod.splits)
  show ?case by (simp add: cv filter_feed_map [OF feed] Cons.IH [OF rest(1)] rest(2))
qed simp

text \<open>A capture whose values are the chunks themselves, as the crate's callers record it.\<close>

definition record_chunks :: "bytes identity_filter \<Rightarrow> bytes list \<Rightarrow> bytes list \<times> bytes identity_filter" where
  "record_chunks f chunks = filter_run (map (\<lambda>c. (c, c)) chunks) f"

lemma record_released: "fst (record_chunks filter_new chunks) = map ((!) chunks) (released chunks)"
proof -
  let ?cvs = "map (\<lambda>(i, c). (c, i)) (enumerate 0 chunks)"
  obtain outs f where run: "filter_run ?cvs filter_new = (outs, f)" by fastforce
  have "map (\<lambda>c. (c, c)) chunks = map (\<lambda>(c, i). (c, chunks ! i)) ?cvs"
    by (rule nth_equalityI) (simp_all add: nth_enumerate_eq)
  then show ?thesis
    using filter_run_map [OF run, of "(!) chunks"] by (simp add: record_chunks_def released_def run)
qed

subsection \<open>A stream cut into chunks\<close>

lemma enumerate_shift: "enumerate (m + n) xs = map (\<lambda>(j, b). (j + m, b)) (enumerate n xs)"
  by (rule nth_equalityI) (simp_all add: nth_enumerate_eq)

lemma tagged_chunks:
  assumes "0 < n"
  shows "concat (map (\<lambda>(i, c). map (\<lambda>b. (b, i)) c) (enumerate k (chunks_of n bs))) =
    map (\<lambda>(j, b). (b, k + j div n)) (enumerate 0 bs)"
  using assms
proof (induction n bs arbitrary: k rule: chunks_of.induct)
  case (1 n xs)
  show ?case
  proof (cases "xs = []")
    case False
    have "map (\<lambda>(j, b). (b, k + j div n)) (enumerate 0 (take n xs)) = map (\<lambda>b. (b, k)) (take n xs)"
      by (rule nth_equalityI) (simp_all add: nth_enumerate_eq)
    moreover have "map (\<lambda>(j, b). (b, k + j div n)) (enumerate n (drop n xs)) =
        map (\<lambda>(j, b). (b, Suc k + j div n)) (enumerate 0 (drop n xs))"
      using 1(2) enumerate_shift [of n 0 "drop n xs"] by (simp add: split_beta comp_def div_add_self2)
    moreover have "enumerate 0 xs = enumerate 0 (take n xs) @ enumerate (length (take n xs)) (drop n xs)"
      using enumerate_append_eq [of 0 "take n xs" "drop n xs"] by simp
    moreover have "drop n xs = [] \<or> length (take n xs) = n" by auto
    then have "enumerate (length (take n xs)) (drop n xs) = enumerate n (drop n xs)" by (elim disjE) simp_all
    ultimately have "map (\<lambda>(j, b). (b, k + j div n)) (enumerate 0 xs) =
        map (\<lambda>b. (b, k)) (take n xs) @ map (\<lambda>(j, b). (b, Suc k + j div n)) (enumerate 0 (drop n xs))"
      by (simp only: map_append)
    moreover have "chunks_of n xs = take n xs # chunks_of n (drop n xs)"
      using 1(2) False by (subst chunks_of.simps) simp
    ultimately show ?thesis using 1 False by simp
  qed simp
qed

lemma tagged_stream_chunks:
  assumes "2 \<le> mtu"
  shows "tagged_stream (test_chunks h bs mtu) = map (\<lambda>(j, b). (b, j div (mtu - 1))) (enumerate 0 bs)"
proof -
  have "enumerate 0 (map (\<lambda>c. h # c) cs) = map (\<lambda>(i, c). (i, h # c)) (enumerate 0 cs)" for cs :: "bytes list"
    by (rule nth_equalityI) (simp_all add: nth_enumerate_eq)
  then show ?thesis
    using tagged_chunks [of "mtu - 1" 0 bs] assms
    by (simp add: tagged_stream_def test_chunks_def chunk_with_handle_def comp_def split_def Let_def)
qed

lemma chunks_carry_bytes: "\<forall>c \<in> set (test_chunks h bs mtu). 2 \<le> length c"
proof -
  have "c \<in> set (chunks_of n xs) \<Longrightarrow> c \<noteq> []" for n c and xs :: bytes
    by (induction n xs rule: chunks_of.induct) (subst (asm) (2) chunks_of.simps, auto split: if_splits)
  then show ?thesis
    by (auto simp: test_chunks_def chunk_with_handle_def Let_def Suc_le_eq numeral_2_eq_2 split: if_splits)
qed

subsection \<open>Traffic in frames\<close>

definition frame_stream :: "bytes list \<Rightarrow> bytes" where
  "frame_stream cs = concat (map (\<lambda>c. [0] @ c @ [0]) cs)"

text \<open>Where each frame's bytes and closing delimiter are, from position \<open>p\<close> on.\<close>

fun frame_spans :: "nat \<Rightarrow> bytes list \<Rightarrow> (nat \<times> nat \<times> bytes) list" where
  "frame_spans p [] = []"
| "frame_spans p (c # cs) = (p + 1, p + length c + 2, c) # frame_spans (p + length c + 2) cs"

lemma frame_spans_nonempty: "(lo, hi, c) \<in> set (frame_spans p cs) \<Longrightarrow> lo < hi"
  by (induction p cs rule: frame_spans.induct) auto

lemma scan_delimited:
  assumes "0 \<notin> fst ` set seg"
  shows "fold scan_tagged ((0, a) # seg @ [(0, z)]) ([], bad) =
    ([], if forbidden (map fst seg) then bad \<union> set (map snd (seg @ [(0, z)])) else bad)"
proof -
  have "scan_tagged (0, a) ([], bad) = ([], bad)" by (simp add: scan_tagged_def forbidden_def)
  then show ?thesis using assms by (simp add: scan_tagged_segment) (simp add: scan_tagged_def)
qed

lemma scan_frames:
  assumes "\<forall>c \<in> set cs. 0 \<notin> set c"
  shows "fold scan_tagged (map (\<lambda>(j, b). (b, tag j)) (enumerate p (frame_stream cs))) ([], bad) =
    ([], bad \<union> {tag j | j lo hi c. (lo, hi, c) \<in> set (frame_spans p cs) \<and> forbidden c \<and> lo \<le> j \<and> j < hi})"
  using assms
proof (induction cs arbitrary: p bad)
  case (Cons c cs)
  let ?seg = "map (\<lambda>(j, b). (b, tag j)) (enumerate (Suc p) c)"
  have stream: "map (\<lambda>(j, b). (b, tag j)) (enumerate p (frame_stream (c # cs))) =
      (0, tag p) # ?seg @ (0, tag (p + length c + 1)) #
        map (\<lambda>(j, b). (b, tag j)) (enumerate (p + length c + 2) (frame_stream cs))"
    by (simp add: frame_stream_def enumerate_append_eq)
  have "map fst ?seg = c" by (rule nth_equalityI) (simp_all add: nth_enumerate_eq)
  moreover from this have "fst ` set ?seg = set c" by (metis list.set_map)
  ultimately have seg: "map fst ?seg = c" "0 \<notin> fst ` set ?seg"
    using Cons.prems by simp_all
  have "map snd (?seg @ [(0 :: u8, tag (p + length c + 1))]) = map tag ([p + 1..<p + length c + 1] @ [p + length c + 1])"
  proof -
    have "map snd ?seg = map tag (map fst (enumerate (Suc p) c))"
      by (simp add: comp_def split_def del: map_fst_enumerate)
    then show ?thesis by simp
  qed
  then have "set (map snd (?seg @ [(0, tag (p + length c + 1))])) =
      tag ` (set [p + 1..<p + length c + 1] \<union> {p + length c + 1})"
    by (simp only: set_map set_append list.set image_Un)
  also have "set [p + 1..<p + length c + 1] \<union> {p + length c + 1} = {j. p + 1 \<le> j \<and> j < p + length c + 2}"
    by auto
  finally have tags: "set (map snd (?seg @ [(0, tag (p + length c + 1))])) = {tag j | j. p + 1 \<le> j \<and> j < p + length c + 2}"
    by auto
  have "fold scan_tagged ((0, tag p) # ?seg @ [(0, tag (p + length c + 1))]) ([], bad) =
      ([], if forbidden c then bad \<union> {tag j | j. p + 1 \<le> j \<and> j < p + length c + 2} else bad)"
    by (simp only: scan_delimited [OF seg(2)] seg(1) tags)
  then have "fold scan_tagged (map (\<lambda>(j, b). (b, tag j)) (enumerate p (frame_stream (c # cs)))) ([], bad) =
      fold scan_tagged (map (\<lambda>(j, b). (b, tag j)) (enumerate (p + length c + 2) (frame_stream cs)))
        ([], if forbidden c then bad \<union> {tag j | j. p + 1 \<le> j \<and> j < p + length c + 2} else bad)"
    by (simp only: stream fold_append fold_simps append_Cons append_assoc append_Nil comp_def)
  then show ?case
    using Cons by auto
qed (simp add: frame_stream_def)


definition untouched :: "bytes list \<Rightarrow> nat \<Rightarrow> nat \<Rightarrow> bool" where
  "untouched cs n k \<longleftrightarrow>
     list_all (\<lambda>(lo, hi, c). forbidden c \<longrightarrow> (k + 1) * n \<le> lo \<or> hi \<le> k * n) (frame_spans 0 cs)"

lemma touched_iff:
  "\<not> untouched cs n k \<longleftrightarrow> (\<exists>lo hi c. (lo, hi, c) \<in> set (frame_spans 0 cs) \<and> forbidden c \<and>
     \<not> ((k + 1) * n \<le> lo \<or> hi \<le> k * n))"
  unfolding untouched_def list_all_iff by blast

lemma div_in_range:
  fixes lo :: nat
  assumes "0 < n" "lo < hi"
  shows "(\<exists>j. lo \<le> j \<and> j < hi \<and> j div n = k) \<longleftrightarrow> \<not> ((k + 1) * n \<le> lo \<or> hi \<le> k * n)"
proof
  assume "\<exists>j. lo \<le> j \<and> j < hi \<and> j div n = k"
  then obtain j where j: "lo \<le> j" "j < hi" "j div n = k" by blast
  then have "k * n \<le> j" "j < (k + 1) * n"
    using assms(1) div_times_less_eq_dividend [of j n] dividend_less_div_times [of n j] by auto
  with j show "\<not> ((k + 1) * n \<le> lo \<or> hi \<le> k * n)" by simp
next
  assume r: "\<not> ((k + 1) * n \<le> lo \<or> hi \<le> k * n)"
  have "max lo (k * n) div n = k"
    using r assms(1) by (intro div_nat_eqI) (auto simp: max_def mult.commute)
  then show "\<exists>j. lo \<le> j \<and> j < hi \<and> j div n = k"
    using r assms(2) by (intro exI [of _ "max lo (k * n)"]) auto
qed

lemma frames_withheld:
  assumes "\<forall>c \<in> set cs. 0 \<notin> set c" "2 \<le> mtu"
  shows "open_segment (test_chunks h (frame_stream cs) mtu) = []"
    "k \<in> withheld_chunks (test_chunks h (frame_stream cs) mtu) \<longleftrightarrow> \<not> untouched cs (mtu - 1) k"
proof -
  note scan = scan_frames [OF assms(1), of "\<lambda>j. j div (mtu - 1)" 0 "{}"]
  show "open_segment (test_chunks h (frame_stream cs) mtu) = []"
    unfolding open_segment_def tagged_stream_chunks [OF assms(2)] scan by simp
  have n: "0 < mtu - 1" using assms(2) by simp
  have "k \<in> withheld_chunks (test_chunks h (frame_stream cs) mtu) \<longleftrightarrow>
      (\<exists>lo hi c. (lo, hi, c) \<in> set (frame_spans 0 cs) \<and> forbidden c \<and> (\<exists>j. lo \<le> j \<and> j < hi \<and> j div (mtu - 1) = k))"
    unfolding withheld_chunks_def tagged_stream_chunks [OF assms(2)] scan by auto
  also have "\<dots> \<longleftrightarrow> (\<exists>lo hi c. (lo, hi, c) \<in> set (frame_spans 0 cs) \<and> forbidden c \<and>
      \<not> ((k + 1) * (mtu - 1) \<le> lo \<or> hi \<le> k * (mtu - 1)))"
    by (intro iff_exI conj_cong refl div_in_range [OF n frame_spans_nonempty])
  also have "\<dots> \<longleftrightarrow> \<not> untouched cs (mtu - 1) k"
    by (simp only: touched_iff)
  finally show "k \<in> withheld_chunks (test_chunks h (frame_stream cs) mtu) \<longleftrightarrow> \<not> untouched cs (mtu - 1) k" .
qed

lemma traffic_recorded:
  assumes "\<forall>c \<in> set cs. 0 \<notin> set c" "2 \<le> mtu" "length (test_chunks h (frame_stream cs) mtu) \<le> MAX_HELD_CHUNKS"
  shows "fst (record_chunks filter_new (test_chunks h (frame_stream cs) mtu)) =
    map ((!) (test_chunks h (frame_stream cs) mtu))
      (filter (untouched cs (mtu - 1)) [0..<length (test_chunks h (frame_stream cs) mtu)])"
  using released_exactly [OF chunks_carry_bytes assms(3) frames_withheld(1) [OF assms(1,2)]]
  by (simp add: record_released frames_withheld(2) [OF assms(1,2)])

lemma filter_ready_again:
  assumes "open_segment chunks = []" "\<forall>c \<in> set chunks. 2 \<le> length c" "length chunks \<le> MAX_HELD_CHUNKS"
  shows "snd (record_chunks filter_new chunks) = filter_new"
proof -
  let ?cvs = "map (\<lambda>(i, c). (c, i)) (enumerate 0 chunks)"
  obtain outs f where run: "filter_run ?cvs filter_new = (outs, f)" by fastforce
  obtain cur bad where scan: "fold scan_tagged (tagged_stream chunks) ([], {}) = (cur, bad)" by fastforce
  have "filter_inv (0 + length chunks) ({} \<union> set outs) f True cur bad"
    by (rule filter_inv_run [OF _ _ run]) (use scan in \<open>simp_all add: filter_inv_def filter_new_def
        tagged_stream_def tagged_from_def\<close>)
  moreover have "cur = []" using assms(1) by (simp add: open_segment_def scan)
  ultimately have f: "f = filter_new" by (cases f) (auto simp: filter_inv_def filter_new_def)
  have "map (\<lambda>c. (c, c)) chunks = map (\<lambda>(c, i). (c, chunks ! i)) ?cvs"
    by (rule nth_equalityI) (simp_all add: nth_enumerate_eq)
  then show ?thesis
    using filter_run_map [OF run, of "(!) chunks"] by (simp add: record_chunks_def f)
qed

subsection \<open>One frame after another\<close>

lemma filter_push_bytes:
  "0 \<notin> set bs \<Longrightarrow> length (frame f) + length bs \<le> MAX_FRAME_BYTES \<Longrightarrow>
   fold filter_byte bs (f, out, keep) = (f\<lparr>frame := frame f @ bs\<rparr>, out, keep)"
proof (induction bs arbitrary: f)
  case (Cons b bs)
  then show ?case by (simp add: filter_byte_push)
qed simp

lemma feed_gap: "feed = filter_feed [h, 0] v filter_new \<Longrightarrow> feed = ([v], filter_new)"
  by (simp add: filter_feed_def filter_new_def filter_byte_gap MAX_HELD_CHUNKS_def)

lemma feed_inside:
  assumes "0 \<notin> set bs" "bs \<noteq> []" "length (frame f) + length bs \<le> MAX_FRAME_BYTES"
    "\<not> tainted f" "length (held f) < MAX_HELD_CHUNKS"
  shows "filter_feed (h # bs) v f = ([], f\<lparr>frame := frame f @ bs, held := held f @ [v]\<rparr>)"
  using assms by (simp add: filter_feed_def filter_push_bytes)

lemma feed_opening:
  assumes "0 \<notin> set bs" "bs \<noteq> []" "length bs \<le> MAX_FRAME_BYTES"
  shows "filter_feed (h # 0 # bs) v filter_new = ([], \<lparr>frame = bs, tainted = False, held = [v]\<rparr>)"
  using assms by (simp add: filter_feed_def filter_push_bytes filter_byte_gap filter_new_def MAX_HELD_CHUNKS_def)

lemma feed_closing:
  assumes "0 \<notin> set bs" "frame f @ bs \<noteq> []" "length (frame f) + length bs \<le> MAX_FRAME_BYTES"
    "\<not> tainted f" "\<not> frame_excluded (frame f @ bs)"
  shows "filter_feed (h # bs @ [0]) v f = (held f @ [v], filter_new)"
  using assms by (simp add: filter_feed_def filter_push_bytes filter_byte_release filter_new_def MAX_HELD_CHUNKS_def)

lemma feed_overflow:
  assumes "b \<noteq> 0" "length (frame f) < MAX_FRAME_BYTES" "length (held f) = MAX_HELD_CHUNKS \<or> tainted f \<and> held f = []"
  shows "filter_feed [h, b] v f = ([], f\<lparr>frame := frame f @ [b], tainted := True, held := []\<rparr>)"
  using assms by (cases f) (auto simp: filter_feed_def filter_byte_push MAX_HELD_CHUNKS_def)

lemma feed_closing_tainted:
  "tainted f \<Longrightarrow> filter_feed [h, 0] v f = ([], filter_new)"
  by (simp add: filter_feed_def filter_byte_drop filter_new_def MAX_HELD_CHUNKS_def)

text \<open>A frame that comes a byte per chunk: its chunks are held up to the limit, then given up.\<close>

lemma run_bytewise:
  assumes "0 \<notin> set c" "length (frame f) + length c \<le> MAX_FRAME_BYTES" "\<not> tainted f"
    "length (held f) + length c \<le> MAX_HELD_CHUNKS"
  shows "record_chunks f (map (\<lambda>b. [h, b]) c) =
    ([], f\<lparr>frame := frame f @ c, held := held f @ map (\<lambda>b. [h, b]) c\<rparr>)"
  using assms
proof (induction c arbitrary: f)
  case (Cons b c)
  then show ?case by (simp add: record_chunks_def feed_inside)
qed (simp add: record_chunks_def)

lemma run_bytewise_tainted:
  assumes "0 \<notin> set c" "length (frame f) + length c \<le> MAX_FRAME_BYTES" "tainted f" "held f = []"
  shows "record_chunks f (map (\<lambda>b. [h, b]) c) = ([], f\<lparr>frame := frame f @ c\<rparr>)"
  using assms
proof (induction c arbitrary: f)
  case (Cons b c)
  then show ?case by (simp add: record_chunks_def feed_overflow)
qed (simp add: record_chunks_def)

lemma record_append:
  "record_chunks f (xs @ ys) =
     (let (o1, f1) = record_chunks f xs; (o2, f2) = record_chunks f1 ys in (o1 @ o2, f2))"
proof (induction xs arbitrary: f)
  case (Cons x xs)
  then show ?case by (simp add: record_chunks_def split_beta Let_def)
qed (simp add: record_chunks_def split_beta)

lemma record_simps:
  "record_chunks f [] = ([], f)"
  "record_chunks f (c # cs) = (let (o1, f1) = filter_feed c c f; (o2, f2) = record_chunks f1 cs in (o1 @ o2, f2))"
  by (simp_all add: record_chunks_def)

lemma chunks_mtu_2: "test_chunks h bs 2 = map (\<lambda>b. [h, b]) bs"
proof -
  have "chunks_of 1 bs = map (\<lambda>b. [b]) bs"
    by (induction bs) (simp, subst chunks_of.simps, simp)
  then show ?thesis by (simp add: test_chunks_def chunk_with_handle_def comp_def)
qed

text \<open>A frame that comes a byte per chunk is recorded whole if its bytes fit the chunks that are held, and
  not at all otherwise, except for its opening delimiter.\<close>

lemma bytewise_frame:
  assumes c: "0 \<notin> set c" "c \<noteq> []" "length c \<le> MAX_FRAME_BYTES"
  shows "record_chunks filter_new (test_chunks h (0 # c @ [0]) 2) =
    (if length c \<le> MAX_HELD_CHUNKS \<and> \<not> frame_excluded c then test_chunks h (0 # c @ [0]) 2 else [[h, 0]], filter_new)"
proof (cases "length c \<le> MAX_HELD_CHUNKS")
  case True
  have run: "record_chunks filter_new (map (\<lambda>b. [h, b]) c) =
      ([], \<lparr>frame = c, tainted = False, held = map (\<lambda>b. [h, b]) c\<rparr>)"
    using run_bytewise [OF c(1), of filter_new h] c(3) True by (simp add: filter_new_def)
  have "frame_excluded c \<Longrightarrow> filter_feed [h, 0] v \<lparr>frame = c, tainted = False, held = map (\<lambda>b. [h, b]) c\<rparr> = ([], filter_new)" for v
    using c(2) by (simp add: filter_feed_def filter_byte_drop filter_new_def MAX_HELD_CHUNKS_def)
  then show ?thesis
    using True feed_closing [of "[]" "\<lparr>frame = c, tainted = False, held = map (\<lambda>b. [h, b]) c\<rparr>" h] c
    by (simp add: chunks_mtu_2 record_simps record_append run feed_gap [OF refl])
next
  case False
  then obtain pre b post where split: "c = pre @ b # post" and pre: "length pre = MAX_HELD_CHUNKS"
    by (metis append_take_drop_id id_take_nth_drop length_take linorder_le_less_linear min.absorb4)
  then have zs: "0 \<notin> set pre" "b \<noteq> 0" "0 \<notin> set post" "length pre + Suc (length post) \<le> MAX_FRAME_BYTES"
    using c by auto
  have "record_chunks filter_new (map (\<lambda>b. [h, b]) pre) =
      ([], \<lparr>frame = pre, tainted = False, held = map (\<lambda>b. [h, b]) pre\<rparr>)"
    using run_bytewise [OF zs(1), of filter_new h] zs(4) pre by (simp add: filter_new_def)
  moreover have "filter_feed [h, b] v \<lparr>frame = pre, tainted = False, held = map (\<lambda>b. [h, b]) pre\<rparr> =
      ([], \<lparr>frame = pre @ [b], tainted = True, held = []\<rparr>)" for v
    using feed_overflow [of b _ h v] zs(2,4) pre by simp
  moreover have "record_chunks \<lparr>frame = pre @ [b], tainted = True, held = []\<rparr> (map (\<lambda>b. [h, b]) post) =
      ([], \<lparr>frame = pre @ [b] @ post, tainted = True, held = []\<rparr>)"
    using run_bytewise_tainted [OF zs(3), of _ h] zs(4) by simp
  ultimately have "record_chunks filter_new (map (\<lambda>b. [h, b]) c) =
      ([], \<lparr>frame = c, tainted = True, held = []\<rparr>)"
    by (simp add: record_append record_simps split)
  then show ?thesis
    using False by (simp add: chunks_mtu_2 record_simps record_append feed_gap [OF refl] feed_closing_tainted)
qed

lemma response_frame_kept:
  "2 \<le> length p \<Longrightarrow> length p \<le> 248 \<Longrightarrow> \<not> frame_excluded (cobs_encode (build_frame MSG_PROTOBUF_RESPONSE p))"
proof -
  assume p: "2 \<le> length p" "length p \<le> 248"
  have "crc_zeros (build_frame MSG_PROTOBUF_RESPONSE p) \<le> 2" by (simp add: crc_zeros_def)
  moreover have "\<not> bit MSG_PROTOBUF_RESPONSE 15" by (simp add: MSG_PROTOBUF_RESPONSE_def bit_numeral_rec)
  ultimately show ?thesis
    using p by (simp add: frame_excluded_def host_link cut_result_def frame_carries_identity_def
        type_carries_identity_def msg_defs)
qed

subsection \<open>One chunk with one frame\<close>

lemma feed_wrapped:
  fixes v :: 'a
  assumes "f \<noteq> []" "length f \<le> 254"
  shows "filter_feed (with_handle h (wrap_cobs f)) v filter_new =
    (if frame_excluded (cobs_encode f) then [] else [v], filter_new)"
proof -
  have len: "length (cobs_encode f) \<le> MAX_FRAME_BYTES"
    using cobs_encode_bounds(2) [of f] assms(2) div_le_dividend [of "length f" 254] unfolding MAX_FRAME_BYTES_def by linarith
  have "fold filter_byte (cobs_encode f) (filter_new, [], True) =
      (filter_new\<lparr>frame := cobs_encode f\<rparr>, [] :: 'a list, True)"
    using filter_push_bytes [OF cobs_encode_no_zero, of filter_new f "[]" True] len by (simp add: filter_new_def)
  then show ?thesis
    using assms(1)
    by (auto simp: with_handle_def wrap_cobs_def filter_feed_def filter_byte_gap filter_byte_drop filter_byte_release
        filter_new_def MAX_HELD_CHUNKS_def)
qed

lemma excluded_lossless:
  "length f \<le> 254 \<Longrightarrow> last f \<noteq> 0 \<Longrightarrow> frame_excluded (cobs_encode f) \<longleftrightarrow>
     (case parse_frame f of Inl _ \<Rightarrow> True | Inr g \<Rightarrow> frame_carries_identity g)"
  by (simp add: frame_excluded_def parse_cobs_frame_lossless lossless_short)

lemma short_ack_excluded:
  assumes "length p \<le> 1"
  shows "frame_excluded (cobs_encode (build_frame MSG_ACK p))"
  using host_link [OF ack_bit, of p] assms
  by (auto simp: frame_excluded_def cut_result_def frame_carries_identity_def acked_type_def)

lemma response_chunk_kept:
  "2 \<le> length p \<Longrightarrow> length p \<le> 248 \<Longrightarrow>
   filter_feed (with_handle h (encode_frame MSG_PROTOBUF_RESPONSE p)) v filter_new = ([v], filter_new)"
  by (simp add: encode_frame_def feed_wrapped response_frame_kept)

subsection \<open>Several frames\<close>

lemma length_chunks_of: "0 < n \<Longrightarrow> length (chunks_of n xs) = (length xs + n - 1) div n"
proof (induction n xs rule: chunks_of.induct)
  case (1 n xs)
  show ?case
  proof (cases "xs = []")
    case False
    have IH: "length (chunks_of n (drop n xs)) = (length xs - n + n - 1) div n"
      using 1 False by simp
    have "chunks_of n xs = take n xs # chunks_of n (drop n xs)"
      using 1(2) False by (subst chunks_of.simps) simp
    then have len: "length (chunks_of n xs) = Suc ((length xs - n + n - 1) div n)" using IH by simp
    show ?thesis
    proof (cases "n \<le> length xs")
      case True
      then have "length xs + n - 1 = (length xs - n + n - 1) + n" using 1(2) by simp
      then show ?thesis using len 1(2) by (simp only: div_add_self2)
    next
      case F: False
      obtain m where "length xs = Suc m" using False by (cases xs) simp_all
      with F have "(length xs + n - 1) div n = 1" "(length xs - n + n - 1) div n = 0"
        using 1(2) by (auto intro!: div_nat_eqI)
      then show ?thesis using len by simp
    qed
  qed (use 1 in simp)
qed

lemma length_test_chunks: "2 \<le> mtu \<Longrightarrow> length (test_chunks h bs mtu) = (length bs + mtu - 2) div (mtu - 1)"
  by (simp add: test_chunks_def chunk_with_handle_def length_chunks_of numeral_2_eq_2)

lemma traffic_then_ready:
  assumes "\<forall>c \<in> set cs. 0 \<notin> set c" "2 \<le> mtu" "length (test_chunks h (frame_stream cs) mtu) \<le> MAX_HELD_CHUNKS"
  shows "record_chunks filter_new (test_chunks h (frame_stream cs) mtu) =
    (map ((!) (test_chunks h (frame_stream cs) mtu))
      (filter (untouched cs (mtu - 1)) [0..<length (test_chunks h (frame_stream cs) mtu)]), filter_new)"
  using traffic_recorded [OF assms] filter_ready_again [OF frames_withheld(1) [OF assms(1,2)] chunks_carry_bytes assms(3)]
  by (simp add: prod_eq_iff)

text \<open>What is recorded of a traffic has only bytes of the frames that may be recorded.\<close>

lemma frame_bytes:
  "(j, b) \<in> set (enumerate p (frame_stream cs)) \<Longrightarrow>
   b = 0 \<or> (\<exists>lo hi c. (lo, hi, c) \<in> set (frame_spans p cs) \<and> lo \<le> j \<and> j < hi \<and> b \<in> set c)"
proof (induction cs arbitrary: p)
  case (Cons c cs)
  have "enumerate p (frame_stream (c # cs)) =
      (p, 0) # enumerate (Suc p) c @ (Suc p + length c, 0) # enumerate (p + length c + 2) (frame_stream cs)"
    by (simp add: frame_stream_def enumerate_append_eq)
  then consider "b = 0" | "(j, b) \<in> set (enumerate (Suc p) c)"
    | "(j, b) \<in> set (enumerate (p + length c + 2) (frame_stream cs))"
    using Cons.prems by auto
  then show ?case
  proof cases
    case 2
    then have "p + 1 \<le> j \<and> j < p + length c + 2 \<and> b \<in> set c"
      by (auto simp: in_set_enumerate_eq)
    then show ?thesis by auto
  next
    case 3
    then show ?thesis using Cons.IH [of "p + length c + 2"] by auto
  qed simp
qed (simp add: frame_stream_def)

lemma frame_spans_frames: "(lo, hi, c) \<in> set (frame_spans p cs) \<Longrightarrow> c \<in> set cs"
  by (induction p cs rule: frame_spans.induct) auto

lemma untouched_bytes:
  assumes "2 \<le> mtu" "k < length (test_chunks h (frame_stream cs) mtu)" "untouched cs (mtu - 1) k"
    "b \<in> set (drop 1 (test_chunks h (frame_stream cs) mtu ! k))"
  shows "b = 0 \<or> (\<exists>c \<in> set cs. \<not> forbidden c \<and> b \<in> set c)"
proof -
  have "(b, k) \<in> set (tagged_stream (test_chunks h (frame_stream cs) mtu))"
    using assms(2,4) by (force simp: tagged_stream_def in_set_enumerate_eq)
  then obtain j where j: "(j, b) \<in> set (enumerate 0 (frame_stream cs))" "k = j div (mtu - 1)"
    unfolding tagged_stream_chunks [OF assms(1)] by auto
  show ?thesis
  proof (rule disjCI)
    assume "\<not> (\<exists>c \<in> set cs. \<not> forbidden c \<and> b \<in> set c)"
    moreover have "forbidden c \<Longrightarrow> (lo, hi, c) \<in> set (frame_spans 0 cs) \<Longrightarrow> lo \<le> j \<Longrightarrow> j < hi \<Longrightarrow> False" for lo hi c
      using assms(1,3) div_in_range [of "mtu - 1" lo hi k] touched_iff [of cs "mtu - 1" k] j(2) by fastforce
    ultimately show "b = 0"
      using frame_bytes [OF j(1)] frame_spans_frames by metis
  qed
qed

lemma short_traffic_fits:
  assumes "2 \<le> mtu" "length bs \<le> 256"
  shows "length (test_chunks h bs mtu) \<le> MAX_HELD_CHUNKS"
proof -
  obtain n where n: "mtu = Suc (Suc n)" using assms(1) by (metis Suc_le_D numeral_2_eq_2 Suc_le_mono le_Suc_ex add_Suc add_0)
  have "(length bs + n) div Suc n \<le> length bs"
  proof (cases "length bs")
    case (Suc l)
    have "Suc l + n \<le> Suc l * Suc n" by simp
    then have "(Suc l + n) div Suc n \<le> (Suc l * Suc n) div Suc n" by (rule div_le_mono)
    also have "(Suc l * Suc n) div Suc n = Suc l" by (rule nonzero_mult_div_cancel_right) simp
    finally show ?thesis using Suc by simp
  qed simp
  then show ?thesis using assms by (simp add: length_test_chunks n MAX_HELD_CHUNKS_def)
qed

subsection \<open>Properties\<close>

text \<open>C16: recording traffic: of complete frames cut into up to 256 chunks of any size, exactly the chunks that hold
  no byte of a forbidden frame are recorded, in order; every byte recorded is a delimiter or of a frame
  that may be recorded; and the filter is as new afterwards.\<close>

theorem traffic_recorded_exactly:
  assumes "list_all (\<lambda>c. 0 \<notin> set c) cs" and "2 \<le> mtu"
    and "rx = chunk_with_handle (concat (map (\<lambda>c. [0] @ c @ [0]) cs)) h mtu" and "length rx \<le> 256"
  shows "record_chunks filter_new rx =
      (map ((!) rx) (filter (\<lambda>k. list_all (\<lambda>(lo, hi, c). if forbidden c then (k + 1) * (mtu - 1) \<le> lo \<or> hi \<le> k * (mtu - 1)
          else True) (frame_spans 0 cs)) [0..<length rx]), filter_new) \<and>
    list_all (\<lambda>x. list_all (\<lambda>b. b = 0 \<or> list_ex (\<lambda>c. \<not> forbidden c \<and> b \<in> set c) cs) (drop 1 x))
      (fst (record_chunks filter_new rx))"
proof -
  have rx: "rx = test_chunks h (frame_stream cs) mtu" by (simp add: assms(3) test_chunks_def frame_stream_def)
  have cs: "\<forall>c \<in> set cs. 0 \<notin> set c" using assms(1) by (simp add: list_all_iff)
  have un: "untouched cs (mtu - 1) = (\<lambda>k. list_all (\<lambda>(lo, hi, c). if forbidden c then (k + 1) * (mtu - 1) \<le> lo \<or> hi \<le> k * (mtu - 1)
      else True) (frame_spans 0 cs))"
    by (auto simp: untouched_def fun_eq_iff list_all_iff simp del: One_nat_def)
  have run: "record_chunks filter_new rx = (map ((!) rx) (filter (untouched cs (mtu - 1)) [0..<length rx]), filter_new)"
    unfolding rx by (rule traffic_then_ready [OF cs assms(2)]) (use assms(4) in \<open>simp add: rx MAX_HELD_CHUNKS_def\<close>)
  have "b = 0 \<or> (\<exists>c \<in> set cs. \<not> forbidden c \<and> b \<in> set c)"
    if x: "x \<in> set (fst (record_chunks filter_new rx))" and b: "b \<in> set (drop 1 x)" for x b
  proof -
    obtain k where "k < length rx" "untouched cs (mtu - 1) k" "x = rx ! k"
      using x unfolding run fst_conv set_map set_filter set_upt image_iff Bex_def mem_Collect_eq atLeastLessThan_iff by blast
    then show ?thesis using untouched_bytes [OF assms(2), of k h cs b] b unfolding rx by blast
  qed
  then show ?thesis using run unfolding un by (simp add: list_all_iff list_ex_iff)
qed

theorem traffic_recorded_exactly_witness:
  "record_chunks filter_new [[5, 0, 2, 0x41], [5, 0]] = ([], filter_new)"
proof -
  have "chunk_with_handle [0, 2, 0x41, 0] 5 4 = [[5, 0, 2, 0x41], [5, 0]]" by code_simp
  moreover have "forbidden [2, 0x41]" by code_simp
  ultimately show ?thesis
    using traffic_recorded_exactly [of "[[2, 0x41]]" 4 "[[5, 0, 2, 0x41], [5, 0]]" 5] by (simp add: upt_rec)
qed

end
