(* ===== verification/Capture_Tests.thy ===== *)
theory Capture_Tests
  imports Capture_Traffic
begin

text \<open>
  The unit tests inside \<open>src/capture.rs\<close>, each as a predicate on the model, and that all of them hold. Of their
  long streams no byte is computed that the result does not need: the lemmas of \<open>Capture_Traffic\<close> say what is
  recorded from the lengths of the frames.
\<close>

subsection \<open>The tests\<close>

definition HANDLE :: u8 where
  "HANDLE = 0x05"

definition hex :: "bytes \<Rightarrow> string" where
  "hex bs = concat (map hex2 bs)"

text \<open>\<open>device_info_is_never_released\<close>, in its two halves: what is recorded of the device's traffic and of the
  host's, and that neither holds the identity.\<close>

definition device_traffic_recorded :: bool where
  "device_traffic_recorded \<longleftrightarrow>
     (let shot1 = encode_frame MSG_PROTOBUF_RESPONSE (replicate 30 0x11);
          info = device_info_frame;
          shot2 = encode_frame MSG_PROTOBUF_RESPONSE (replicate 30 0x22);
          stream = shot1 @ info @ shot2;
          rx = test_chunks HANDLE stream 20;
          got = fst (record_chunks filter_new rx);
          info_start = length shot1 + 1; info_end = length shot1 + length info;
          expected = map snd (filter (\<lambda>(k, c). (k + 1) * 19 \<le> info_start \<or> info_end \<le> k * 19) (enumerate 0 rx));
          reply = ack_frame MSG_DEVICE_INFO 0 [0xAA, 0xBB];
          shot_ack = with_handle HANDLE (ack_frame MSG_PROTOBUF_RESPONSE 0 []);
          tx = test_chunks HANDLE reply 20 @ [shot_ack];
          sent = fst (record_chunks filter_new tx);
          all_hex = concat (map hex (got @ sent))
      in 4 \<le> length expected \<and> length expected < length rx \<and> got = expected \<and> sent = [shot_ack] \<and>
         \<not> sublist (hex (le32 DEVICE_INFO_UNIT_ID)) all_hex \<and> \<not> sublist (hex DEVICE_INFO_NAME) all_hex)"

definition unit_id_never_leaks_at_any_mtu :: bool where
  "unit_id_never_leaks_at_any_mtu \<longleftrightarrow>
     (let stream = encode_frame MSG_PROTOBUF_RESPONSE (ascii ''before'') @ device_info_frame @
                   encode_frame MSG_PROTOBUF_RESPONSE (ascii ''after'')
      in list_all (\<lambda>m.
           let got = fst (record_chunks filter_new (test_chunks HANDLE stream m));
               all_hex = concat (map (\<lambda>c. hex (drop 1 c)) got)
           in \<not> sublist (hex (le32 DEVICE_INFO_UNIT_ID)) all_hex \<and> \<not> sublist (hex DEVICE_INFO_NAME) all_hex)
         [2..<length stream + 2])"

definition unclassifiable_frames_are_excluded :: bool where
  "unclassifiable_frames_are_excluded \<longleftrightarrow>
     (let bad = encode_frame MSG_PROTOBUF_RESPONSE (ascii ''shot''); n = length bad;
          bad = bad[n - 2 := bad ! (n - 2) XOR 0x01]
      in fst (record_chunks filter_new [with_handle HANDLE bad]) = [])"

definition whole_frames_are_released_at_once :: bool where
  "whole_frames_are_released_at_once \<longleftrightarrow>
     (let chunk = with_handle HANDLE (encode_frame MSG_PROTOBUF_REQUEST [0x30]);
          (out1, f) = filter_feed chunk (1 :: nat) filter_new;
          (out2, f) = filter_feed [HANDLE] 2 f;
          (out3, f) = filter_feed [] 3 f
      in out1 = [1] \<and> out2 = [2] \<and> out3 = [3])"

text \<open>Feeding chunks with their numbers from \<open>k\<close> on: what each gives, and the filter after them.\<close>

fun feed_each :: "nat \<Rightarrow> bytes list \<Rightarrow> nat identity_filter \<Rightarrow> nat list list \<times> nat identity_filter" where
  "feed_each k [] f = ([], f)"
| "feed_each k (c # cs) f =
     (let (out, f) = filter_feed c k f; (outs, f) = feed_each (k + 1) cs f in (out # outs, f))"

definition split_frames_are_held_until_complete :: bool where
  "split_frames_are_held_until_complete \<longleftrightarrow>
     (let frm = encode_frame MSG_PROTOBUF_RESPONSE (replicate 40 0x44);
          chunks = test_chunks HANDLE frm 20;
          final = length chunks - 1;
          (outs, f) = feed_each 0 (take final chunks) filter_new;
          (out, f) = filter_feed (chunks ! final) final f
      in 3 \<le> length chunks \<and> list_all (\<lambda>o'. o' = []) outs \<and> out = [0..<final + 1])"

definition compressed_chunk :: "u16 \<Rightarrow> bytes \<Rightarrow> bytes" where
  "compressed_chunk t p =
     (let f = le16 (word_of_nat (6 + length p)) @ [ucast (t - 5000)] @ [0x81] @ p;
          crc = crc16 f
      in with_handle HANDLE (wrap_cobs (f @ le16 crc)))"

definition compressed_header_frames_are_classified :: bool where
  "compressed_header_frames_are_classified \<longleftrightarrow>
     (let (out1, f) = filter_feed (compressed_chunk MSG_PROTOBUF_RESPONSE (ascii ''shot'')) (1 :: nat) filter_new;
          (out2, f) = filter_feed (compressed_chunk MSG_DEVICE_INFO (ascii ''info'')) 2 f;
          ack_of_info = le16 MSG_DEVICE_INFO @ [0];
          (out3, f) = filter_feed (compressed_chunk MSG_ACK ack_of_info) 3 f
      in out1 = [1] \<and> out2 = [] \<and> out3 = [])"

definition ack_without_acked_type_is_excluded :: bool where
  "ack_without_acked_type_is_excluded \<longleftrightarrow>
     (let (out1, f) = filter_feed (with_handle HANDLE (encode_frame MSG_ACK [])) () filter_new;
          (out2, f) = filter_feed (with_handle HANDLE (encode_frame MSG_ACK [0x2C])) () f
      in out1 = [] \<and> out2 = [])"

definition oversize_frame_is_dropped_until_the_next_delimiter :: bool where
  "oversize_frame_is_dropped_until_the_next_delimiter \<longleftrightarrow>
     (let big = encode_frame MSG_PROTOBUF_RESPONSE (replicate MAX_FRAME_BYTES 0x55);
          nxt = encode_frame MSG_PROTOBUF_RESPONSE (ascii ''next'');
          stream = big @ nxt;
          chunks = test_chunks HANDLE stream 1024;
          (got, f) = record_chunks filter_new chunks;
          ok = with_handle HANDLE nxt
      in chunks \<noteq> [] \<and> list_all (\<lambda>c. c = last chunks) got \<and> fst (filter_feed ok ok f) = [ok])"

definition frame_over_too_many_chunks_is_dropped :: bool where
  "frame_over_too_many_chunks_is_dropped \<longleftrightarrow>
     (let frm = encode_frame MSG_PROTOBUF_RESPONSE (replicate (MAX_HELD_CHUNKS + 10) 0x66);
          (got, f) = record_chunks filter_new (test_chunks HANDLE frm 2);
          ok = with_handle HANDLE (encode_frame MSG_PROTOBUF_RESPONSE (ascii ''ok''));
          frm2 = encode_frame MSG_PROTOBUF_RESPONSE (replicate (MAX_HELD_CHUNKS - 10) 0x66);
          chunks = test_chunks HANDLE frm2 2
      in got = [[HANDLE, 0x00]] \<and> fst (filter_feed ok ok f) = [ok] \<and>
         length chunks \<le> MAX_HELD_CHUNKS \<and> fst (record_chunks filter_new chunks) = chunks)"

definition garbage_is_dropped :: bool where
  "garbage_is_dropped \<longleftrightarrow>
     (let (out1, f) = filter_feed [HANDLE, 0x00, 0x02, 0x41, 0x00] (1 :: nat) filter_new;
          (out2, f) = filter_feed [HANDLE, 0x00, 0x09, 0x41, 0x00] 2 f;
          ok = with_handle HANDLE (encode_frame MSG_PROTOBUF_RESPONSE (ascii ''x''));
          (out3, f) = filter_feed ok 3 f
      in out1 = [] \<and> out2 = [] \<and> out3 = [3])"

subsection \<open>Single chunks\<close>

lemma ack_test: "ack_without_acked_type_is_excluded"
  by (simp add: ack_without_acked_type_is_excluded_def encode_frame_def feed_wrapped short_ack_excluded)

lemma small_frames_kept:
  "filter_feed (with_handle h (encode_frame MSG_PROTOBUF_REQUEST [0x30])) v filter_new = ([v], filter_new)"
  "filter_feed (with_handle h (encode_frame MSG_PROTOBUF_RESPONSE (ascii ''x''))) v filter_new = ([v], filter_new)"
proof -
  have "last (build_frame MSG_PROTOBUF_REQUEST [0x30]) = 3" "last (build_frame MSG_PROTOBUF_RESPONSE (ascii ''x'')) = 244"
    by (simp_all add: build_frame_def Let_def crc16_def le16_def msg_defs ascii_def, simp_all add: crc_byte_def crc_table_def)
  then show "filter_feed (with_handle h (encode_frame MSG_PROTOBUF_REQUEST [0x30])) v filter_new = ([v], filter_new)"
    "filter_feed (with_handle h (encode_frame MSG_PROTOBUF_RESPONSE (ascii ''x''))) v filter_new = ([v], filter_new)"
    by (simp_all add: encode_frame_def feed_wrapped excluded_lossless parse_build_frame_standard msg_defs bit_numeral_rec
        frame_carries_identity_def type_carries_identity_def ascii_def)
qed

lemma whole_test: "whole_frames_are_released_at_once"
  by (simp add: whole_frames_are_released_at_once_def small_frames_kept)
     (simp add: filter_feed_def filter_new_def MAX_HELD_CHUNKS_def)

lemma garbage_test: "garbage_is_dropped"
proof -
  have "filter_feed [HANDLE, 0, 2, 0x41, 0] (1 :: nat) filter_new = ([], filter_new)"
    "filter_feed [HANDLE, 0, 9, 0x41, 0] (2 :: nat) filter_new = ([], filter_new)"
    by code_simp+
  then show ?thesis by (simp add: garbage_is_dropped_def small_frames_kept)
qed

lemma compressed_test: "compressed_header_frames_are_classified"
proof -
  have chunk: "compressed_chunk (5000 + ucast b) p = with_handle HANDLE (wrap_cobs (compressed_frame b 1 p))" for b p
  proof -
    have "ucast (5000 + ucast b - 5000 :: u16) = b"
      by (simp, rule bit_word_eqI) (simp add: bit_simps)
    then show ?thesis by (simp add: compressed_chunk_def compressed_frame_def Let_def add.commute)
  qed
  have chunks: "compressed_chunk MSG_PROTOBUF_RESPONSE p = with_handle HANDLE (wrap_cobs (compressed_frame 44 1 p))"
    "compressed_chunk MSG_DEVICE_INFO p = with_handle HANDLE (wrap_cobs (compressed_frame 24 1 p))"
    "compressed_chunk MSG_ACK p = with_handle HANDLE (wrap_cobs (compressed_frame 0 1 p))" for p
    using chunk [of 44 p] chunk [of 24 p] chunk [of 0 p] by (simp_all add: msg_defs)
  have info: "le16 MSG_DEVICE_INFO = [0xA0, 0x13]" by (simp add: le16_def MSG_DEVICE_INFO_def)
  have last: "last (compressed_frame 44 1 (ascii ''shot'')) \<noteq> 0" "last (compressed_frame 24 1 (ascii ''info'')) \<noteq> 0"
    "last (compressed_frame 0 1 [0xA0, 0x13, 0]) \<noteq> 0"
    by (simp_all add: compressed_frame_def Let_def crc16_def le16_def ascii_def, simp_all add: crc_byte_def crc_table_def)
  have len: "length (compressed_frame b tid p) = length p + 6" for b tid p
    by (simp add: compressed_frame_def Let_def)
  then have ne: "compressed_frame b tid p \<noteq> []" for b tid p
    by (metis add_eq_0_iff_both_eq_0 list.size(3) zero_neq_numeral)
  have short: "length (ascii s) = length s" for s by (simp add: ascii_def)
  have feed: "filter_feed (with_handle HANDLE (wrap_cobs (compressed_frame b 1 p))) v filter_new =
      (if frame_carries_identity \<lparr>msg_type = ucast b + 5000, txn_id = Some 1, payload = p\<rparr> then [] else [v], filter_new)"
    if "last (compressed_frame b 1 p) \<noteq> 0" "length p \<le> 248" for b p and v :: nat
    using that by (simp add: feed_wrapped excluded_lossless parse_compressed ne len)
  show ?thesis
    unfolding compressed_header_frames_are_classified_def chunks info
    using last
    by (simp add: feed short)
       (simp add: frame_carries_identity_def acked_type_def type_carries_identity_def msg_defs of_le16_def)
qed

lemma unclassifiable_test: "unclassifiable_frames_are_excluded"
proof -
  have frm: "build_frame MSG_PROTOBUF_RESPONSE (ascii ''shot'') = [10, 0, 180, 19, 115, 104, 111, 116, 168, 135]"
    by (simp add: build_frame_def Let_def crc16_def le16_def msg_defs ascii_def, simp add: crc_byte_def crc_table_def)
  have cobs: "cobs_encode [10, 0, 180, 19, 115, 104, 111, 116, 168, 135] = [2, 10, 9, 180, 19, 115, 104, 111, 116, 168, 135]"
    "cobs_encode [10, 0, 180, 19, 115, 104, 111, 116, 168, 134] = [2, 10, 9, 180, 19, 115, 104, 111, 116, 168, 134]"
    by code_simp+
  let ?bad = "[10, 0, 180, 19, 115, 104, 111, 116, 168, 134] :: bytes"
  have bad: "(encode_frame MSG_PROTOBUF_RESPONSE (ascii ''shot''))
      [11 := encode_frame MSG_PROTOBUF_RESPONSE (ascii ''shot'') ! 11 XOR 0x01] = wrap_cobs ?bad"
    and len: "length (encode_frame MSG_PROTOBUF_RESPONSE (ascii ''shot'')) = 13"
    by (simp_all add: encode_frame_def wrap_cobs_def frm cobs)
  have "parse_frame (build_frame MSG_PROTOBUF_RESPONSE (ascii ''shot'')) =
      Inr \<lparr>msg_type = MSG_PROTOBUF_RESPONSE, txn_id = None, payload = ascii ''shot''\<rparr>"
    by (simp add: parse_build_frame_standard msg_defs bit_numeral_rec)
  then have "parse_frame ([10, 0, 180, 19, 115, 104, 111, 116] @ [168, 135] @ []) =
      Inr \<lparr>msg_type = MSG_PROTOBUF_RESPONSE, txn_id = None, payload = ascii ''shot''\<rparr>"
    by (simp add: frm)
  from parse_damaged [OF this, of 168 134] have "\<exists>e r. parse_frame ?bad = Inl (Crc e r)" by simp
  then have "frame_excluded (cobs_encode ?bad)" by (auto simp: excluded_lossless)
  then show ?thesis
    using bad by (simp add: unclassifiable_frames_are_excluded_def Let_def len record_simps feed_wrapped)
qed

subsection \<open>A frame in several chunks\<close>

lemma three_chunks:
  assumes "18 < length c" "37 \<le> length c" "length c \<le> 55"
  shows "test_chunks h (0 # c @ [0]) 20 =
    [h # 0 # take 18 c, h # take 19 (drop 18 c), h # drop 37 c @ [0]]"
proof -
  have "chunks_of 19 (drop 37 c @ [0]) = [drop 37 c @ [0]]"
    using assms by (subst chunks_of.simps) simp
  moreover have "chunks_of 19 (drop 18 c @ [0]) = take 19 (drop 18 c) # chunks_of 19 (drop 37 c @ [0])"
    using assms by (subst chunks_of.simps) simp
  moreover have "chunks_of 19 (0 # c @ [0]) = (0 # take 18 c) # chunks_of 19 (drop 18 c @ [0])"
    using assms by (subst chunks_of.simps) simp
  ultimately show ?thesis by (simp add: test_chunks_def chunk_with_handle_def)
qed

lemma split_test: "split_frames_are_held_until_complete"
proof -
  define c where "c = cobs_encode (build_frame MSG_PROTOBUF_RESPONSE (replicate 40 0x44))"
  have len: "46 \<le> length c" "length c \<le> 47"
    using cobs_encode_bounds [of "build_frame MSG_PROTOBUF_RESPONSE (replicate 40 0x44)"] by (simp_all add: c_def)
  have zero: "0 \<notin> set c" by (simp add: c_def cobs_encode_no_zero)
  then have zeros: "0 \<notin> set (take 18 c)" "0 \<notin> set (take 19 (drop 18 c))" "0 \<notin> set (drop 37 c)"
    by (meson in_set_takeD in_set_dropD)+
  have parts: "take 18 c @ take 19 (drop 18 c) = take 37 c" using take_add [of 18 19 c] by simp
  have kept: "\<not> frame_excluded c" unfolding c_def by (rule response_frame_kept) simp_all
  have frm: "encode_frame MSG_PROTOBUF_RESPONSE (replicate 40 0x44) = 0 # c @ [0]"
    by (simp add: encode_frame_def wrap_cobs_def c_def)
  have f1: "filter_feed (HANDLE # 0 # take 18 c) (0 :: nat) filter_new =
      ([], \<lparr>frame = take 18 c, tainted = False, held = [0]\<rparr>)"
    using zeros len by (intro feed_opening) (auto simp: MAX_FRAME_BYTES_def)
  have f2: "filter_feed (HANDLE # take 19 (drop 18 c)) (Suc 0) \<lparr>frame = take 18 c, tainted = False, held = [0]\<rparr> =
      ([], \<lparr>frame = take 37 c, tainted = False, held = [0, 1]\<rparr>)"
    using zeros len parts by (subst feed_inside) (auto simp: MAX_FRAME_BYTES_def MAX_HELD_CHUNKS_def)
  have f3: "filter_feed (HANDLE # drop 37 c @ [0]) (2 :: nat) \<lparr>frame = take 37 c, tainted = False, held = [0, 1]\<rparr> =
      ([0, 1, 2], filter_new)"
    using zeros len kept by (subst feed_closing) (auto simp: MAX_FRAME_BYTES_def)
  show ?thesis
    unfolding split_frames_are_held_until_complete_def Let_def frm
    using len f1 f2 f3 by (simp add: three_chunks upt_rec numeral_2_eq_2)
qed

lemma bytewise_test: "frame_over_too_many_chunks_is_dropped"
proof -
  define c where "c n = cobs_encode (build_frame MSG_PROTOBUF_RESPONSE (replicate n 0x66))" for n
  have frm: "encode_frame MSG_PROTOBUF_RESPONSE (replicate n 0x66) = 0 # c n @ [0]" for n
    by (simp add: encode_frame_def wrap_cobs_def c_def)
  have len: "n + 6 \<le> length (c n)" "length (c n) \<le> n + 6 + (n + 6) div 254 + 1" for n
    using cobs_encode_bounds [of "build_frame MSG_PROTOBUF_RESPONSE (replicate n 0x66)"] by (simp_all add: c_def)
  have zero: "0 \<notin> set (c n)" for n by (simp add: c_def cobs_encode_no_zero)
  have long: "record_chunks filter_new (test_chunks HANDLE (0 # c 266 @ [0]) 2) = ([[HANDLE, 0]], filter_new)"
    using len [of 266] by (subst bytewise_frame [OF zero]) (auto simp: MAX_FRAME_BYTES_def MAX_HELD_CHUNKS_def)
  have kept: "\<not> frame_excluded (c 246)" unfolding c_def by (rule response_frame_kept) simp_all
  have short: "fst (record_chunks filter_new (test_chunks HANDLE (0 # c 246 @ [0]) 2)) = test_chunks HANDLE (0 # c 246 @ [0]) 2"
    using len [of 246] kept by (subst bytewise_frame [OF zero]) (auto simp: MAX_FRAME_BYTES_def MAX_HELD_CHUNKS_def)
  have "length (test_chunks HANDLE (0 # c 246 @ [0]) 2) \<le> MAX_HELD_CHUNKS"
    using len [of 246] by (simp add: chunks_mtu_2 MAX_HELD_CHUNKS_def)
  moreover have "length (ascii ''ok'') = 2" by (simp add: ascii_def)
  ultimately show ?thesis
    using long short by (simp add: frame_over_too_many_chunks_is_dropped_def Let_def frm response_chunk_kept MAX_HELD_CHUNKS_def)
qed

subsection \<open>A frame too long to be classified\<close>

lemma oversize_test: "oversize_frame_is_dropped_until_the_next_delimiter"
proof -
  define big where "big = cobs_encode (build_frame MSG_PROTOBUF_RESPONSE (replicate MAX_FRAME_BYTES 0x55))"
  define nxt where "nxt = cobs_encode (build_frame MSG_PROTOBUF_RESPONSE (ascii ''next''))"
  let ?cs = "[big, nxt]" and ?rx = "test_chunks HANDLE (frame_stream [big, nxt]) 1024"
  have big: "8198 \<le> length big" "length big \<le> 8231"
    using cobs_encode_bounds [of "build_frame MSG_PROTOBUF_RESPONSE (replicate MAX_FRAME_BYTES 0x55)"]
    by (simp_all add: big_def MAX_FRAME_BYTES_def)
  have nxt: "10 \<le> length nxt" "length nxt \<le> 11"
    using cobs_encode_bounds [of "build_frame MSG_PROTOBUF_RESPONSE (ascii ''next'')"]
    by (simp_all add: nxt_def ascii_def)
  have zero: "\<forall>c \<in> set ?cs. 0 \<notin> set c" by (simp add: big_def nxt_def cobs_encode_no_zero)
  have len: "length ?rx = 9"
    using big nxt by (subst length_test_chunks) (auto simp: frame_stream_def intro!: div_nat_eqI)
  have forb: "forbidden big" using big(1) by (auto simp: forbidden_def MAX_FRAME_BYTES_def)
  have "\<not> untouched ?cs 1023 k" if "k < 9" for k
  proof -
    have "k * 1023 \<le> 8 * 1023" using that by (intro mult_le_mono) simp_all
    then show ?thesis using forb big by (simp add: untouched_def)
  qed
  then have run: "record_chunks filter_new ?rx = ([], filter_new)"
    using traffic_then_ready [OF zero, of 1024 HANDLE] len by (simp add: MAX_HELD_CHUNKS_def)
  have "encode_frame MSG_PROTOBUF_RESPONSE (replicate MAX_FRAME_BYTES 0x55) @
      encode_frame MSG_PROTOBUF_RESPONSE (ascii ''next'') = frame_stream ?cs"
    by (simp add: encode_frame_def wrap_cobs_def frame_stream_def big_def nxt_def)
  moreover have "?rx \<noteq> []" using len by (metis list.size(3) zero_neq_numeral)
  moreover have "length (ascii ''next'') = 4" by (simp add: ascii_def)
  ultimately show ?thesis
    by (simp add: oversize_frame_is_dropped_until_the_next_delimiter_def Let_def run response_chunk_kept)
qed

subsection \<open>The identity does not leak\<close>

text \<open>Both identity strings have the digit e in hexadecimal; no byte of the other frames has.\<close>

definition no_e :: "bytes \<Rightarrow> bool" where
  "no_e bs \<longleftrightarrow> list_all (\<lambda>b. CHR ''e'' \<notin> set (hex2 b)) bs"

lemma identity_has_e: "CHR ''e'' \<in> set (hex (le32 DEVICE_INFO_UNIT_ID))" "CHR ''e'' \<in> set (hex DEVICE_INFO_NAME)"
  by code_simp+

lemma no_e_no_leak:
  assumes "\<forall>c \<in> set cs. no_e c"
  shows "\<not> sublist (hex (le32 DEVICE_INFO_UNIT_ID)) (concat (map hex cs))"
    "\<not> sublist (hex DEVICE_INFO_NAME) (concat (map hex cs))"
proof -
  have "CHR ''e'' \<notin> set (concat (map hex cs))"
    using assms by (fastforce simp: hex_def no_e_def list_all_iff)
  then show "\<not> sublist (hex (le32 DEVICE_INFO_UNIT_ID)) (concat (map hex cs))"
    "\<not> sublist (hex DEVICE_INFO_NAME) (concat (map hex cs))"
    using identity_has_e by (meson set_mono_sublist subsetD)+
qed

definition shot_bytes :: "bytes list" where
  "shot_bytes = map (\<lambda>p. cobs_encode (build_frame MSG_PROTOBUF_RESPONSE p))
     [replicate 30 0x11, replicate 30 0x22, ascii ''before'', ascii ''after'']"

lemma shot_frames:
  "cobs_encode (build_frame MSG_PROTOBUF_RESPONSE (replicate 30 0x11)) =
     [2, 36, 35, 180, 19] @ replicate 30 17 @ [70, 150]"
  "cobs_encode (build_frame MSG_PROTOBUF_RESPONSE (replicate 30 0x22)) =
     [2, 36, 35, 180, 19] @ replicate 30 34 @ [184, 25]"
  "cobs_encode (build_frame MSG_PROTOBUF_RESPONSE (ascii ''before'')) =
     [2, 12, 11, 180, 19, 98, 101, 102, 111, 114, 101, 102, 45]"
  "cobs_encode (build_frame MSG_PROTOBUF_RESPONSE (ascii ''after'')) =
     [2, 11, 10, 180, 19, 97, 102, 116, 101, 114, 205, 183]"
proof -
  have rep: "replicate 30 x = [x, x, x, x, x, x, x, x, x, x, x, x, x, x, x, x, x, x, x, x, x, x, x, x, x, x, x, x, x, x]" for x :: u8
    by (simp add: numeral_eq_Suc)
  have f: "build_frame MSG_PROTOBUF_RESPONSE (replicate 30 0x11) = [36, 0, 180, 19] @ replicate 30 17 @ [70, 150]"
    "build_frame MSG_PROTOBUF_RESPONSE (replicate 30 0x22) = [36, 0, 180, 19] @ replicate 30 34 @ [184, 25]"
    "build_frame MSG_PROTOBUF_RESPONSE (ascii ''before'') = [12, 0, 180, 19, 98, 101, 102, 111, 114, 101, 102, 45]"
    "build_frame MSG_PROTOBUF_RESPONSE (ascii ''after'') = [11, 0, 180, 19, 97, 102, 116, 101, 114, 205, 183]"
    by (simp_all add: rep build_frame_def Let_def crc16_def le16_def msg_defs ascii_def, simp_all add: crc_byte_def crc_table_def)
  show "cobs_encode (build_frame MSG_PROTOBUF_RESPONSE (replicate 30 0x11)) =
     [2, 36, 35, 180, 19] @ replicate 30 17 @ [70, 150]"
  "cobs_encode (build_frame MSG_PROTOBUF_RESPONSE (replicate 30 0x22)) =
     [2, 36, 35, 180, 19] @ replicate 30 34 @ [184, 25]"
  "cobs_encode (build_frame MSG_PROTOBUF_RESPONSE (ascii ''before'')) =
     [2, 12, 11, 180, 19, 98, 101, 102, 111, 114, 101, 102, 45]"
  "cobs_encode (build_frame MSG_PROTOBUF_RESPONSE (ascii ''after'')) =
     [2, 11, 10, 180, 19, 97, 102, 116, 101, 114, 205, 183]"
    unfolding f by code_simp+
qed

lemma shots_no_e: "list_all no_e shot_bytes"
  unfolding shot_bytes_def list.map shot_frames by code_simp

lemma info_frame:
  obtains p where "device_info_frame = encode_frame MSG_DEVICE_INFO p" "length p = 48"
  by (rule that) (simp_all only: device_info_frame_def Let_def, simp add: DEVICE_INFO_NAME_def ascii_def)

lemma info_forbidden: "length p = 48 \<Longrightarrow> forbidden (cobs_encode (build_frame MSG_DEVICE_INFO p))"
  using identity_frames_excluded [of MSG_DEVICE_INFO p 0]
  by (simp add: forbidden_def type_carries_identity_def)

lemma no_e_zero: "no_e [0]" by code_simp

lemma recorded_no_e:
  assumes cs: "\<forall>c \<in> set cs. 0 \<notin> set c" "\<forall>c \<in> set cs. forbidden c \<or> no_e c"
    and m: "2 \<le> mtu" and len: "length (frame_stream cs) \<le> 256"
    and c: "c \<in> set (fst (record_chunks filter_new (test_chunks h (frame_stream cs) mtu)))"
  shows "no_e (drop 1 c)"
proof -
  obtain k where k: "k < length (test_chunks h (frame_stream cs) mtu)" "untouched cs (mtu - 1) k"
      "c = test_chunks h (frame_stream cs) mtu ! k"
    using c unfolding traffic_recorded [OF cs(1) m short_traffic_fits [OF m len]] by auto
  have "CHR ''e'' \<notin> set (hex2 b)" if "b \<in> set (drop 1 c)" for b
    using untouched_bytes [OF m k(1,2)] that cs(2) no_e_zero unfolding k(3) no_e_def list_all_iff by fastforce
  then show ?thesis by (simp add: no_e_def list_all_iff)
qed

lemma test_chunks_handle: "c \<in> set (test_chunks h bs mtu) \<Longrightarrow> c = h # drop 1 c"
  by (auto simp: test_chunks_def chunk_with_handle_def Let_def split: if_splits)

lemma recorded_subset: "set (fst (record_chunks filter_new chunks)) \<subseteq> set chunks"
proof -
  have "set (released chunks) \<subseteq> {..<length chunks}"
    using released_ascending [of chunks] set_nths_subset by (fastforce simp: subseq_conv_nths)
  then show ?thesis by (auto simp: record_released)
qed

lemma leak_test: "unit_id_never_leaks_at_any_mtu"
proof -
  obtain p where p: "device_info_frame = encode_frame MSG_DEVICE_INFO p" "length p = 48" by (rule info_frame)
  let ?cs = "[cobs_encode (build_frame MSG_PROTOBUF_RESPONSE (ascii ''before'')),
    cobs_encode (build_frame MSG_DEVICE_INFO p), cobs_encode (build_frame MSG_PROTOBUF_RESPONSE (ascii ''after''))]"
  have stream: "encode_frame MSG_PROTOBUF_RESPONSE (ascii ''before'') @ device_info_frame @
      encode_frame MSG_PROTOBUF_RESPONSE (ascii ''after'') = frame_stream ?cs"
    by (simp add: p(1) encode_frame_def wrap_cobs_def frame_stream_def)
  have cs: "\<forall>c \<in> set ?cs. 0 \<notin> set c" "\<forall>c \<in> set ?cs. forbidden c \<or> no_e c"
    using shots_no_e info_forbidden [OF p(2)] by (simp_all add: cobs_encode_no_zero shot_bytes_def)
  have len: "length (frame_stream ?cs) \<le> 256"
    using cobs_encode_bounds(2) [of "build_frame MSG_DEVICE_INFO p"] p(2) by (simp add: frame_stream_def shot_frames)
  have "\<not> sublist (hex (le32 DEVICE_INFO_UNIT_ID))
        (concat (map (\<lambda>c. hex (drop 1 c)) (fst (record_chunks filter_new (test_chunks HANDLE (frame_stream ?cs) m))))) \<and>
      \<not> sublist (hex DEVICE_INFO_NAME)
        (concat (map (\<lambda>c. hex (drop 1 c)) (fst (record_chunks filter_new (test_chunks HANDLE (frame_stream ?cs) m)))))"
    if "2 \<le> m" for m
  proof -
    have "\<forall>c \<in> set (map (drop 1) (fst (record_chunks filter_new (test_chunks HANDLE (frame_stream ?cs) m)))). no_e c"
      using recorded_no_e [OF cs that len, of _ HANDLE] by (simp only: set_map ball_simps) blast
    from no_e_no_leak [OF this] show ?thesis unfolding map_map comp_def by blast
  qed
  then show ?thesis
    unfolding unit_id_never_leaks_at_any_mtu_def stream Let_def list_all_iff by (metis atLeastLessThan_iff set_upt)
qed

lemma reply_test:
  "record_chunks filter_new (test_chunks HANDLE (ack_frame MSG_DEVICE_INFO 0 [0xAA, 0xBB]) 20 @
     [with_handle HANDLE (ack_frame MSG_PROTOBUF_RESPONSE 0 [])]) =
   ([with_handle HANDLE (ack_frame MSG_PROTOBUF_RESPONSE 0 [])], filter_new)"
  "no_e (with_handle HANDLE (ack_frame MSG_PROTOBUF_RESPONSE 0 []))"
proof -
  have ack: "build_ack MSG_PROTOBUF_RESPONSE 0 [] = [9, 0, 136, 19, 180, 19, 0, 48, 141]"
    by (simp add: build_ack_def build_frame_def Let_def crc16_def le16_def msg_defs, simp add: crc_byte_def crc_table_def)
  show "no_e (with_handle HANDLE (ack_frame MSG_PROTOBUF_RESPONSE 0 []))"
    unfolding ack_frame_def ack by code_simp
  have kept: "\<not> frame_excluded (cobs_encode (build_ack MSG_PROTOBUF_RESPONSE 0 []))"
    unfolding excluded_lossless [of "build_ack MSG_PROTOBUF_RESPONSE 0 []", unfolded ack, simplified, folded ack]
    by (simp add: build_ack_parse frame_carries_identity_def acked_type_def type_carries_identity_def msg_defs le16_def of_le16_def)
  define r where "r = cobs_encode (build_ack MSG_DEVICE_INFO 0 [0xAA, 0xBB])"
  have len: "length r \<le> 12" using cobs_encode_bounds(2) [of "build_ack MSG_DEVICE_INFO 0 [0xAA, 0xBB]"] by (simp add: r_def build_ack_def)
  have reply: "ack_frame MSG_DEVICE_INFO 0 [0xAA, 0xBB] = frame_stream [r]"
    by (simp add: ack_frame_def wrap_cobs_def frame_stream_def r_def)
  have "forbidden r"
    using identity_frames_excluded [of MSG_DEVICE_INFO "[0xAA, 0xBB]" 0]
    by (simp add: forbidden_def type_carries_identity_def r_def build_ack_def)
  moreover have "length (test_chunks HANDLE (frame_stream [r]) 20) = 1"
    using len by (subst length_test_chunks) (auto simp: frame_stream_def intro!: div_nat_eqI)
  ultimately have "record_chunks filter_new (test_chunks HANDLE (frame_stream [r]) 20) = ([], filter_new)"
    using traffic_then_ready [of "[r]" 20 HANDLE]
    by (simp add: r_def cobs_encode_no_zero MAX_HELD_CHUNKS_def untouched_def)
  then show "record_chunks filter_new (test_chunks HANDLE (ack_frame MSG_DEVICE_INFO 0 [0xAA, 0xBB]) 20 @
     [with_handle HANDLE (ack_frame MSG_PROTOBUF_RESPONSE 0 [])]) =
   ([with_handle HANDLE (ack_frame MSG_PROTOBUF_RESPONSE 0 [])], filter_new)"
    unfolding reply using kept by (simp add: record_append record_simps ack_frame_def feed_wrapped ack)
qed

lemma recorded_test: "device_traffic_recorded"
proof -
  obtain p where p: "device_info_frame = encode_frame MSG_DEVICE_INFO p" "length p = 48" by (rule info_frame)
  define c1 where "c1 = cobs_encode (build_frame MSG_PROTOBUF_RESPONSE (replicate 30 0x11))"
  define c2 where "c2 = cobs_encode (build_frame MSG_PROTOBUF_RESPONSE (replicate 30 0x22))"
  define i where "i = cobs_encode (build_frame MSG_DEVICE_INFO p)"
  let ?rx = "test_chunks HANDLE (frame_stream [c1, i, c2]) 20"
  have len: "length c1 = 37" "length c2 = 37" "length i = 54 \<or> length i = 55"
    using cobs_encode_bounds [of "build_frame MSG_DEVICE_INFO p"] p(2) by (auto simp: c1_def c2_def i_def shot_frames)
  have cs: "\<forall>c \<in> set [c1, i, c2]. 0 \<notin> set c" "\<forall>c \<in> set [c1, i, c2]. forbidden c \<or> no_e c"
    using shots_no_e info_forbidden [OF p(2)] by (simp_all add: cobs_encode_no_zero shot_bytes_def c1_def c2_def i_def)
  have forb: "forbidden i" "\<not> forbidden c1" "\<not> forbidden c2"
    using info_forbidden [OF p(2)] len(1,2)
    by (simp_all add: forbidden_def c1_def c2_def i_def response_frame_kept MAX_FRAME_BYTES_def)
  have frames: "encode_frame MSG_PROTOBUF_RESPONSE (replicate 30 0x11) = 0 # c1 @ [0]"
    "encode_frame MSG_PROTOBUF_RESPONSE (replicate 30 0x22) = 0 # c2 @ [0]" "device_info_frame = 0 # i @ [0]"
    by (simp_all add: p(1) encode_frame_def wrap_cobs_def c1_def c2_def i_def)
  have stream: "(0 # c1 @ [0]) @ (0 # i @ [0]) @ 0 # c2 @ [0] = frame_stream [c1, i, c2]"
    by (simp add: frame_stream_def)
  have l8: "length ?rx = 8"
    using len by (subst length_test_chunks) (auto simp: frame_stream_def intro!: div_nat_eqI)
  let ?P = "\<lambda>k. (k + 1) * 19 \<le> length (0 # c1 @ [0]) + 1 \<or> length (0 # c1 @ [0]) + length (0 # i @ [0]) \<le> k * 19"
  have "untouched [c1, i, c2] 19 k \<longleftrightarrow> ?P k" for k
    using forb by (simp add: untouched_def)
  then have un: "untouched [c1, i, c2] 19 = ?P" by blast
  have got: "fst (record_chunks filter_new ?rx) = map ((!) ?rx) (filter ?P [0..<8])"
    using traffic_recorded [OF cs(1), of 20 HANDLE] unfolding l8 by (simp only: un [symmetric], simp add: MAX_HELD_CHUNKS_def)
  have expected: "map snd (filter (\<lambda>(k, c). Q k) (enumerate 0 xs)) = map ((!) xs) (filter Q [0..<length xs])" for Q and xs :: "bytes list"
  proof -
    have "enumerate 0 xs = map (\<lambda>k. (k, xs ! k)) [0..<length xs]"
      by (rule nth_equalityI) (simp_all add: nth_enumerate_eq)
    then show ?thesis by (simp add: filter_map comp_def)
  qed
  have count: "4 \<le> length (filter ?P [0..<8]) \<and> length (filter ?P [0..<8]) < 8"
  proof -
    have "[0..<8] = [0, 1, 2, 3, 4, 5, 6, 7 :: nat]" by code_simp
    then show ?thesis using len(3) by (elim disjE) (simp_all add: len(1))
  qed
  have "\<forall>c \<in> set (fst (record_chunks filter_new ?rx)). no_e c"
  proof
    fix c assume c: "c \<in> set (fst (record_chunks filter_new ?rx))"
    have "no_e (drop 1 c)"
      by (rule recorded_no_e [OF cs _ _ c]) (use len in \<open>auto simp: frame_stream_def\<close>)
    moreover obtain bs where "c = HANDLE # bs" using c recorded_subset test_chunks_handle by blast
    moreover have "no_e [HANDLE]" by code_simp
    ultimately show "no_e c" by (simp add: no_e_def)
  qed
  then have "\<forall>c \<in> set (fst (record_chunks filter_new ?rx) @ [with_handle HANDLE (ack_frame MSG_PROTOBUF_RESPONSE 0 [])]). no_e c"
    using reply_test(2) by auto
  note leak = no_e_no_leak [OF this]
  show ?thesis
    unfolding device_traffic_recorded_def Let_def frames stream reply_test(1) expected got [symmetric] l8
    using count leak unfolding got [symmetric] map_append concat_append by (simp only: got length_map fst_conv simp_thms)
qed

subsection \<open>Properties\<close>

text \<open>C19: the model passes the crate's own tests of the identity filter: what is recorded of the synthetic traffic, that
  neither the unit id nor the device's name can be read off it at any chunk size, and the treatment of
  damaged, split, compressed, oversized and garbage frames.\<close>

theorem capture_tests_pass:
  "device_traffic_recorded \<and> unit_id_never_leaks_at_any_mtu \<and> unclassifiable_frames_are_excluded \<and>
   whole_frames_are_released_at_once \<and> split_frames_are_held_until_complete \<and>
   compressed_header_frames_are_classified \<and> ack_without_acked_type_is_excluded \<and>
   oversize_frame_is_dropped_until_the_next_delimiter \<and> frame_over_too_many_chunks_is_dropped \<and> garbage_is_dropped"
  by (simp only: recorded_test leak_test unclassifiable_test whole_test split_test compressed_test ack_test oversize_test
      bytewise_test garbage_test simp_thms)

end
