(* ===== verification/Stream_Buffer.thy ===== *)
theory Stream_Buffer
  imports Gfdi_Frame
begin

text \<open>
  \<open>StreamBuffer\<close> of \<open>src/gfdi.rs\<close>: BLE notifications are appended to a buffer of at most 64 KB,
  and \<open>next_frame\<close> takes the next zero-delimited COBS frame off its front. \<open>scan_stream\<close> is the
  same extraction as a two-state scanner over single bytes; \<open>drain\<close> is the client's repeated
  \<open>next_frame\<close>. The locale \<open>delimited_codec\<close> states what the stream needs of the encoding.
\<close>

named_theorems stream_simps "extraction from the stream"

subsection \<open>The code\<close>

record stream_buffer =
  buf :: bytes

definition STREAM_BUFFER_MAX :: nat where
  "STREAM_BUFFER_MAX = 64 * 1024"

definition stream_new :: stream_buffer where
  "stream_new = \<lparr>buf = []\<rparr>"

definition stream_extend :: "bytes \<Rightarrow> stream_buffer \<Rightarrow> (error + unit) \<times> stream_buffer" where
  "stream_extend data sb =
     (if length (buf sb) + length data > STREAM_BUFFER_MAX
      then let sb' = sb\<lparr>buf := []\<rparr>
           in (Inl (FrameTooShort (length (buf sb') + length data) 0), sb')
      else (Inr (), sb\<lparr>buf := buf sb @ data\<rparr>))"

function next_frame :: "stream_buffer \<Rightarrow> (error + gfdi_frame) option \<times> stream_buffer" where
  "next_frame sb =
     (case position (\<lambda>b. b = 0x00) (buf sb) of
        None \<Rightarrow> (None, sb)
      | Some start \<Rightarrow>
          (case position (\<lambda>b. b = 0x00) (drop (start + 1) (buf sb)) of
             None \<Rightarrow> (None, sb)
           | Some rel_end \<Rightarrow>
               let stop = start + 1 + rel_end;
                   cobs_data = subrange (buf sb) (start + 1) stop;
                   consumed = stop + 1
               in if cobs_data = []
                  then next_frame (sb\<lparr>buf := drop consumed (buf sb)\<rparr>)
                  else (Some (parse_cobs_frame cobs_data), sb\<lparr>buf := drop consumed (buf sb)\<rparr>)))"
  by pat_completeness auto
termination
  by (relation "measure (\<lambda>sb. length (buf sb))") (auto simp: position_Some_iff)

declare next_frame.simps [simp del]

subsection \<open>Draining the buffer\<close>

text \<open>Where the two delimiters are: either at most one is in the buffer, or the buffer splits around
  the first two.\<close>

lemma two_delimiters:
  fixes bs :: bytes
  obtains (none) g where "0 \<notin> set g" "bs = g"
  | (one) g c where "0 \<notin> set g" "0 \<notin> set c" "bs = g @ 0 # c"
  | (two) g c rest where "0 \<notin> set g" "0 \<notin> set c" "bs = g @ 0 # c @ 0 # rest"
  by (metis split_list_first)

lemma next_frame_none: "0 \<notin> set g \<Longrightarrow> buf sb = g \<Longrightarrow> next_frame sb = (None, sb)"
proof -
  assume "0 \<notin> set g" "buf sb = g"
  then have "position (\<lambda>b. b = 0) (buf sb) = None" by (auto simp: position_None_iff)
  then show ?thesis by (subst next_frame.simps) simp
qed

lemma next_frame_one:
  "0 \<notin> set g \<Longrightarrow> 0 \<notin> set c \<Longrightarrow> buf sb = g @ 0 # c \<Longrightarrow> next_frame sb = (None, sb)"
proof -
  assume g: "0 \<notin> set g" and c: "0 \<notin> set c" and sb: "buf sb = g @ 0 # c"
  then have "position (\<lambda>b. b = 0) (buf sb) = Some (length g)"
    using position_hit [of g "\<lambda>b. b = 0" 0 c] by auto
  moreover have "position (\<lambda>b. b = 0) c = None"
    using c by (auto simp: position_None_iff)
  ultimately show ?thesis by (subst next_frame.simps) (simp add: sb)
qed

lemma next_frame_two:
  assumes "0 \<notin> set g" "0 \<notin> set c" "buf sb = g @ 0 # c @ 0 # rest"
  shows "next_frame sb =
    (if c = [] then next_frame \<lparr>buf = rest\<rparr> else (Some (parse_cobs_frame c), \<lparr>buf = rest\<rparr>))"
proof -
  have "position (\<lambda>b. b = 0) (buf sb) = Some (length g)"
    using position_hit [of g "\<lambda>b. b = 0" 0 "c @ 0 # rest"] assms by auto
  moreover have "position (\<lambda>b. b = 0) (c @ 0 # rest) = Some (length c)"
    using position_hit [of c "\<lambda>b. b = 0" 0 rest] assms(2) by auto
  moreover have upd: "sb\<lparr>buf := r\<rparr> = \<lparr>buf = r\<rparr>" for r by (cases sb) simp
  ultimately show ?thesis
    by (subst next_frame.simps) (simp add: assms(3) Let_def subrange_def upd)
qed

lemma next_frame_shrinks: "next_frame sb = (Some r, sb') \<Longrightarrow> length (buf sb') < length (buf sb)"
proof (induction "length (buf sb)" arbitrary: sb rule: less_induct)
  case less
  show ?case
  proof (cases "buf sb" rule: two_delimiters)
    case (two g c rest)
    show ?thesis
    proof (cases "c = []")
      case True
      then have "next_frame \<lparr>buf = rest\<rparr> = (Some r, sb')"
        using less.prems next_frame_two [OF two(1,2), of sb rest] two by simp
      then have "length (buf sb') < length rest"
        using less.hyps [of "\<lparr>buf = rest\<rparr>"] two(3) by simp
      then show ?thesis using two(3) by simp
    next
      case False
      then show ?thesis
        using less.prems next_frame_two [OF two(1,2), of sb rest] two by auto
    qed
  qed (use less.prems next_frame_none next_frame_one in fastforce)+
qed

function drain :: "stream_buffer \<Rightarrow> (error + gfdi_frame) list \<times> stream_buffer" where
  "drain sb =
     (case next_frame sb of
        (None, sb') \<Rightarrow> ([], sb')
      | (Some r, sb') \<Rightarrow> (let (rs, sb'') = drain sb' in (r # rs, sb'')))"
  by pat_completeness auto
termination
  by (relation "measure (\<lambda>sb. length (buf sb))") (auto dest: next_frame_shrinks [OF sym])

declare drain.simps [simp del]

subsection \<open>The scanner\<close>

text \<open>\<open>None\<close>: before an opening delimiter; \<open>Some acc\<close>: inside a frame, with the bytes so far. An
  empty frame closes as a full one does: both delimiters are used up.\<close>

fun scan_stream :: "bytes option \<Rightarrow> bytes \<Rightarrow> bytes list \<times> bytes option" where
  "scan_stream st [] = ([], st)"
| "scan_stream None (b # bs) = scan_stream (if b = 0 then Some [] else None) bs"
| "scan_stream (Some acc) (b # bs) =
     (if b \<noteq> 0 then scan_stream (Some (acc @ [b])) bs
      else if acc = [] then scan_stream None bs
      else (let (fs, st) = scan_stream None bs in (acc # fs, st)))"

lemma scan_stream_append:
  "scan_stream st (xs @ ys) =
     (let (fs, st') = scan_stream st xs; (gs, st'') = scan_stream st' ys in (fs @ gs, st''))"
  by (induction st xs rule: scan_stream.induct) (auto split: prod.splits)

lemma scan_stream_inside:
  "0 \<notin> set c \<Longrightarrow> scan_stream (Some acc) (c @ bs) = scan_stream (Some (acc @ c)) bs"
  by (induction c arbitrary: acc) auto

lemma scan_stream_outside: "0 \<notin> set g \<Longrightarrow> scan_stream None (g @ bs) = scan_stream None bs"
  by (induction g) auto

lemma scan_stream_two [stream_simps]:
  "0 \<notin> set g \<Longrightarrow> 0 \<notin> set c \<Longrightarrow> scan_stream None (g @ 0 # c @ 0 # rest) =
     (if c = [] then scan_stream None rest
      else (c # fst (scan_stream None rest), snd (scan_stream None rest)))"
  by (simp add: scan_stream_outside scan_stream_inside split: prod.splits)

lemma scan_stream_one [stream_simps]:
  "0 \<notin> set g \<Longrightarrow> 0 \<notin> set c \<Longrightarrow> scan_stream None (g @ 0 # c) = ([], Some c)"
  using scan_stream_inside [of c "[]" "[]"] by (simp add: scan_stream_outside)

lemma scan_stream_none [stream_simps]: "0 \<notin> set g \<Longrightarrow> scan_stream None g = ([], None)"
  using scan_stream_outside [of g "[]"] by simp

lemma next_frame_None_scan:
  "next_frame sb = (None, sb') \<Longrightarrow>
   fst (scan_stream None (buf sb)) = [] \<and> scan_stream None (buf sb') = scan_stream None (buf sb)"
proof (induction "length (buf sb)" arbitrary: sb rule: less_induct)
  case less
  show ?case
  proof (cases "buf sb" rule: two_delimiters)
    case (none g)
    then show ?thesis using less.prems by (simp add: next_frame_none stream_simps)
  next
    case (one g c)
    then show ?thesis using less.prems by (simp add: next_frame_one stream_simps)
  next
    case (two g c rest)
    then show ?thesis
      using less.hyps [of "\<lparr>buf = rest\<rparr>"] less.prems next_frame_two [OF two] stream_simps(1) [OF two(1,2)]
      by (simp split: if_splits)
  qed
qed

lemma next_frame_Some_scan:
  "next_frame sb = (Some r, sb') \<Longrightarrow>
   \<exists>c. r = parse_cobs_frame c \<and>
       scan_stream None (buf sb) = (c # fst (scan_stream None (buf sb')), snd (scan_stream None (buf sb')))"
proof (induction "length (buf sb)" arbitrary: sb rule: less_induct)
  case less
  show ?case
  proof (cases "buf sb" rule: two_delimiters)
    case (two g c rest)
    then show ?thesis
      using less.hyps [of "\<lparr>buf = rest\<rparr>"] less.prems next_frame_two [OF two] stream_simps(1) [OF two(1,2)]
      by (auto split: if_splits)
  qed (use less.prems next_frame_none next_frame_one in fastforce)+
qed

lemma drain_scan:
  "fst (drain sb) = map parse_cobs_frame (fst (scan_stream None (buf sb))) \<and>
   scan_stream None (buf (snd (drain sb))) = ([], snd (scan_stream None (buf sb)))"
proof (induction sb rule: drain.induct)
  case (1 sb)
  show ?case
  proof (cases "next_frame sb")
    case (Pair r sb')
    show ?thesis
    proof (cases r)
      case None
      have d: "drain sb = ([], sb')" using Pair None by (subst drain.simps) simp
      show ?thesis
        unfolding d using next_frame_None_scan [of sb sb'] Pair None by (simp add: prod_eq_iff)
    next
      case (Some x)
      have d: "drain sb = (x # fst (drain sb'), snd (drain sb'))"
        using Pair Some by (subst drain.simps) (simp split: prod.splits)
      obtain c where "x = parse_cobs_frame c"
          "scan_stream None (buf sb) = (c # fst (scan_stream None (buf sb')), snd (scan_stream None (buf sb')))"
        using next_frame_Some_scan [of sb x sb'] Pair Some by auto
      then show ?thesis
        unfolding d using 1 [OF Pair [symmetric] Some] Pair Some by simp
    qed
  qed
qed

subsection \<open>Bounds\<close>

lemma stream_extend_bound: "length (buf (snd (stream_extend data sb))) \<le> STREAM_BUFFER_MAX"
  by (simp add: stream_extend_def)

lemma next_frame_bound: "length (buf (snd (next_frame sb))) \<le> length (buf sb)"
proof (cases "next_frame sb")
  case (Pair r sb')
  show ?thesis
  proof (cases r)
    case (Some x)
    then show ?thesis using next_frame_shrinks Pair by fastforce
  next
    case None
    then show ?thesis
      using Pair
    proof (induction "length (buf sb)" arbitrary: sb rule: less_induct)
      case less
      show ?case
      proof (cases "buf sb" rule: two_delimiters)
        case (two g c rest)
        then show ?thesis
          using less.hyps [of "\<lparr>buf = rest\<rparr>"] less.prems next_frame_two [OF two] by (auto split: if_splits)
      qed (auto simp: next_frame_none next_frame_one)
    qed
  qed
qed

lemma drain_bound: "length (buf (snd (drain sb))) \<le> length (buf sb)"
proof (induction sb rule: drain.induct)
  case (1 sb)
  have "snd (drain sb) = (case next_frame sb of (None, sb') \<Rightarrow> sb' | (Some r, sb') \<Rightarrow> snd (drain sb'))"
    by (subst drain.simps) (simp split: prod.splits option.splits)
  then show ?case
    using 1 next_frame_bound [of sb] by (fastforce split: prod.splits option.splits)
qed

lemma stream_overflow:
  "length (buf sb) + length data > STREAM_BUFFER_MAX \<Longrightarrow>
   stream_extend data sb = (Inl (FrameTooShort (length data) 0), \<lparr>buf = []\<rparr>)"
  by (cases sb) (simp add: stream_extend_def)

lemma stream_fits:
  "length (buf sb) + length data \<le> STREAM_BUFFER_MAX \<Longrightarrow>
   stream_extend data sb = (Inr (), \<lparr>buf = buf sb @ data\<rparr>)"
  by (cases sb) (simp add: stream_extend_def)

subsection \<open>Chunks do not matter\<close>

text \<open>Append each chunk and drain, as the client does with the notifications it receives.\<close>

fun feed_chunks :: "bytes list \<Rightarrow> stream_buffer \<Rightarrow> (error + gfdi_frame) list \<times> stream_buffer" where
  "feed_chunks [] sb = ([], sb)"
| "feed_chunks (c # cs) sb =
     (case stream_extend c sb of
        (Inl e, sb1) \<Rightarrow> (let (rs, sb2) = feed_chunks cs sb1 in (Inl e # rs, sb2))
      | (Inr _, sb1) \<Rightarrow>
          (let (rs, sb2) = drain sb1; (rs', sb3) = feed_chunks cs sb2 in (rs @ rs', sb3)))"

lemma feed_chunks_scan:
  "length (buf sb) + length (concat cs) \<le> STREAM_BUFFER_MAX \<Longrightarrow>
   fst (scan_stream None (buf sb)) = [] \<Longrightarrow>
   fst (feed_chunks cs sb) = map parse_cobs_frame (fst (scan_stream None (buf sb @ concat cs))) \<and>
   scan_stream None (buf (snd (feed_chunks cs sb))) = ([], snd (scan_stream None (buf sb @ concat cs)))"
proof (induction cs arbitrary: sb)
  case Nil
  then show ?case by (simp add: prod_eq_iff)
next
  case (Cons c cs)
  let ?sb1 = "\<lparr>buf = buf sb @ c\<rparr>"
  define sb2 where "sb2 = snd (drain ?sb1)"
  note d = drain_scan [of ?sb1, folded sb2_def]
  have "length (buf sb2) \<le> length (buf sb) + length c"
    using drain_bound [of ?sb1] by (simp add: sb2_def)
  then have "length (buf sb2) + length (concat cs) \<le> STREAM_BUFFER_MAX"
    using Cons.prems(1) by simp
  then have ih: "fst (feed_chunks cs sb2) = map parse_cobs_frame (fst (scan_stream None (buf sb2 @ concat cs)))"
      "scan_stream None (buf (snd (feed_chunks cs sb2))) = ([], snd (scan_stream None (buf sb2 @ concat cs)))"
    using Cons.IH [of sb2] d by auto
  have ext: "stream_extend c sb = (Inr (), ?sb1)"
    using Cons.prems(1) by (intro stream_fits) simp
  have step: "feed_chunks (c # cs) sb =
      (fst (drain ?sb1) @ fst (feed_chunks cs sb2), snd (feed_chunks cs sb2))"
    by (simp add: ext sb2_def split: prod.splits)
  show ?case
    using ih d unfolding step
    by (simp add: scan_stream_append [of None "buf sb @ c" "concat cs", simplified]
        scan_stream_append [of None "buf sb2"] split: prod.splits)
qed

subsection \<open>Streams of wrapped frames\<close>

text \<open>The contract between the framing and the encoding: encoded data holds no delimiter and is never
  empty, because the stream takes two adjacent delimiters for an empty frame.\<close>

locale delimited_codec =
  fixes enc :: "'a \<Rightarrow> bytes"
  assumes zero_free: "0 \<notin> set (enc x)"
    and nonempty: "enc x \<noteq> []"
begin

definition wire :: "'a list \<Rightarrow> bytes" where
  "wire xs = concat (map (\<lambda>x. [0] @ enc x @ [0]) xs)"

lemma wire_simps [simp]:
  "wire [] = []" "wire (x # xs) = 0 # enc x @ 0 # wire xs"
  by (simp_all add: wire_def)

lemma scan_wire: "scan_stream None (wire xs) = (map enc xs, None)"
proof (induction xs)
  case (Cons x xs)
  then show ?case
    using scan_stream_two [of "[]" "enc x" "wire xs"] zero_free [of x] nonempty [of x] by simp
qed simp

text \<open>After a stray delimiter every frame is taken for the gap between two frames.\<close>

lemma scan_wire_desync: "scan_stream (Some []) (wire xs) = ([], Some [])"
proof (induction xs)
  case (Cons x xs)
  then show ?case
    using scan_stream_outside [of "enc x" "0 # wire xs"] zero_free [of x] by simp
qed simp

end

interpretation frames: delimited_codec "\<lambda>(mt, p). cobs_encode (build_frame mt p)"
  by unfold_locales (auto simp: cobs_encode_no_zero cobs_encode_Nil_iff split: prod.splits)

lemma frames_wire: "frames.wire ms = concat (map (\<lambda>(mt, p). wrap_cobs (build_frame mt p)) ms)"
  by (induction ms) (auto simp: wrap_cobs_def)

subsection \<open>Properties\<close>

text \<open>C13: how the byte stream is cut into notifications does not matter: within the 64 KB bound,
  appending and draining chunk by chunk gives the frames (and the parse errors) that draining the
  concatenation gives, in order.\<close>

theorem chunk_boundaries_irrelevant:
  assumes "length (concat cs) \<le> STREAM_BUFFER_MAX"
  shows "fst (feed_chunks cs stream_new) = fst (drain \<lparr>buf = concat cs\<rparr>)"
  using feed_chunks_scan [of stream_new cs] drain_scan [of "\<lparr>buf = concat cs\<rparr>"] assms
  by (simp add: stream_new_def)

theorem chunk_boundaries_irrelevant_witness:
  "fst (feed_chunks [[0, 2], [7], [5, 0xA0, 0x13, 0x74], [0xB8, 0xF5, 0]] stream_new) =
   fst (drain \<lparr>buf = [0, 2, 7, 5, 0xA0, 0x13, 0x74, 0xB8, 0xF5, 0]\<rparr>)"
  using chunk_boundaries_irrelevant [of "[[0, 2], [7], [5, 0xA0, 0x13, 0x74], [0xB8, 0xF5, 0]]"]
  by (simp add: STREAM_BUFFER_MAX_def)

text \<open>Draining a buffer that holds wrapped frames back to back takes out exactly those frames, in
  order, after skipping any bytes before the first delimiter, and leaves nothing of them.\<close>

theorem wrapped_frames_extracted:
  assumes "0 \<notin> set garbage"
  shows "fst (drain \<lparr>buf = garbage @ concat (map (\<lambda>(mt, p). wrap_cobs (build_frame mt p)) ms)\<rparr>) =
           map (\<lambda>(mt, p). parse_cobs_frame (cobs_encode (build_frame mt p))) ms"
  using drain_scan [of "\<lparr>buf = garbage @ frames.wire ms\<rparr>"] assms
  by (simp add: scan_stream_outside frames.scan_wire split_beta flip: frames_wire)

theorem wrapped_frames_extracted_witness:
  "fst (drain \<lparr>buf = [9, 9] @ concat (map (\<lambda>(mt, p). wrap_cobs (build_frame mt p)) [(5024, [0x74]), (5044, [1])])\<rparr>) =
     [parse_cobs_frame (cobs_encode (build_frame 5024 [0x74])), parse_cobs_frame (cobs_encode (build_frame 5044 [1]))]"
  by (subst wrapped_frames_extracted) simp_all

text \<open>C33: one stray delimiter is never recovered from: when the stream starts inside a frame (so that the
  first delimiter seen is a closing one), no number of well-formed frames after it yields a single frame.\<close>

theorem stray_delimiter_never_recovers:
  assumes "0 \<notin> set partial"
  shows "fst (drain \<lparr>buf = partial @ [0] @ concat (map (\<lambda>(mt, p). wrap_cobs (build_frame mt p)) ms)\<rparr>) = []"
  using drain_scan [of "\<lparr>buf = partial @ [0] @ frames.wire ms\<rparr>"] assms
  by (simp add: scan_stream_outside frames.scan_wire_desync flip: frames_wire)

theorem stray_delimiter_never_recovers_witness:
  "fst (drain \<lparr>buf = [0xB8, 0xF5] @ [0] @ concat (map (\<lambda>(mt, p). wrap_cobs (build_frame mt p))
     [(5024, [0x74]), (5044, [1]), (5044, [2])])\<rparr>) = []"
  by (rule stray_delimiter_never_recovers) simp

end
