(* ===== verification/Capture_Replay.thy ===== *)
theory Capture_Replay
  imports Capture_Traffic Stream_Buffer
begin

text \<open>
  The identity filter with the stream buffer: a capture that was recorded through the filter and is then
  replayed, its chunks without their handle appended to a \<open>StreamBuffer\<close> and drained. When every frame starts a
  chunk of its own, as the crate sends them, the replay gives exactly the frames that may be recorded; when
  the opening delimiter of a dropped frame ends a chunk, the replay gives nothing of what follows.
\<close>

subsection \<open>Recording, frame by frame\<close>

lemma one_frame_recorded:
  assumes "0 \<notin> set c" "3 \<le> mtu" "length (test_chunks h (0 # c @ [0]) mtu) \<le> MAX_HELD_CHUNKS"
  shows "record_chunks filter_new (test_chunks h (0 # c @ [0]) mtu) =
    (if forbidden c then [] else test_chunks h (0 # c @ [0]) mtu, filter_new)"
proof -
  let ?rx = "test_chunks h (0 # c @ [0]) mtu"
  have stream: "frame_stream [c] = 0 # c @ [0]" by (simp add: frame_stream_def)
  obtain n where n: "mtu = Suc (Suc (Suc n))"
    using assms(2) by (metis Suc_le_D numeral_3_eq_3 Suc_le_mono le_0_eq not0_implies_Suc not_less_eq_eq)
  have run: "record_chunks filter_new ?rx = (map ((!) ?rx) (filter (untouched [c] (mtu - 1)) [0..<length ?rx]), filter_new)"
    using traffic_then_ready [of "[c]" mtu h] assms by (simp add: stream)
  show ?thesis
  proof (cases "forbidden c")
    case True
    have "\<not> untouched [c] (mtu - 1) k" if "k < length ?rx" for k
    proof -
      have "Suc k \<le> (length c + 2 + Suc n) div Suc (Suc n)" using that by (simp add: length_test_chunks n Suc_le_eq)
      then have "Suc k * Suc (Suc n) \<le> length c + 2 + Suc n" by (subst (asm) less_eq_div_iff_mult_less_eq) simp_all
      then have "k * Suc (Suc n) < length c + 2" by simp
      then show ?thesis using True by (auto simp: untouched_def n)
    qed
    then have "filter (untouched [c] (mtu - 1)) [0..<length ?rx] = []" by (simp add: filter_empty_conv)
    then show ?thesis using run True by simp
  next
    case False
    then have "untouched [c] (mtu - 1) = (\<lambda>k. True)" by (simp add: untouched_def fun_eq_iff)
    then show ?thesis using run False by (simp add: map_nth)
  qed
qed

lemma frames_recorded:
  assumes "list_all (\<lambda>c. 0 \<notin> set c \<and> length (test_chunks h (0 # c @ [0]) mtu) \<le> MAX_HELD_CHUNKS) cs" "3 \<le> mtu"
  shows "record_chunks filter_new (concat (map (\<lambda>c. test_chunks h (0 # c @ [0]) mtu) cs)) =
    (concat (map (\<lambda>c. test_chunks h (0 # c @ [0]) mtu) (filter (\<lambda>c. \<not> forbidden c) cs)), filter_new)"
  using assms(1)
proof (induction cs)
  case (Cons c cs)
  then show ?case using assms(2) by (simp add: record_append one_frame_recorded)
qed (simp add: record_simps)

subsection \<open>Replaying\<close>

lemma drain_quiet: "next_frame sb = (None, sb) \<Longrightarrow> drain sb = ([], sb)"
  by (subst drain.simps) simp

lemma drain_frame:
  assumes "0 \<notin> set c" "c \<noteq> []"
  shows "drain \<lparr>buf = 0 # c @ [0]\<rparr> = ([parse_cobs_frame c], \<lparr>buf = []\<rparr>)"
proof -
  have "next_frame \<lparr>buf = 0 # c @ [0]\<rparr> = (Some (parse_cobs_frame c), \<lparr>buf = []\<rparr>)"
    using next_frame_two [of "[]" c "\<lparr>buf = 0 # c @ [0]\<rparr>" "[]"] assms by simp
  moreover have "drain \<lparr>buf = []\<rparr> = ([], \<lparr>buf = []\<rparr>)"
    by (rule drain_quiet) (rule next_frame_none [of "[]"], simp_all)
  ultimately show ?thesis by (subst drain.simps) simp
qed

lemma feed_append:
  "feed_chunks (xs @ ys) sb = (let (r1, sb1) = feed_chunks xs sb; (r2, sb2) = feed_chunks ys sb1 in (r1 @ r2, sb2))"
  by (induction xs arbitrary: sb) (auto simp: Let_def split: prod.splits sum.splits)

text \<open>A frame in pieces: nothing comes out before the last of them.\<close>

lemma feed_pieces:
  assumes c: "0 \<notin> set c" "c \<noteq> []" "length c + 2 \<le> STREAM_BUFFER_MAX"
    and ps: "ps \<noteq> []" "[] \<notin> set ps" and whole: "buf sb @ concat ps = 0 # c @ [0]"
  shows "feed_chunks ps sb = ([parse_cobs_frame c], \<lparr>buf = []\<rparr>)"
  using ps whole
proof (induction ps arbitrary: sb)
  case (Cons p ps)
  have "length (buf sb) + length p \<le> length (0 # c @ [0])"
    using arg_cong [OF Cons.prems(3), of length] by simp
  then have ext: "stream_extend p sb = (Inr (), \<lparr>buf = buf sb @ p\<rparr>)"
    using c(3) by (intro stream_fits) simp
  show ?case
  proof (cases "ps = []")
    case True
    then have "buf sb @ p = 0 # c @ [0]" using Cons.prems(3) by simp
    then show ?thesis using True ext drain_frame [OF c(1,2)] by simp
  next
    case False
    then have "concat ps \<noteq> []" using Cons.prems(2) by (cases ps) auto
    then obtain q x where q: "concat ps = q @ [x]" by (cases "concat ps" rule: rev_cases) auto
    have "(buf sb @ p @ q) @ [x] = (0 # c) @ [0]" using Cons.prems(3) q by simp
    then have "buf sb @ p @ q = 0 # c" unfolding append1_eq_conv by (rule conjunct1)
    then have "(buf sb @ p) @ q = 0 # c" by simp
    moreover obtain y d where "buf sb @ p = y # d" using Cons.prems(2) by (cases "buf sb @ p") auto
    ultimately have d: "buf sb @ p = 0 # d" "d @ q = c" by simp_all
    then have "drain \<lparr>buf = buf sb @ p\<rparr> = ([], \<lparr>buf = buf sb @ p\<rparr>)"
      using c(1) by (intro drain_quiet next_frame_one [of "[]" d]) auto
    moreover have "feed_chunks ps \<lparr>buf = buf sb @ p\<rparr> = ([parse_cobs_frame c], \<lparr>buf = []\<rparr>)"
      using Cons.prems False by (intro Cons.IH) simp_all
    ultimately show ?thesis using ext by simp
  qed
qed simp

lemma chunks_stream: "2 \<le> mtu \<Longrightarrow> concat (map (drop 1) (test_chunks h bs mtu)) = bs"
  by (simp add: test_chunks_def chunk_with_handle_def comp_def concat_chunks_of)

lemma frame_replayed:
  assumes "0 \<notin> set c" "c \<noteq> []" "length c \<le> MAX_FRAME_BYTES" "2 \<le> mtu"
  shows "feed_chunks (map (drop 1) (test_chunks h (0 # c @ [0]) mtu)) stream_new = ([parse_cobs_frame c], stream_new)"
  unfolding stream_new_def
proof (rule feed_pieces [OF assms(1,2)])
  show "length c + 2 \<le> STREAM_BUFFER_MAX" using assms(3) by (simp add: MAX_FRAME_BYTES_def STREAM_BUFFER_MAX_def)
  have all: "concat (map (drop 1) (test_chunks h (0 # c @ [0]) mtu)) = 0 # c @ [0]" by (rule chunks_stream [OF assms(4)])
  then show "map (drop 1) (test_chunks h (0 # c @ [0]) mtu) \<noteq> []" by auto
  show "[] \<notin> set (map (drop 1) (test_chunks h (0 # c @ [0]) mtu))"
    using chunks_carry_bytes [of h "0 # c @ [0]" mtu] by auto
  show "buf \<lparr>buf = []\<rparr> @ concat (map (drop 1) (test_chunks h (0 # c @ [0]) mtu)) = 0 # c @ [0]" using all by simp
qed

lemma frames_replayed:
  assumes "list_all (\<lambda>c. 0 \<notin> set c \<and> c \<noteq> [] \<and> length c \<le> MAX_FRAME_BYTES) cs" "2 \<le> mtu"
  shows "feed_chunks (map (drop 1) (concat (map (\<lambda>c. test_chunks h (0 # c @ [0]) mtu) cs))) stream_new =
    (map parse_cobs_frame cs, stream_new)"
  using assms(1)
proof (induction cs)
  case (Cons c cs)
  then show ?case using assms(2) frame_replayed [of c mtu h] by (simp add: feed_append)
qed simp

lemma garbage_forbidden: "forbidden [2, 0x41]" by code_simp

lemma small_frame:
  "\<not> forbidden (cobs_encode (build_frame MSG_PROTOBUF_RESPONSE [1, 2]))"
  "length (cobs_encode (build_frame MSG_PROTOBUF_RESPONSE [1, 2])) \<le> 9"
  "length (chunk_with_handle (0 # cobs_encode (build_frame MSG_PROTOBUF_RESPONSE [1, 2]) @ [0]) 5 20) \<le> 256"
proof -
  show len: "length (cobs_encode (build_frame MSG_PROTOBUF_RESPONSE [1, 2])) \<le> 9"
    using cobs_encode_bounds(2) [of "build_frame MSG_PROTOBUF_RESPONSE [1, 2]"] by simp
  then show "\<not> forbidden (cobs_encode (build_frame MSG_PROTOBUF_RESPONSE [1, 2]))"
    by (simp add: forbidden_def response_frame_kept MAX_FRAME_BYTES_def)
  show "length (chunk_with_handle (0 # cobs_encode (build_frame MSG_PROTOBUF_RESPONSE [1, 2]) @ [0]) 5 20) \<le> 256"
    using short_traffic_fits [of 20 "0 # cobs_encode (build_frame MSG_PROTOBUF_RESPONSE [1, 2]) @ [0]" 5] len
    by (simp add: test_chunks_def MAX_HELD_CHUNKS_def)
qed

subsection \<open>Properties\<close>

text \<open>C17: a recording replays: of frames that are each sent in chunks of their own (of at least two stream bytes, up to
  256 per frame), however many, recording and replaying gives exactly the frames that are not forbidden, in
  order, each parsed as it would have been, and leaves filter and buffer as new.\<close>

theorem recording_replays_the_other_frames:
  assumes "list_all (\<lambda>c. c \<noteq> [] \<and> 0 \<notin> set c \<and> length (chunk_with_handle ([0] @ c @ [0]) h mtu) \<le> 256) cs" "3 \<le> mtu"
    and "rx = concat (map (\<lambda>c. chunk_with_handle ([0] @ c @ [0]) h mtu) cs)"
  shows "snd (record_chunks filter_new rx) = filter_new \<and>
    feed_chunks (map (drop 1) (fst (record_chunks filter_new rx))) stream_new =
      (map parse_cobs_frame (filter (\<lambda>c. \<not> forbidden c) cs), stream_new)"
proof -
  have kept: "list_all (\<lambda>c. 0 \<notin> set c \<and> c \<noteq> [] \<and> length c \<le> MAX_FRAME_BYTES) (filter (\<lambda>c. \<not> forbidden c) cs)"
    using assms(1) by (auto simp: list_all_iff forbidden_def)
  have "list_all (\<lambda>c. 0 \<notin> set c \<and> length (test_chunks h (0 # c @ [0]) mtu) \<le> MAX_HELD_CHUNKS) cs"
    using assms(1) by (simp add: list_all_iff test_chunks_def MAX_HELD_CHUNKS_def)
  from frames_recorded [OF this assms(2)] show ?thesis
    using frames_replayed [OF kept, of mtu h] assms(2) by (simp add: test_chunks_def assms(3))
qed

theorem recording_replays_the_other_frames_witness:
  "feed_chunks (map (drop 1) (fst (record_chunks filter_new (concat (map (\<lambda>c. chunk_with_handle ([0] @ c @ [0]) 5 20)
     [[2, 0x41], cobs_encode (build_frame MSG_PROTOBUF_RESPONSE [1, 2])]))))) stream_new =
   ([parse_cobs_frame (cobs_encode (build_frame MSG_PROTOBUF_RESPONSE [1, 2]))], stream_new)"
proof -
  let ?cs = "[[2, 0x41], cobs_encode (build_frame MSG_PROTOBUF_RESPONSE [1, 2])]"
  have "length (chunk_with_handle ([0] @ [2, 0x41] @ [0]) 5 20) \<le> 256" by code_simp
  then have "list_all (\<lambda>c. c \<noteq> [] \<and> 0 \<notin> set c \<and> length (chunk_with_handle ([0] @ c @ [0]) 5 20) \<le> 256) ?cs"
    using small_frame by (simp add: cobs_encode_no_zero)
  from recording_replays_the_other_frames [OF this _ refl, THEN conjunct2] show ?thesis
    using small_frame garbage_forbidden by simp
qed

text \<open>C18: a recording that does not replay: when a chunk ends with the opening delimiter of a dropped frame, the filter
  releases that delimiter, and the recording, with all the frames that follow in it, replays to no frame.\<close>

theorem cut_delimiter_spoils_the_replay:
  assumes "forbidden c" "0 \<notin> set c" "length c \<le> 8192"
    and "list_all (\<lambda>c. c \<noteq> [] \<and> 0 \<notin> set c \<and> \<not> forbidden c) cs" "length (concat cs) + 2 * length cs \<le> 65000"
    and "list_all (\<lambda>c. length (chunk_with_handle ([0] @ c @ [0]) h mtu) \<le> 256) cs" "3 \<le> mtu"
    and "rx = concat (map (\<lambda>c. chunk_with_handle ([0] @ c @ [0]) h mtu) cs)"
  shows "fst (record_chunks filter_new ([[h, 0], h # c @ [0]] @ rx)) = [h, 0] # rx \<and>
    fst (feed_chunks (map (drop 1) (fst (record_chunks filter_new ([[h, 0], h # c @ [0]] @ rx)))) stream_new) = []"
proof -
  let ?fs = "concat (map (\<lambda>c. chunk_with_handle ([0] @ c @ [0]) h mtu) cs)"
  have c: "c \<noteq> []" "frame_excluded c" using assms(1,3) by (auto simp: forbidden_def MAX_FRAME_BYTES_def)
  have "filter_feed (h # c @ [0]) v filter_new = ([], filter_new)" for v :: bytes
  proof -
    have "fold filter_byte c (filter_new, [], True) = (filter_new\<lparr>frame := c\<rparr>, [] :: bytes list, True)"
      using filter_push_bytes [OF assms(2), of filter_new "[]" True] assms(3) by (simp add: filter_new_def MAX_FRAME_BYTES_def)
    then show ?thesis using c by (simp add: filter_feed_def filter_byte_drop filter_new_def MAX_HELD_CHUNKS_def)
  qed
  moreover have "record_chunks filter_new ?fs = (?fs, filter_new)"
  proof -
    have "list_all (\<lambda>c. 0 \<notin> set c \<and> length (test_chunks h (0 # c @ [0]) mtu) \<le> MAX_HELD_CHUNKS) cs"
      using assms(4,6) by (simp add: list_all_iff test_chunks_def MAX_HELD_CHUNKS_def)
    moreover have "filter (\<lambda>c. \<not> forbidden c) cs = cs" using assms(4) by (simp add: list_all_iff filter_id_conv)
    ultimately show ?thesis using frames_recorded [of h mtu cs] assms(7) by (simp add: test_chunks_def)
  qed
  ultimately have rec: "record_chunks filter_new ([[h, 0], h # c @ [0]] @ ?fs) = ([h, 0] # ?fs, filter_new)"
    by (simp add: record_simps feed_gap [OF refl])
  have stream: "concat (map (drop 1) ([h, 0] # ?fs)) = 0 # frame_stream cs"
  proof -
    have "concat (map (drop 1) ?fs) = frame_stream cs"
      using chunks_stream [of mtu h] assms(7)
      by (induction cs) (simp_all add: frame_stream_def test_chunks_def)
    then show ?thesis by simp
  qed
  have desync: "scan_stream (Some []) (frame_stream cs) = ([], Some [])"
    using assms(4)
  proof (induction cs)
    case (Cons d ds)
    then show ?case
      using scan_stream_outside [of d "0 # frame_stream ds"] by (simp add: frame_stream_def)
  qed (simp add: frame_stream_def)
  have "length (frame_stream cs) = length (concat cs) + 2 * length cs"
    by (induction cs) (simp_all add: frame_stream_def)
  then have "fst (feed_chunks (map (drop 1) ([h, 0] # ?fs)) stream_new) = []"
    using feed_chunks_scan [of stream_new "map (drop 1) ([h, 0] # ?fs)"] assms(5) desync
    unfolding stream by (simp add: stream_new_def STREAM_BUFFER_MAX_def)
  then show ?thesis by (simp only: assms(8) rec fst_conv simp_thms)
qed

theorem cut_delimiter_spoils_the_replay_witness:
  "fst (feed_chunks (map (drop 1) (fst (record_chunks filter_new ([[5, 0], 5 # [2, 0x41] @ [0]] @
     concat (map (\<lambda>c. chunk_with_handle ([0] @ c @ [0]) 5 20) [cobs_encode (build_frame MSG_PROTOBUF_RESPONSE [1, 2])])))))
     stream_new) = []"
  by (rule cut_delimiter_spoils_the_replay [OF garbage_forbidden _ _ _ _ _ _ refl, THEN conjunct2])
     (use small_frame in \<open>simp_all add: cobs_encode_no_zero\<close>)

end
