(* ===== verification/Codec_Tests.thy ===== *)
theory Codec_Tests
  imports Testing_Frames Stream_Buffer
begin

text \<open>
  The unit tests inside \<open>src/crc.rs\<close>, \<open>src/cobs.rs\<close>, \<open>src/multilink.rs\<close>, \<open>src/gfdi.rs\<close> and \<open>src/testing.rs\<close>, each as a
  predicate on the model, and that all of them hold. Names are those of the test functions, with a prefix
  where one is taken. Byte strings are written by their characters.
\<close>

subsection \<open>\<open>crc.rs\<close>\<close>

definition check_value :: bool where
  "check_value \<longleftrightarrow> crc16 (ascii ''123456789'') = 0xBB3D"

definition crc_empty :: bool where
  "crc_empty \<longleftrightarrow> crc16 [] = 0"

definition single_byte :: bool where
  "single_byte \<longleftrightarrow> crc16 [0x01] = 0xC0C1"

subsection \<open>\<open>cobs.rs\<close>\<close>

definition roundtrip_empty :: bool where
  "roundtrip_empty \<longleftrightarrow>
     (let data = []; encoded = cobs_encode data in expect_ok (cobs_decode encoded) (\<lambda>decoded. decoded = data))"

definition roundtrip_no_zeros :: bool where
  "roundtrip_no_zeros \<longleftrightarrow>
     (let data = ascii ''hello''; encoded = cobs_encode data
      in 0 \<notin> set encoded \<and> expect_ok (cobs_decode encoded) (\<lambda>decoded. decoded = data))"

definition roundtrip_with_interior_zeros :: bool where
  "roundtrip_with_interior_zeros \<longleftrightarrow>
     (let data = [0] @ ascii ''hello'' @ [0] @ ascii ''world''; encoded = cobs_encode data
      in 0 \<notin> set encoded \<and> expect_ok (cobs_decode encoded) (\<lambda>decoded. decoded = data))"

definition roundtrip_zeros_then_data :: bool where
  "roundtrip_zeros_then_data \<longleftrightarrow>
     (let data = [0, 0, 0, 1]; encoded = cobs_encode data
      in 0 \<notin> set encoded \<and> expect_ok (cobs_decode encoded) (\<lambda>decoded. decoded = data))"

text \<open>The inclusive range \<open>a..=b\<close> of bytes.\<close>

definition byte_range :: "nat \<Rightarrow> nat \<Rightarrow> bytes" where
  "byte_range a b = map word_of_nat [a..<b + 1]"

definition roundtrip_254_nonzero :: bool where
  "roundtrip_254_nonzero \<longleftrightarrow>
     (let data = byte_range 1 254; encoded = cobs_encode data
      in 0 \<notin> set encoded \<and> expect_ok (cobs_decode encoded) (\<lambda>decoded. decoded = data))"

definition roundtrip_255_nonzero :: bool where
  "roundtrip_255_nonzero \<longleftrightarrow>
     (let data = byte_range 1 255; encoded = cobs_encode data
      in 0 \<notin> set encoded \<and> expect_ok (cobs_decode encoded) (\<lambda>decoded. decoded = data))"

definition known_vector :: bool where
  "known_vector \<longleftrightarrow>
     (let data = [1, 0, 2]; encoded = cobs_encode data in expect_ok (cobs_decode encoded) (\<lambda>decoded. decoded = data))"

subsection \<open>\<open>multilink.rs\<close>\<close>

definition register_command_format :: bool where
  "register_command_format \<longleftrightarrow> build_register 1 Gfdi = [0, 0, 1, 0, 0, 0, 0, 0, 0, 0, 1, 0, 0]"

definition parse_register_success :: bool where
  "parse_register_success \<longleftrightarrow>
     expect (parse_register_response [0, 1, 1, 0, 0, 0, 0, 0, 0, 0, 1, 0, 0, 1, 0, 0])
       (\<lambda>(status, h, flags). status = Success \<and> h = 1 \<and> flags = 0)"

definition strip_handle_match :: bool where
  "strip_handle_match \<longleftrightarrow> strip_handle [0x01, 0xAA, 0xBB] 0x01 = Some [0xAA, 0xBB]"

definition strip_handle_mismatch :: bool where
  "strip_handle_mismatch \<longleftrightarrow> strip_handle [0x02, 0xAA, 0xBB] 0x01 = None"

definition chunking_mtu_20 :: bool where
  "chunking_mtu_20 \<longleftrightarrow>
     (let data = replicate 40 0xAA; chunks = chunk_with_handle data 0x01 20
      in length chunks = 3 \<and> length (chunks ! 0) = 20 \<and> chunks ! 0 ! 0 = 0x01 \<and> length (chunks ! 1) = 20 \<and>
         length (chunks ! 2) = 3)"

subsection \<open>\<open>testing.rs\<close>\<close>

definition synthetic_device_info_parses :: bool where
  "synthetic_device_info_parses \<longleftrightarrow>
     (let f = device_info_frame
      in expect_ok (parse_cobs_frame (subrange f 1 (length f - 1))) (\<lambda>frame.
           msg_type frame = MSG_DEVICE_INFO \<and>
           expect_ok (parse_device_info (payload frame)) (\<lambda>info.
             unit_id info = DEVICE_INFO_UNIT_ID \<and> friendly_name info = DEVICE_INFO_NAME)))"

definition ack_frame_names_its_type :: bool where
  "ack_frame_names_its_type \<longleftrightarrow>
     (let f = ack_frame MSG_PROTOBUF_RESPONSE 0 []
      in expect_ok (parse_cobs_frame (subrange f 1 (length f - 1))) (\<lambda>frame.
           msg_type frame = MSG_ACK \<and> acked_type frame = Some MSG_PROTOBUF_RESPONSE \<and>
           payload frame = [0xB4, 0x13, 0x00]))"

definition chunks_lead_with_the_handle :: bool where
  "chunks_lead_with_the_handle \<longleftrightarrow>
     test_chunks 0x07 [1, 2, 3, 4, 5] 3 = [[7, 1, 2], [7, 3, 4], [7, 5]] \<and> with_handle 0x07 [9] = [7, 9]"

subsection \<open>\<open>gfdi.rs\<close>\<close>

definition build_and_parse_frame :: bool where
  "build_and_parse_frame \<longleftrightarrow>
     (let p = ascii ''test''; frame = build_frame 5024 p
      in expect_ok (parse_frame frame) (\<lambda>parsed. msg_type parsed = 5024 \<and> payload parsed = p \<and> txn_id parsed = None))"

definition build_and_parse_ack :: bool where
  "build_and_parse_ack \<longleftrightarrow>
     (let frame = build_ack 5024 0 []
      in expect_ok (parse_frame frame) (\<lambda>parsed.
           msg_type parsed = MSG_ACK \<and> length (payload parsed) = 3 \<and>
           of_le16 (payload parsed ! 0) (payload parsed ! 1) = 5024 \<and> payload parsed ! 2 = 0))"

definition crc_verified :: bool where
  "crc_verified \<longleftrightarrow>
     (let frame = build_frame 5024 (ascii ''hello''); bad = frame[4 := frame ! 4 XOR 0xFF]
      in (case parse_frame bad of Inl _ \<Rightarrow> True | Inr _ \<Rightarrow> False))"

definition cobs_delimiters :: bool where
  "cobs_delimiters \<longleftrightarrow>
     (let frame = build_frame 5024 (ascii ''test payload with '' @ [0] @ ascii '' zeros''); wrapped = wrap_cobs frame
      in wrapped ! 0 = 0 \<and> wrapped ! (length wrapped - 1) = 0)"

definition stream_buffer_single_frame :: bool where
  "stream_buffer_single_frame \<longleftrightarrow>
     (let frame = build_frame 5024 (ascii ''test''); cobs_frame = wrap_cobs frame;
          (r, sb) = stream_extend cobs_frame stream_new;
          (next1, sb) = next_frame sb; (next2, sb) = next_frame sb
      in expect_ok r (\<lambda>_. expect next1 (\<lambda>n. expect_ok n (\<lambda>f. msg_type f = 5024 \<and> payload f = ascii ''test''))) \<and>
         next2 = None)"

definition stream_buffer_split_chunks :: bool where
  "stream_buffer_split_chunks \<longleftrightarrow>
     (let frame = build_frame 5050 (ascii ''payload''); cobs_frame = wrap_cobs frame;
          mid = length cobs_frame div 2;
          (r1, sb) = stream_extend (take mid cobs_frame) stream_new;
          (next1, sb) = next_frame sb;
          (r2, sb) = stream_extend (drop mid cobs_frame) sb;
          (next2, sb) = next_frame sb
      in expect_ok r1 (\<lambda>_. next1 = None) \<and>
         expect_ok r2 (\<lambda>_. expect next2 (\<lambda>n. expect_ok n (\<lambda>f. msg_type f = 5050))))"

definition parse_device_info_r10 :: bool where
  "parse_device_info_r10 \<longleftrightarrow>
     (let name = ascii ''Approach R10''; dev = ascii ''ApproachR10'';
          p = le16 150 @ le16 3622 @ le32 0x12345678 @ le16 430 @ le16 0x021B @
            [word_of_nat (length name)] @ name @ [word_of_nat (length dev)] @ dev @ [0]
      in expect_ok (parse_device_info p) (\<lambda>info.
           protocol_version info = 150 \<and> product_number info = 3622 \<and> software_version info = 430 \<and>
           friendly_name info = ascii ''Approach R10'' \<and> device_name info = ascii ''ApproachR10''))"

definition capabilities_swing_sensor :: bool where
  "capabilities_swing_sensor \<longleftrightarrow>
     expect_ok (parse_frame build_host_capabilities) (\<lambda>parsed.
       msg_type parsed = MSG_CONFIGURATION \<and> CAP_SWING_SENSOR \<in> set (parse_capabilities (payload parsed)))"

definition frag_header_roundtrip :: bool where
  "frag_header_roundtrip \<longleftrightarrow>
     (let pb_data = ascii ''protobuf payload''; frame = build_protobuf_request 42 pb_data
      in expect_ok (parse_frame frame) (\<lambda>parsed.
           msg_type parsed = MSG_PROTOBUF_REQUEST \<and>
           expect_ok (parse_frag_header (payload parsed)) (\<lambda>(hdr, data).
             req_id hdr = 42 \<and> offset hdr = 0 \<and>
             (let len = word_of_nat (length pb_data)
              in total_len hdr = len \<and> chunk_size hdr = len \<and> data = pb_data))))"

definition identity_types_are_excluded :: bool where
  "identity_types_are_excluded \<longleftrightarrow>
     list_all type_carries_identity [5003, 5004, 5011, 5012, 5024, 5101, 5112] \<and>
     list_all (\<lambda>t. \<not> type_carries_identity t) [5000, 5043, 5044, 5050, 5100, 5113]"

definition acks_carry_identity_of_what_they_acknowledge :: bool where
  "acks_carry_identity_of_what_they_acknowledge \<longleftrightarrow>
     (let frame = (\<lambda>acked. parse_frame (build_ack acked 0 [0xAA]))
      in expect_ok (frame MSG_DEVICE_INFO) frame_carries_identity \<and>
         expect_ok (frame 5101) frame_carries_identity \<and>
         expect_ok (frame MSG_PROTOBUF_RESPONSE) (\<lambda>f. \<not> frame_carries_identity f) \<and>
         expect_ok (frame MSG_CONFIGURATION) (\<lambda>f. acked_type f = Some MSG_CONFIGURATION) \<and>
         expect_ok (parse_frame (build_frame MSG_ACK [0x2C])) (\<lambda>bare_ack.
           acked_type bare_ack = None \<and> frame_carries_identity bare_ack) \<and>
         expect_ok (parse_frame (build_frame MSG_PROTOBUF_RESPONSE (ascii ''shot''))) (\<lambda>shot.
           acked_type shot = None \<and> \<not> frame_carries_identity shot))"

definition parse_cobs_frame_strips_cobs_and_checks_crc :: bool where
  "parse_cobs_frame_strips_cobs_and_checks_crc \<longleftrightarrow>
     (let wire = wrap_cobs (build_frame MSG_PROTOBUF_REQUEST (ascii ''a'' @ [0] @ ascii ''b''));
          inner = subrange wire 1 (length wire - 1);
          n = length inner; bad = inner[n - 1 := inner ! (n - 1) XOR 0x01]
      in expect_ok (parse_cobs_frame inner) (\<lambda>f.
           msg_type f = MSG_PROTOBUF_REQUEST \<and> payload f = ascii ''a'' @ [0] @ ascii ''b'' \<and> txn_id f = None) \<and>
         (case parse_cobs_frame [0x09, 0x41] of Inl (Cobs _) \<Rightarrow> True | _ \<Rightarrow> False) \<and>
         (case parse_cobs_frame [0x03, 0x41, 0x42] of Inl (FrameTooShort _ _) \<Rightarrow> True | _ \<Rightarrow> False) \<and>
         (case parse_cobs_frame bad of Inl (Crc _ _) \<Rightarrow> True | _ \<Rightarrow> False))"

definition txn_id_detection :: bool where
  "txn_id_detection \<longleftrightarrow>
     (let p = ascii ''test''; len = word_of_nat (2 + 1 + 1 + length p + 2) :: u16;
          frame = le16 len @ [43] @ [0x81] @ p;
          crc = crc16 frame;
          frame = frame @ le16 crc
      in expect_ok (parse_frame frame) (\<lambda>parsed.
           msg_type parsed = 5043 \<and> txn_id parsed = Some 1 \<and> payload parsed = p))"

subsection \<open>They hold\<close>

lemma crc_tests: "check_value" "crc_empty" "single_byte"
  by code_simp+

lemma cobs_zero_free_test:
  "0 \<notin> set data \<Longrightarrow> 0 \<notin> set (cobs_encode data) \<and> expect_ok (cobs_decode (cobs_encode data)) (\<lambda>d. d = data)"
  by (simp add: cobs_encode_no_zero cobs_roundtrip_iff [THEN iffD2] lossless_zero_free)

lemma byte_range_zero_free: "0 < a \<Longrightarrow> b < 256 \<Longrightarrow> 0 \<notin> set (byte_range a b)"
  by (auto simp: byte_range_def word_of_nat_eq_0_iff dest!: dvd_imp_le)

lemma cobs_range_tests: "roundtrip_254_nonzero" "roundtrip_255_nonzero"
  unfolding roundtrip_254_nonzero_def roundtrip_255_nonzero_def Let_def
  by (intro cobs_zero_free_test byte_range_zero_free; simp)+

lemma cobs_small_tests:
  "roundtrip_empty" "roundtrip_no_zeros" "roundtrip_with_interior_zeros" "roundtrip_zeros_then_data" "known_vector"
  by code_simp+

lemma multilink_tests:
  "register_command_format" "parse_register_success" "strip_handle_match" "strip_handle_mismatch" "chunking_mtu_20"
  by code_simp+

lemma testing_tests: "synthetic_device_info_parses" "ack_frame_names_its_type" "chunks_lead_with_the_handle"
proof -
  show "synthetic_device_info_parses"
    using device_info_frame_parses by (auto simp: synthetic_device_info_parses_def)
qed code_simp+

text \<open>A wrapped frame in two pieces: nothing after the first, the frame after the second.\<close>

lemma split_wrapped:
  assumes "0 < m" "m \<le> length (cobs_encode f) + 1" "cobs_encode f \<noteq> []"
    "length (cobs_encode f) + 2 \<le> STREAM_BUFFER_MAX"
  shows "stream_extend (take m (wrap_cobs f)) stream_new = (Inr (), \<lparr>buf = take m (wrap_cobs f)\<rparr>)"
    "next_frame \<lparr>buf = take m (wrap_cobs f)\<rparr> = (None, \<lparr>buf = take m (wrap_cobs f)\<rparr>)"
    "stream_extend (drop m (wrap_cobs f)) \<lparr>buf = take m (wrap_cobs f)\<rparr> = (Inr (), \<lparr>buf = wrap_cobs f\<rparr>)"
    "next_frame \<lparr>buf = wrap_cobs f\<rparr> = (Some (parse_cobs_frame (cobs_encode f)), \<lparr>buf = []\<rparr>)"
proof -
  have m: "take m (wrap_cobs f) = [] @ 0 # take (m - 1) (cobs_encode f)"
    using assms(1,2) by (simp add: wrap_cobs_def take_Cons')
  have z: "0 \<notin> set (take (m - 1) (cobs_encode f))"
    using cobs_encode_no_zero [of f] by (auto dest: in_set_takeD)
  show "next_frame \<lparr>buf = take m (wrap_cobs f)\<rparr> = (None, \<lparr>buf = take m (wrap_cobs f)\<rparr>)"
    using z m by (intro next_frame_one [of "[]"]) simp_all
  show "next_frame \<lparr>buf = wrap_cobs f\<rparr> = (Some (parse_cobs_frame (cobs_encode f)), \<lparr>buf = []\<rparr>)"
    using next_frame_two [of "[]" "cobs_encode f" "\<lparr>buf = wrap_cobs f\<rparr>" "[]"] assms(3) cobs_encode_no_zero [of f]
    by (simp add: wrap_cobs_def)
  show "stream_extend (take m (wrap_cobs f)) stream_new = (Inr (), \<lparr>buf = take m (wrap_cobs f)\<rparr>)"
    "stream_extend (drop m (wrap_cobs f)) \<lparr>buf = take m (wrap_cobs f)\<rparr> = (Inr (), \<lparr>buf = wrap_cobs f\<rparr>)"
    using assms(2,4) by (simp_all add: stream_extend_def stream_new_def wrap_cobs_def)
qed

lemma stream_split_test: "stream_buffer_split_chunks"
proof -
  let ?f = "build_frame 5050 (ascii ''payload'')"
  have len: "length (wrap_cobs ?f) = 16"
    and parse: "parse_cobs_frame (cobs_encode ?f) = Inr \<lparr>msg_type = 5050, txn_id = None, payload = ascii ''payload''\<rparr>"
    by code_simp+
  moreover from len have "length (cobs_encode ?f) = 14" by (simp add: wrap_cobs_def)
  ultimately show ?thesis
    using split_wrapped [of 8 ?f]
    by (simp add: stream_buffer_split_chunks_def Let_def STREAM_BUFFER_MAX_def)
qed

lemma ack_identity_test: "acks_carry_identity_of_what_they_acknowledge"
  by (simp add: acks_carry_identity_of_what_they_acknowledge_def build_ack_parse parse_build_frame_standard acked_type_def
      frame_carries_identity_def type_carries_identity_def msg_defs le16_def of_le16_def bit_numeral_rec)

lemma delimiters_test: "cobs_delimiters"
  by (simp add: cobs_delimiters_def Let_def wrap_cobs_def nth_append)

lemma frag_header_test: "frag_header_roundtrip"
  by (simp add: frag_header_roundtrip_def Let_def build_protobuf_request_parse parse_protobuf_payload ascii_def)

lemma capabilities_test: "capabilities_swing_sensor"
proof -
  have "CAP_SWING_SENSOR \<in> set (parse_capabilities [13, 0, 0, 0, 0x40, 0, 0, 0, 0, 0, 0, 0, 0, 0])" by code_simp
  then show ?thesis by (simp add: capabilities_swing_sensor_def host_capabilities_parse)
qed

lemma single_frame_test: "stream_buffer_single_frame"
proof -
  let ?f = "build_frame 5024 (ascii ''test'')"
  have len: "length (wrap_cobs ?f) = 13"
    and parse: "parse_cobs_frame (cobs_encode ?f) = Inr \<lparr>msg_type = 5024, txn_id = None, payload = ascii ''test''\<rparr>"
    by code_simp+
  moreover from len have "length (cobs_encode ?f) = 11" by (simp add: wrap_cobs_def)
  moreover have "next_frame \<lparr>buf = []\<rparr> = (None, \<lparr>buf = []\<rparr>)" by (rule next_frame_none [of "[]"]) simp_all
  ultimately show ?thesis
    using split_wrapped(4) [of 1 ?f]
    by (simp add: stream_buffer_single_frame_def Let_def STREAM_BUFFER_MAX_def stream_extend_def stream_new_def)
qed

lemma gfdi_tests:
  "build_and_parse_frame" "build_and_parse_ack" "crc_verified" "parse_device_info_r10"
  "identity_types_are_excluded"
  "parse_cobs_frame_strips_cobs_and_checks_crc" "txn_id_detection"
  by code_simp+

end
