(* ===== verification/Float32.thy ===== *)
theory Float32
  imports Prelude
begin

text \<open>
  IEEE single-precision numbers as their bit patterns, for the operations the crate and its tests do on
  \<open>f32\<close>: multiplication, addition and subtraction (round to nearest, ties to even), \<open>to_radians\<close> (a
  multiplication by a constant), \<open>round\<close> (ties away from zero), the saturating cast \<open>as i32\<close>, \<open>abs\<close> and \<open><\<close>. A
  finite pattern is a sign, a mantissa and an exponent; \<open>f32_pack\<close> rounds any such triple back.
\<close>

type_synonym f32 = "32 word"
type_synonym i32 = "32 word"

named_theorems float_simps "bit patterns of single-precision numbers"

definition f32_exp :: "f32 \<Rightarrow> nat" where
  "f32_exp x = unat x div 2 ^ 23 mod 256"

definition f32_frac :: "f32 \<Rightarrow> nat" where
  "f32_frac x = unat x mod 2 ^ 23"

definition f32_neg :: "f32 \<Rightarrow> bool" where
  "f32_neg x \<longleftrightarrow> 2 ^ 31 \<le> unat x"

definition f32_is_nan :: "f32 \<Rightarrow> bool" where
  "f32_is_nan x \<longleftrightarrow> f32_exp x = 255 \<and> f32_frac x \<noteq> 0"

definition f32_is_inf :: "f32 \<Rightarrow> bool" where
  "f32_is_inf x \<longleftrightarrow> f32_exp x = 255 \<and> f32_frac x = 0"

definition f32_nan :: f32 where
  "f32_nan = 0x7FC00000"

text \<open>A finite number is \<open>mantissa * 2 ^ exponent\<close>, up to its sign.\<close>

definition f32_mant :: "f32 \<Rightarrow> nat" where
  "f32_mant x = (if f32_exp x = 0 then f32_frac x else 2 ^ 23 + f32_frac x)"

definition f32_power :: "f32 \<Rightarrow> int" where
  "f32_power x = (if f32_exp x = 0 then - 149 else int (f32_exp x) - 150)"

fun bit_length :: "nat \<Rightarrow> nat" where
  "bit_length n = (if n = 0 then 0 else Suc (bit_length (n div 2)))"

declare bit_length.simps [simp del]

definition div_even :: "nat \<Rightarrow> nat \<Rightarrow> nat" where
  "div_even m k =
     (let q = m div 2 ^ k; r = m mod 2 ^ k
      in if 2 * r > 2 ^ k \<or> (2 * r = 2 ^ k \<and> odd q) then q + 1 else q)"

text \<open>The pattern nearest to \<open>m * 2 ^ e\<close>: the exponent of its last place, the mantissa rounded to that
  place, and the sum of both fields, which carries into the exponent when the mantissa rounds up to
  the next power of two.\<close>

definition f32_pack :: "bool \<Rightarrow> nat \<Rightarrow> int \<Rightarrow> f32" where
  "f32_pack s m e =
     (let q = max (int (bit_length m) - 24 + e) (- 149);
          n = (if q \<le> e then m * 2 ^ nat (e - q) else div_even m (nat (q - e)));
          bits = nat (q + 149) * 2 ^ 23 + n
      in word_of_nat ((if s then 2 ^ 31 else 0) + (if n = 0 then 0 else min bits (255 * 2 ^ 23))))"

definition f32_mul :: "f32 \<Rightarrow> f32 \<Rightarrow> f32" where
  "f32_mul a b =
     (let s = (f32_neg a \<noteq> f32_neg b) in
      if f32_is_nan a \<or> f32_is_nan b then f32_nan
      else if f32_is_inf a \<or> f32_is_inf b
      then (if f32_mant a = 0 \<or> f32_mant b = 0 then f32_nan
            else word_of_nat ((if s then 2 ^ 31 else 0) + 255 * 2 ^ 23))
      else f32_pack s (f32_mant a * f32_mant b) (f32_power a + f32_power b))"

text \<open>Addition: both operands as multiples of the smaller power of two, which is exact, then rounded once. A
  sum of zero is negative only when both operands are.\<close>

definition f32_scaled :: "int \<Rightarrow> f32 \<Rightarrow> int" where
  "f32_scaled e x = (if f32_neg x then - 1 else 1) * int (f32_mant x * 2 ^ nat (f32_power x - e))"

definition f32_add :: "f32 \<Rightarrow> f32 \<Rightarrow> f32" where
  "f32_add a b =
     (let e = min (f32_power a) (f32_power b); v = f32_scaled e a + f32_scaled e b in
      if f32_is_nan a \<or> f32_is_nan b \<or> f32_is_inf a \<and> f32_is_inf b \<and> f32_neg a \<noteq> f32_neg b then f32_nan
      else if f32_is_inf a then a
      else if f32_is_inf b then b
      else if v = 0 then (if f32_neg a \<and> f32_neg b then 0x80000000 else 0)
      else f32_pack (v < 0) (nat \<bar>v\<bar>) e)"

definition f32_sub :: "f32 \<Rightarrow> f32 \<Rightarrow> f32" where
  "f32_sub a b = f32_add a (b XOR 0x80000000)"

definition f32_abs :: "f32 \<Rightarrow> f32" where
  "f32_abs x = x AND 0x7FFFFFFF"

definition f32_less :: "f32 \<Rightarrow> f32 \<Rightarrow> bool" where
  "f32_less a b \<longleftrightarrow>
     (let e = min (f32_power a) (f32_power b)
      in \<not> f32_is_nan a \<and> \<not> f32_is_nan b \<and> f32_scaled e a < f32_scaled e b)"

text \<open>\<open>PI / 180\<close> as the standard library has it.\<close>

definition f32_to_radians :: "f32 \<Rightarrow> f32" where
  "f32_to_radians x = f32_mul x 0x3C8EFA35"

definition f32_round :: "f32 \<Rightarrow> f32" where
  "f32_round x =
     (if f32_exp x = 255 \<or> 0 \<le> f32_power x then x
      else let k = nat (- f32_power x)
           in f32_pack (f32_neg x) ((f32_mant x + 2 ^ (k - 1)) div 2 ^ k) 0)"

definition f32_trunc :: "f32 \<Rightarrow> int" where
  "f32_trunc x =
     (let v = (if 0 \<le> f32_power x then f32_mant x * 2 ^ nat (f32_power x)
               else f32_mant x div 2 ^ nat (- f32_power x))
      in if f32_neg x then - int v else int v)"

definition f32_to_i32 :: "f32 \<Rightarrow> i32" where
  "f32_to_i32 x =
     (if f32_is_nan x then 0
      else if f32_is_inf x then word_of_int (if f32_neg x then - (2 ^ 31) else 2 ^ 31 - 1)
      else word_of_int (max (- (2 ^ 31)) (min (2 ^ 31 - 1) (f32_trunc x))))"

subsection \<open>Packing is exact on what can be represented\<close>

lemma bit_length_le: "n < 2 ^ k \<Longrightarrow> bit_length n \<le> k"
proof (induction k arbitrary: n)
  case 0
  then show ?case by (simp add: bit_length.simps)
next
  case (Suc k)
  then have "n div 2 < 2 ^ k" by simp
  then show ?case using Suc.IH by (subst bit_length.simps) simp
qed

lemma bit_length_exact: "2 ^ k \<le> n \<Longrightarrow> n < 2 ^ Suc k \<Longrightarrow> bit_length n = Suc k"
proof (induction k arbitrary: n)
  case 0
  then have "n = 1" by simp
  then show ?case by (simp add: bit_length.simps)
next
  case (Suc k)
  then have "2 ^ k \<le> n div 2" "n div 2 < 2 ^ Suc k" by auto
  then show ?case using Suc.IH [of "n div 2"] by (subst bit_length.simps) auto
qed

lemma f32_fields: "unat x = (if f32_neg x then 2 ^ 31 else 0) + f32_exp x * 2 ^ 23 + f32_frac x"
proof -
  have "unat x < 2 ^ 32" using unsigned_less [of x] by simp
  then have "unat x = (if f32_neg x then 2 ^ 31 else 0) + unat x mod 2 ^ 31"
    by (simp add: f32_neg_def le_mod_geq)
  moreover have "unat x mod (2 ^ 23 * 256) = 2 ^ 23 * f32_exp x + f32_frac x"
    unfolding f32_exp_def f32_frac_def by (rule mod_mult2_eq)
  ultimately show ?thesis by simp
qed

lemma f32_exp_bound: "f32_exp x < 256"
  by (simp add: f32_exp_def)

lemma f32_frac_bound: "f32_frac x < 2 ^ 23"
  by (simp add: f32_frac_def)

lemma f32_pack_finite:
  assumes "f32_exp x < 255"
  shows "f32_pack (f32_neg x) (f32_mant x) (f32_power x) = x"
proof -
  let ?m = "f32_mant x" and ?e = "f32_power x"
  define q where "q = max (int (bit_length ?m) - 24 + ?e) (- 149)"
  have q: "q = ?e"
  proof (cases "f32_exp x = 0")
    case True
    then have "?m < 2 ^ 23" using f32_frac_bound [of x] by (simp add: f32_mant_def)
    then show ?thesis using bit_length_le [of ?m 23] True by (simp add: q_def f32_power_def)
  next
    case False
    then have "bit_length ?m = Suc 23"
      using f32_frac_bound [of x] by (intro bit_length_exact) (simp_all add: f32_mant_def)
    then show ?thesis using False by (simp add: q_def f32_power_def)
  qed
  have bits: "(if ?m = 0 then 0 else min (nat (?e + 149) * 2 ^ 23 + ?m) (255 * 2 ^ 23)) =
      f32_exp x * 2 ^ 23 + f32_frac x"
  proof (cases "f32_exp x = 0")
    case True
    then show ?thesis using f32_frac_bound [of x] by (simp add: f32_mant_def f32_power_def)
  next
    case False
    then have "nat (?e + 149) * 2 ^ 23 + ?m = f32_exp x * 2 ^ 23 + f32_frac x"
      by (cases "f32_exp x") (simp_all add: f32_mant_def f32_power_def)
    moreover have "f32_exp x * 2 ^ 23 + f32_frac x < 255 * 2 ^ 23"
      using assms f32_frac_bound [of x] by simp
    ultimately show ?thesis using False by (simp add: f32_mant_def)
  qed
  have "f32_pack (f32_neg x) ?m ?e =
      word_of_nat ((if f32_neg x then 2 ^ 31 else 0) +
        (if ?m = 0 then 0 else min (nat (?e + 149) * 2 ^ 23 + ?m) (255 * 2 ^ 23)))"
    by (simp add: f32_pack_def Let_def q [unfolded q_def])
  also have "\<dots> = word_of_nat (unat x)"
    by (simp only: bits f32_fields [of x] add.assoc)
  finally show ?thesis by simp
qed

lemma f32_mul_commute: "f32_mul a b = f32_mul b a"
  by (auto simp: f32_mul_def Let_def mult.commute add.commute)

subsection \<open>Signs and differences\<close>

lemma f32_bits: "f32_neg x \<longleftrightarrow> bit x 31" "f32_exp x = unat (take_bit 8 (drop_bit 23 x))" "f32_frac x = unat (take_bit 23 x)"
proof -
  have "unat x div 2 ^ 31 < 2" using unsigned_less [of x] by (intro less_mult_imp_div_less) simp
  then have "odd (unat x div 2 ^ 31) \<longleftrightarrow> 2 ^ 31 \<le> unat x" by (cases "unat x div 2 ^ 31 = 0") (auto simp: div_eq_0_iff)
  then show "f32_neg x \<longleftrightarrow> bit x 31"
    using bit_unsigned_iff [of x 31, where 'a = nat] by (simp add: f32_neg_def bit_iff_odd)
  show "f32_exp x = unat (take_bit 8 (drop_bit 23 x))"
    by (simp add: f32_exp_def take_bit_eq_mod drop_bit_eq_div unat_div unat_mod_distrib)
  show "f32_frac x = unat (take_bit 23 x)"
    by (simp add: f32_frac_def take_bit_eq_mod unat_mod_distrib)
qed

lemma f32_flip_sign:
  "f32_neg (x XOR 0x80000000) \<longleftrightarrow> \<not> f32_neg x" "f32_exp (x XOR 0x80000000) = f32_exp x"
  "f32_frac (x XOR 0x80000000) = f32_frac x"
proof -
  have top: "bit (0x80000000 :: f32) n \<longleftrightarrow> n = 31" for n
    using bit_exp_iff [of 31 n, where 'a = "32 word"] by auto
  show "f32_neg (x XOR 0x80000000) \<longleftrightarrow> \<not> f32_neg x" by (simp add: f32_bits bit_simps top)
  have "take_bit 8 (drop_bit 23 (x XOR 0x80000000)) = take_bit 8 (drop_bit 23 x)"
    "take_bit 23 (x XOR 0x80000000) = take_bit 23 x"
    by (rule bit_word_eqI; auto simp: bit_simps top)+
  then show "f32_exp (x XOR 0x80000000) = f32_exp x" "f32_frac (x XOR 0x80000000) = f32_frac x"
    by (simp_all add: f32_bits)
qed

lemma f32_sub_self:
  assumes "f32_exp x < 255"
  shows "f32_sub x x = 0"
proof -
  have same: "f32_power (x XOR 0x80000000) = f32_power x" "f32_mant (x XOR 0x80000000) = f32_mant x"
    by (simp_all add: f32_power_def f32_mant_def f32_flip_sign)
  show ?thesis
    using assms by (simp add: f32_sub_def f32_add_def f32_scaled_def f32_is_nan_def f32_is_inf_def f32_flip_sign same Let_def)
qed

text \<open>Evaluation: the fields of a pattern, then rounding.\<close>

lemmas float_fields = f32_is_nan_def f32_is_inf_def f32_mant_def f32_power_def f32_exp_def f32_frac_def f32_neg_def

lemmas float_pack = f32_pack_def bit_length.simps div_even_def

end
