(* ===== verification/Proto.thy ===== *)
theory Proto
  imports Float32 Errors
begin

text \<open>
  \<open>src/proto.rs\<close> and the schema \<open>proto/*.proto\<close>: the protobuf messages as records, the crate's own
  shot types, the request builders and the decoding of an envelope into an event. The protobuf
  library (encoding, decoding, the getter of an enum field) and the platform's \<open>cosf\<close>/\<open>sinf\<close> are not
  in the repository: they are the fields of the record \<open>platform\<close>, an argument of every operation that uses them. Enum
  fields are plain \<open>i32\<close>, as the generated structs have them.
\<close>

named_theorems decode_simps "decoding envelopes"

subsection \<open>Messages\<close>

text \<open>A message with one optional field is that field: \<open>StateReply\<close>, \<open>WakeResult\<close>, \<open>LevelReply\<close>,
  \<open>LevelCalibrateResult\<close>, \<open>LevelClearCommand\<close>, \<open>LevelClearResult\<close> and \<open>EnvironmentResult\<close> appear as options
  inside \<open>monitor_channel\<close>, whose outer option is the presence of the message.\<close>

type_synonym empty_message = unit

record orientation =
  roll_deg :: "f32 option"
  pitch_deg :: "f32 option"

record device_status =
  status_phase :: "i32 option"

record ball_launch =
  vertical_angle_deg :: "f32 option"
  horizontal_angle_deg :: "f32 option"
  speed_mps :: "f32 option"
  spin_tilt_deg :: "f32 option"
  spin_rpm :: "f32 option"
  spin_source :: "i32 option"
  marking :: "i32 option"

record club_delivery =
  head_speed_mps :: "f32 option"
  face_deg :: "f32 option"
  path_deg :: "f32 option"
  attack_deg :: "f32 option"

record swing_timing =
  takeaway :: "u32 option"
  transition :: "u32 option"
  impact_time :: "u32 option"
  finish_time :: "u32 option"
  capture_end :: "u32 option"

record shot_readout =
  shot_number :: "u32 option"
  shot_kind_code :: "i32 option"
  readout_ball :: "ball_launch option"
  readout_club :: "club_delivery option"
  readout_timing :: "swing_timing option"

record fault =
  fault_cause :: "i32 option"
  fault_urgency :: "i32 option"
  fault_orientation :: "orientation option"

record level_check =
  level_verdict :: "i32 option"
  level_attempt :: "i32 option"

record monitor_report =
  report_status :: "device_status option"
  report_shot :: "shot_readout option"
  report_fault :: "fault option"
  report_level :: "level_check option"

record environment_settings =
  air_temperature_c :: "f32 option"
  relative_humidity :: "f32 option"
  elevation_m :: "f32 option"
  air_density_kg_m3 :: "f32 option"
  settings_tee_distance_yd :: "f32 option"

record monitor_channel =
  state_query :: "empty_message option"
  state_reply :: "device_status option option"
  wake :: "empty_message option"
  wake_result :: "i32 option option"
  level_query :: "empty_message option"
  level_reply :: "orientation option option"
  level_calibrate :: "empty_message option"
  level_calibrate_result :: "i32 option option"
  level_clear :: "bool option option"
  level_clear_result :: "i32 option option"
  environment :: "environment_settings option"
  environment_result :: "bool option option"

record topic_selection =
  topic :: "i32 option"

record topic_outcome =
  outcome_code :: i32
  outcome_topic :: "topic_selection option"

record subscribe_command =
  topics :: "topic_selection list"

record subscribe_result =
  outcomes :: "topic_outcome list"

record notification =
  notification_topics :: "i32 list"
  notification_monitor :: "monitor_report option"

record alert_channel =
  subscribe :: "subscribe_command option"
  channel_result :: "subscribe_result option"
  channel_notification :: "notification option"

record envelope =
  env_alerts :: "alert_channel option"
  env_monitor :: "monitor_channel option"

text \<open>\<open>default()\<close>: every field unset.\<close>

definition monitor_channel_default :: monitor_channel where
  "monitor_channel_default =
     \<lparr>state_query = None, state_reply = None, wake = None, wake_result = None, level_query = None,
      level_reply = None, level_calibrate = None, level_calibrate_result = None, level_clear = None,
      level_clear_result = None, environment = None, environment_result = None\<rparr>"

definition alert_channel_default :: alert_channel where
  "alert_channel_default = \<lparr>subscribe = None, channel_result = None, channel_notification = None\<rparr>"

datatype outcome = OutcomeAccepted | OutcomeRejected

text \<open>\<open>Topic::ShotData\<close>.\<close>

definition TOPIC_SHOT_DATA :: i32 where
  "TOPIC_SHOT_DATA = 8"

record platform =
  pb_encode :: "envelope \<Rightarrow> bytes"
  pb_decode :: "bytes \<Rightarrow> pb_error + envelope"
  outcome_get :: "topic_outcome \<Rightarrow> outcome"
  cosf :: "f32 \<Rightarrow> f32"
  sinf :: "f32 \<Rightarrow> f32"

subsection \<open>The crate's types\<close>

datatype shot_kind = Warmup | Regular

datatype spin_calc_type = Estimated | FlightModel | OtherSpin | Measured

record ball_data =
  launch_angle :: f32
  launch_direction :: f32
  ball_speed :: f32
  spin_axis :: f32
  total_spin :: f32
  backspin :: f32
  sidespin :: f32
  spin_calc :: spin_calc_type

record club_data =
  club_head_speed :: f32
  face_angle :: f32
  path_angle :: f32
  attack_angle :: f32

record swing_data =
  backswing_start :: u32
  downswing_start :: u32
  impact :: u32
  follow_through_end :: u32

record shot_data =
  shot_id :: u32
  kind :: shot_kind
  ball :: "ball_data option"
  club :: "club_data option"
  swing :: "swing_data option"

datatype device_state = Standby | NoiseCheck | Waiting | Recording | Processing | ErrorState

definition device_state_from_proto :: "i32 \<Rightarrow> device_state option" where
  "device_state_from_proto v =
     (if v = 0 then Some Standby
      else if v = 1 then Some NoiseCheck
      else if v = 2 then Some Waiting
      else if v = 3 then Some Recording
      else if v = 4 then Some Processing
      else if v = 5 then Some ErrorState
      else None)"

datatype error_code = UnknownCode | Overheating | RadarSaturation | NotLevel

datatype error_severity = Warning | Serious | Fatal

record device_error =
  code :: error_code
  severity :: error_severity
  tilt :: "(f32 \<times> f32) option"

record environment_config =
  temperature :: "f32 option"
  humidity :: "f32 option"
  altitude :: "f32 option"
  air_density :: "f32 option"
  tee_distance_yd :: "f32 option"

datatype envelope_event =
    SubscribeResult bool
  | WakeResult i32
  | StateChange device_state
  | ShotEvent shot_data
  | ErrorEvent device_error
  | LevelCheck i32 i32
  | EnvironmentResult bool
  | MonitorReply
  | UnknownEnvelope

subsection \<open>Builders\<close>

definition build_subscribe_request :: "platform \<Rightarrow> bytes" where
  "build_subscribe_request pf =
     pb_encode pf
       \<lparr>env_alerts = Some (alert_channel_default\<lparr>subscribe := Some \<lparr>topics = [\<lparr>topic = Some TOPIC_SHOT_DATA\<rparr>]\<rparr>\<rparr>),
        env_monitor = None\<rparr>"

definition monitor_envelope :: "platform \<Rightarrow> monitor_channel \<Rightarrow> bytes" where
  "monitor_envelope pf channel = pb_encode pf \<lparr>env_alerts = None, env_monitor = Some channel\<rparr>"

definition build_environment_request :: "platform \<Rightarrow> environment_config \<Rightarrow> bytes" where
  "build_environment_request pf config =
     monitor_envelope pf (monitor_channel_default\<lparr>environment := Some
       \<lparr>air_temperature_c = temperature config, relative_humidity = humidity config,
        elevation_m = altitude config, air_density_kg_m3 = air_density config,
        settings_tee_distance_yd = tee_distance_yd config\<rparr>\<rparr>)"

definition build_wakeup_request :: "platform \<Rightarrow> bytes" where
  "build_wakeup_request pf = monitor_envelope pf (monitor_channel_default\<lparr>wake := Some ()\<rparr>)"

subsection \<open>Decoding\<close>

definition unwrap_or :: "'a \<Rightarrow> 'a option \<Rightarrow> 'a" where
  "unwrap_or d x = (case x of None \<Rightarrow> d | Some v \<Rightarrow> v)"

definition decode_ball :: "platform \<Rightarrow> ball_launch \<Rightarrow> ball_data" where
  "decode_ball pf b =
     (let axis_rad = f32_to_radians (unwrap_or 0 (spin_tilt_deg b));
          total = unwrap_or 0 (spin_rpm b);
          source = unwrap_or 0 (spin_source b)
      in \<lparr>launch_angle = unwrap_or 0 (vertical_angle_deg b),
          launch_direction = unwrap_or 0 (horizontal_angle_deg b),
          ball_speed = unwrap_or 0 (speed_mps b),
          spin_axis = unwrap_or 0 (spin_tilt_deg b),
          total_spin = total,
          backspin = f32_mul total (cosf pf axis_rad),
          sidespin = f32_mul total (sinf pf axis_rad),
          spin_calc = (if source = 0 then Estimated else if source = 1 then FlightModel
                       else if source = 3 then Measured else OtherSpin)\<rparr>)"

definition decode_metrics :: "platform \<Rightarrow> shot_readout \<Rightarrow> shot_data" where
  "decode_metrics pf m =
     \<lparr>shot_id = unwrap_or 0 (shot_number m),
      kind = (if unwrap_or 0 (shot_kind_code m) = 1 then Regular else Warmup),
      ball = map_option (decode_ball pf) (readout_ball m),
      club = map_option (\<lambda>c. \<lparr>club_head_speed = unwrap_or 0 (head_speed_mps c),
                              face_angle = unwrap_or 0 (face_deg c),
                              path_angle = unwrap_or 0 (path_deg c),
                              attack_angle = unwrap_or 0 (attack_deg c)\<rparr>) (readout_club m),
      swing = map_option (\<lambda>t. \<lparr>backswing_start = unwrap_or 0 (takeaway t),
                               downswing_start = unwrap_or 0 (transition t),
                               impact = unwrap_or 0 (impact_time t),
                               follow_through_end = unwrap_or 0 (finish_time t)\<rparr>) (readout_timing m)\<rparr>"

definition decode_error_report :: "fault \<Rightarrow> device_error" where
  "decode_error_report f =
     (let c = unwrap_or 0 (fault_cause f); u = unwrap_or 0 (fault_urgency f)
      in \<lparr>code = (if c = 1 then Overheating else if c = 2 then RadarSaturation
                  else if c = 3 then NotLevel else UnknownCode),
          severity = (if u = 1 then Serious else if u = 2 then Fatal else Warning),
          tilt = map_option (\<lambda>o'. (unwrap_or 0 (roll_deg o'), unwrap_or 0 (pitch_deg o')))
                   (fault_orientation f)\<rparr>)"

definition decode_notification :: "platform \<Rightarrow> notification \<Rightarrow> envelope_event" where
  "decode_notification pf n =
     (case notification_monitor n of
        None \<Rightarrow> UnknownEnvelope
      | Some report \<Rightarrow>
          (case report_shot report of
             Some shot \<Rightarrow> ShotEvent (decode_metrics pf shot)
           | None \<Rightarrow>
               (case Option.bind (Option.bind (report_status report) status_phase) device_state_from_proto of
                  Some ds \<Rightarrow> StateChange ds
                | None \<Rightarrow>
                    (case report_fault report of
                       Some f \<Rightarrow> ErrorEvent (decode_error_report f)
                     | None \<Rightarrow>
                         (case report_level report of
                            Some level \<Rightarrow> LevelCheck (unwrap_or 0 (level_verdict level))
                                                    (unwrap_or 0 (level_attempt level))
                          | None \<Rightarrow> UnknownEnvelope)))))"

definition envelope_to_event :: "platform \<Rightarrow> envelope \<Rightarrow> envelope_event" where
  "envelope_to_event pf env =
     (case env_alerts env of
        Some channel \<Rightarrow>
          (case channel_result channel of
             Some result \<Rightarrow>
               SubscribeResult (case outcomes result of [] \<Rightarrow> False | o' # _ \<Rightarrow> outcome_get pf o' = OutcomeAccepted)
           | None \<Rightarrow>
               (case channel_notification channel of
                  Some n \<Rightarrow> decode_notification pf n
                | None \<Rightarrow> UnknownEnvelope))
      | None \<Rightarrow>
          (case env_monitor env of
             Some channel \<Rightarrow>
               (case wake_result channel of
                  Some outcome_field \<Rightarrow> WakeResult (unwrap_or 0 outcome_field)
                | None \<Rightarrow>
                    (case environment_result channel of
                       Some accepted \<Rightarrow> EnvironmentResult (unwrap_or False accepted)
                     | None \<Rightarrow> MonitorReply))
           | None \<Rightarrow> UnknownEnvelope))"

definition decode_envelope :: "platform \<Rightarrow> bytes \<Rightarrow> pb_error + envelope_event" where
  "decode_envelope pf pb_data =
     (case pb_decode pf pb_data of Inl e \<Rightarrow> Inl e | Inr env \<Rightarrow> Inr (envelope_to_event pf env))"

subsection \<open>Lemmas\<close>

lemma unwrap_or_simps [decode_simps, simp]: "unwrap_or d None = d" "unwrap_or d (Some v) = v"
  by (simp_all add: unwrap_or_def)

fun device_state_code :: "device_state \<Rightarrow> i32" where
  "device_state_code Standby = 0"
| "device_state_code NoiseCheck = 1"
| "device_state_code Waiting = 2"
| "device_state_code Recording = 3"
| "device_state_code Processing = 4"
| "device_state_code ErrorState = 5"

lemma device_state_code_inverse [decode_simps, simp]:
  "device_state_from_proto (device_state_code s) = Some s"
  by (cases s) (simp_all add: device_state_from_proto_def)

lemma device_state_code_inj [decode_simps, simp]: "device_state_code s = device_state_code t \<longleftrightarrow> s = t"
  by (metis device_state_code_inverse option.inject)

lemma device_state_from_proto_Some:
  "device_state_from_proto v = Some s \<longleftrightarrow> v = device_state_code s"
  by (cases s) (auto simp: device_state_from_proto_def split: if_splits)

fun spin_calc_code :: "spin_calc_type \<Rightarrow> i32" where
  "spin_calc_code Estimated = 0"
| "spin_calc_code FlightModel = 1"
| "spin_calc_code OtherSpin = 2"
| "spin_calc_code Measured = 3"

text \<open>The report a device sends for a shot, every field set.\<close>

definition readout_of_ball :: "ball_data \<Rightarrow> ball_launch" where
  "readout_of_ball b =
     \<lparr>vertical_angle_deg = Some (launch_angle b), horizontal_angle_deg = Some (launch_direction b),
      speed_mps = Some (ball_speed b), spin_tilt_deg = Some (spin_axis b), spin_rpm = Some (total_spin b),
      spin_source = Some (spin_calc_code (spin_calc b)), marking = None\<rparr>"

definition readout_of :: "shot_data \<Rightarrow> shot_readout" where
  "readout_of s =
     \<lparr>shot_number = Some (shot_id s),
      shot_kind_code = Some (case kind s of Warmup \<Rightarrow> 0 | Regular \<Rightarrow> 1),
      readout_ball = map_option readout_of_ball (ball s),
      readout_club = map_option (\<lambda>c. \<lparr>head_speed_mps = Some (club_head_speed c), face_deg = Some (face_angle c),
        path_deg = Some (path_angle c), attack_deg = Some (attack_angle c)\<rparr>) (club s),
      readout_timing = map_option (\<lambda>w. \<lparr>takeaway = Some (backswing_start w), transition = Some (downswing_start w),
        impact_time = Some (impact w), finish_time = Some (follow_through_end w), capture_end = None\<rparr>) (swing s)\<rparr>"

definition with_spin_components :: "platform \<Rightarrow> ball_data \<Rightarrow> ball_data" where
  "with_spin_components pf b =
     b\<lparr>backspin := f32_mul (total_spin b) (cosf pf (f32_to_radians (spin_axis b))),
       sidespin := f32_mul (total_spin b) (sinf pf (f32_to_radians (spin_axis b)))\<rparr>"

lemma decode_ball_readout [decode_simps]: "decode_ball pf (readout_of_ball b) = with_spin_components pf b"
  by (cases b; cases "spin_calc b") (simp_all add: decode_ball_def readout_of_ball_def with_spin_components_def Let_def)

lemma club_eta [decode_simps]:
  "\<lparr>club_head_speed = club_head_speed x, face_angle = face_angle x, path_angle = path_angle x,
    attack_angle = attack_angle x\<rparr> = x"
  by (cases x) simp

lemma swing_eta [decode_simps]:
  "\<lparr>backswing_start = backswing_start x, downswing_start = downswing_start x, impact = impact x,
    follow_through_end = follow_through_end x\<rparr> = x"
  by (cases x) simp

lemma decode_metrics_readout [decode_simps]:
  "decode_metrics pf (readout_of s) = s\<lparr>ball := map_option (with_spin_components pf) (ball s)\<rparr>"
  by (cases s; cases "kind s")
     (simp_all add: decode_metrics_def readout_of_def option.map_comp comp_def decode_simps option.map_ident)

text \<open>Where in an envelope the monitor's report is, for the notifications the device pushes.\<close>

definition pushed_report :: "envelope \<Rightarrow> monitor_report option" where
  "pushed_report env =
     Option.bind (env_alerts env) (\<lambda>ch.
       if channel_result ch = None then Option.bind (channel_notification ch) notification_monitor else None)"

lemma envelope_event_pushed:
  assumes "pushed_report env = Some r"
  shows "envelope_to_event pf env =
     (case report_shot r of Some shot \<Rightarrow> ShotEvent (decode_metrics pf shot) | None \<Rightarrow>
        (case Option.bind (Option.bind (report_status r) status_phase) device_state_from_proto of
           Some ds \<Rightarrow> StateChange ds
         | None \<Rightarrow> (case report_fault r of Some f \<Rightarrow> ErrorEvent (decode_error_report f)
             | None \<Rightarrow> (case report_level r of
                 Some l \<Rightarrow> LevelCheck (unwrap_or 0 (level_verdict l)) (unwrap_or 0 (level_attempt l))
               | None \<Rightarrow> UnknownEnvelope))))"
proof -
  obtain ch n where "env_alerts env = Some ch" "channel_result ch = None"
      "channel_notification ch = Some n" "notification_monitor n = Some r"
    using assms by (auto simp: pushed_report_def bind_eq_Some_conv split: if_splits)
  then show ?thesis by (simp add: envelope_to_event_def decode_notification_def)
qed

lemma envelope_event_other:
  assumes "pushed_report env = None"
  shows "envelope_to_event pf env \<noteq> ShotEvent s \<and> envelope_to_event pf env \<noteq> StateChange ds"
proof (cases "env_alerts env")
  case None
  then show ?thesis by (auto simp: envelope_to_event_def split: option.splits)
next
  case (Some ch)
  then consider "channel_result ch \<noteq> None" | "channel_result ch = None" "channel_notification ch = None"
    | n where "channel_result ch = None" "channel_notification ch = Some n" "notification_monitor n = None"
    using assms by (cases "channel_result ch"; cases "channel_notification ch") (auto simp: pushed_report_def)
  then show ?thesis
    by cases (use Some in \<open>auto simp: envelope_to_event_def decode_notification_def\<close>)
qed

subsection \<open>Properties\<close>

text \<open>C39: a shot event comes out exactly for an envelope whose pushed report carries a shot, with the
  decoded readout; a state change exactly for one without a shot whose phase is one of the six known.\<close>

theorem pushed_events_exact:
  "(envelope_to_event pf env = ShotEvent s \<longleftrightarrow>
      (\<exists>r shot. pushed_report env = Some r \<and> report_shot r = Some shot \<and> s = decode_metrics pf shot)) \<and>
   (envelope_to_event pf env = StateChange ds \<longleftrightarrow>
      (\<exists>r st. pushed_report env = Some r \<and> report_shot r = None \<and> report_status r = Some st \<and>
              status_phase st = Some (device_state_code ds)))"
proof (cases "pushed_report env")
  case None
  then show ?thesis using envelope_event_other [OF None, of pf s ds] by simp
next
  case (Some r)
  show ?thesis
    unfolding envelope_event_pushed [OF Some]
    by (auto simp: Some bind_eq_Some_conv device_state_from_proto_Some split: option.splits)
qed

text \<open>Decoding the report of a shot gives the shot back, every field, with the two spin components
  computed from total spin and axis.\<close>

theorem shot_report_roundtrip:
  "decode_metrics pf (readout_of s) =
     s\<lparr>ball := map_option (\<lambda>b. b\<lparr>backspin := f32_mul (total_spin b) (cosf pf (f32_to_radians (spin_axis b))),
                                sidespin := f32_mul (total_spin b) (sinf pf (f32_to_radians (spin_axis b)))\<rparr>) (ball s)\<rparr>"
  unfolding decode_metrics_readout with_spin_components_def ..

end
