(* ===== verification/Wire_Format.thy ===== *)
theory Wire_Format
  imports Proto "HOL-Library.Monad_Syntax"
begin

text \<open>
  The schema \<open>proto/*.proto\<close> in the documented binary format of protobuf, which is what the crate relies on the
  protobuf library for: the bytes of every message and the reading of a message from bytes. The locale
  \<open>speaks_protobuf\<close> says that a platform's library does this; the reader and writer below are an
  instance of it.
\<close>

named_theorems wire_simps "reading what was written"

subsection \<open>The wire format\<close>

text \<open>Varints: seven bits per byte, low ones first, the high bit set on all but the last byte; at most ten
  bytes and 64 bits.\<close>

fun varint :: "nat \<Rightarrow> bytes" where
  "varint n = (if n < 128 then [word_of_nat n] else word_of_nat (128 + n mod 128) # varint (n div 128))"

declare varint.simps [simp del]

fun read_varint_in :: "nat \<Rightarrow> bytes \<Rightarrow> (nat \<times> bytes) option" where
  "read_varint_in k [] = None"
| "read_varint_in 0 (b # bs) = None"
| "read_varint_in (Suc k) (b # bs) =
     (if unat b < 128 then Some (unat b, bs)
      else case read_varint_in k bs of None \<Rightarrow> None | Some (v, rest) \<Rightarrow> Some (unat b - 128 + 128 * v, rest))"

definition read_varint :: "bytes \<Rightarrow> (nat \<times> bytes) option" where
  "read_varint bs =
     (case read_varint_in 10 bs of None \<Rightarrow> None | Some (v, rest) \<Rightarrow> if v < 2 ^ 64 then Some (v, rest) else None)"

text \<open>A field is a number and a value of one of four wire types. Groups, the other two, are in no message of
  the schema.\<close>

datatype wire_value = Varint nat | Bits64 bytes | Chunk bytes | Bits32 u32

type_synonym wire_field = "nat \<times> wire_value"

fun field_bytes :: "wire_field \<Rightarrow> bytes" where
  "field_bytes (n, Varint v) = varint (8 * n) @ varint v"
| "field_bytes (n, Bits64 b) = varint (8 * n + 1) @ b"
| "field_bytes (n, Chunk b) = varint (8 * n + 2) @ varint (length b) @ b"
| "field_bytes (n, Bits32 w) = varint (8 * n + 5) @ le32 w"

definition wire_bytes :: "wire_field list \<Rightarrow> bytes" where
  "wire_bytes fs = concat (map field_bytes fs)"

definition take_exactly :: "nat \<Rightarrow> bytes \<Rightarrow> (bytes \<times> bytes) option" where
  "take_exactly n bs = (if n \<le> length bs then Some (take n bs, drop n bs) else None)"

definition read_value :: "nat \<Rightarrow> bytes \<Rightarrow> (wire_value \<times> bytes) option" where
  "read_value t bs =
     (if t = 0 then map_option (\<lambda>(v, rest). (Varint v, rest)) (read_varint bs)
      else if t = 1 then map_option (\<lambda>(b, rest). (Bits64 b, rest)) (take_exactly 8 bs)
      else if t = 2
      then do {
        (n, rest) \<leftarrow> read_varint bs;
        (b, rest) \<leftarrow> take_exactly n rest;
        Some (Chunk b, rest)
      }
      else if t = 5
      then map_option (\<lambda>(b, rest). (Bits32 (of_le32 (b ! 0) (b ! 1) (b ! 2) (b ! 3)), rest)) (take_exactly 4 bs)
      else None)"

definition read_field :: "bytes \<Rightarrow> (wire_field \<times> bytes) option" where
  "read_field bs = do {
     (key, rest) \<leftarrow> read_varint bs;
     (v, rest) \<leftarrow> read_value (key mod 8) rest;
     if key < 8 \<or> 2 ^ 32 \<le> key then None else Some ((key div 8, v), rest)
   }"

lemma read_varint_in_shrinks: "read_varint_in k bs = Some (v, rest) \<Longrightarrow> length rest < length bs"
  by (induction k bs arbitrary: v rule: read_varint_in.induct)
     (fastforce split: if_splits option.splits prod.splits)+

lemma read_varint_shrinks: "read_varint bs = Some (v, rest) \<Longrightarrow> length rest < length bs"
  by (auto simp: read_varint_def split: option.splits if_splits dest: read_varint_in_shrinks)

lemma read_value_shrinks: "read_value t bs = Some (v, rest) \<Longrightarrow> length rest \<le> length bs"
  by (auto simp: read_value_def take_exactly_def split: if_splits dest!: read_varint_shrinks
      simp: Option.bind_eq_Some_conv)

lemma read_field_shrinks: "read_field bs = Some (f, rest) \<Longrightarrow> length rest < length bs"
  by (auto simp: read_field_def Option.bind_eq_Some_conv split: if_splits dest!: read_varint_shrinks read_value_shrinks)

function wire_fields :: "bytes \<Rightarrow> wire_field list option" where
  "wire_fields bs =
     (if bs = [] then Some []
      else case read_field bs of None \<Rightarrow> None | Some (f, rest) \<Rightarrow> map_option (Cons f) (wire_fields rest))"
  by auto
termination by (relation "measure length") (auto dest: read_field_shrinks)

declare wire_fields.simps [simp del]

subsection \<open>Reading what was written\<close>

lemma unat_high_bit: "unat (128 + word_of_nat (n mod 128) :: u8) = 128 + n mod 128"
proof -
  have "unat (word_of_nat (128 + n mod 128) :: u8) = 128 + n mod 128"
    by (simp only: unsigned_of_nat) (simp add: take_bit_nat_eq_self)
  then show ?thesis by simp
qed

lemma read_varint_in_varint:
  "n < 128 ^ Suc k \<Longrightarrow> read_varint_in (Suc k) (varint n @ rest) = Some (n, rest)"
proof (induction k arbitrary: n)
  case 0
  then show ?case by (simp add: varint.simps [of n] unsigned_of_nat take_bit_nat_eq_self)
next
  case (Suc k)
  have "n div 128 < 128 ^ Suc k" using Suc.prems by (simp add: less_mult_imp_div_less mult.commute)
  then show ?case
    using Suc.IH [of "n div 128"]
    by (cases "n < 128") (simp_all add: varint.simps [of n] unat_high_bit unsigned_of_nat take_bit_nat_eq_self)
qed

lemma read_varint_varint [wire_simps, simp]:
  "n < 2 ^ 64 \<Longrightarrow> read_varint (varint n @ rest) = Some (n, rest)"
  using read_varint_in_varint [of n 9 rest] by (simp add: read_varint_def)

lemma varint_nonempty [simp]: "varint n \<noteq> []"
  by (simp add: varint.simps [of n])

text \<open>A field number that the key can carry, a value that its wire type can carry.\<close>

definition sound_field :: "wire_field \<Rightarrow> bool" where
  "sound_field f = (case f of (n, v) \<Rightarrow> 0 < n \<and> n < 2 ^ 29 \<and>
     (case v of Varint x \<Rightarrow> x < 2 ^ 64 | Bits64 b \<Rightarrow> length b = 8 | _ \<Rightarrow> True))"

lemma take_exactly_append [simp]: "take_exactly (length b) (b @ rest) = Some (b, rest)"
  by (simp add: take_exactly_def)

lemma read_field_bytes:
  assumes "sound_field f" "length (field_bytes f) < 2 ^ 64"
  shows "read_field (field_bytes f @ rest) = Some (f, rest)"
proof -
  obtain n v where f: "f = (n, v)" by fastforce
  then have n: "8 * n + t < 2 ^ 32" "(8 * n + t) mod 8 = t" "(8 * n + t) div 8 = n" "\<not> 8 * n + t < 8" if "t < 8" for t
    using assms(1) that by (auto simp: sound_field_def)
  have key: "read_varint (varint (8 * n + t) @ r) = Some (8 * n + t, r)" if "t < 8" for t r
    using n(1) [OF that] by (intro read_varint_varint) simp
  show ?thesis
  proof (cases v)
    case (Varint x)
    then show ?thesis
      using f assms(1) key [of 0] n [of 0] by (simp add: read_field_def read_value_def sound_field_def)
  next
    case (Bits64 b)
    then show ?thesis
      using f assms(1) key [of 1] n [of 1] take_exactly_append [of b]
      by (simp add: read_field_def read_value_def sound_field_def)
  next
    case (Chunk b)
    then show ?thesis
      using f assms key [of 2] n [of 2]
      by (simp add: read_field_def read_value_def sound_field_def)
  next
    case (Bits32 w)
    then show ?thesis
      using f key [of 5] n [of 5] take_exactly_append [of "le32 w"]
      by (simp add: read_field_def read_value_def)
  qed
qed

lemma wire_bytes_simps [simp]:
  "wire_bytes [] = []" "wire_bytes (f # fs) = field_bytes f @ wire_bytes fs"
  "wire_bytes (fs @ gs) = wire_bytes fs @ wire_bytes gs"
  by (simp_all add: wire_bytes_def)

lemma field_bytes_nonempty [simp]: "field_bytes f \<noteq> []"
  by (cases f rule: field_bytes.cases) simp_all

lemma wire_fields_bytes [wire_simps]:
  "list_all sound_field fs \<Longrightarrow> length (wire_bytes fs) < 2 ^ 64 \<Longrightarrow> wire_fields (wire_bytes fs) = Some fs"
proof (induction fs)
  case (Cons f fs)
  then show ?case
    using read_field_bytes [of f "wire_bytes fs"] by (subst wire_fields.simps) simp
qed (simp add: wire_fields.simps)

lemma chunk_shorter: "(n, Chunk b) \<in> set fs \<Longrightarrow> length b < length (wire_bytes fs)"
proof (induction fs)
  case (Cons f fs)
  then show ?case by (auto simp: less_SucI trans_less_add2)
qed simp

end
