(* ===== verification/Wire_Schema.thy ===== *)
theory Wire_Schema
  imports Wire_Format
begin

text \<open>
  The messages of \<open>proto/*.proto\<close> as lists of fields, one definition for the fields a message is written as and
  one for reading it: declared fields by number, the last value of a field winning, occurrences of an
  embedded message merged, undeclared fields skipped.
\<close>

subsection \<open>Fields by number\<close>

definition occurrences :: "nat \<Rightarrow> wire_field list \<Rightarrow> wire_value list" where
  "occurrences n fs = map snd (filter (\<lambda>f. fst f = n) fs)"

definition get_last :: "(wire_value \<Rightarrow> 'a option) \<Rightarrow> nat \<Rightarrow> wire_field list \<Rightarrow> 'a option option" where
  "get_last rd n fs =
     map_option (\<lambda>xs. if xs = [] then None else Some (last xs)) (those (map rd (occurrences n fs)))"

definition chunk_fields :: "wire_value \<Rightarrow> wire_field list option" where
  "chunk_fields v = (case v of Chunk b \<Rightarrow> wire_fields b | _ \<Rightarrow> None)"

definition get_message :: "(wire_field list \<Rightarrow> 'm option) \<Rightarrow> nat \<Rightarrow> wire_field list \<Rightarrow> 'm option option" where
  "get_message rd n fs = do {
     parts \<leftarrow> those (map chunk_fields (occurrences n fs));
     if parts = [] then Some None else map_option Some (rd (concat parts))
   }"

definition get_messages :: "(wire_field list \<Rightarrow> 'm option) \<Rightarrow> nat \<Rightarrow> wire_field list \<Rightarrow> 'm list option" where
  "get_messages rd n fs = those (map (\<lambda>v. Option.bind (chunk_fields v) rd) (occurrences n fs))"

definition opt_field :: "nat \<Rightarrow> ('a \<Rightarrow> wire_value) \<Rightarrow> 'a option \<Rightarrow> wire_field list" where
  "opt_field n wr x = (case x of None \<Rightarrow> [] | Some v \<Rightarrow> [(n, wr v)])"

definition message :: "wire_field list \<Rightarrow> wire_value" where
  "message fs = Chunk (wire_bytes fs)"

subsection \<open>Scalars\<close>

text \<open>\<open>float\<close> is a fixed 32-bit value; \<open>uint32\<close>, \<open>bool\<close> and enums are varints, an enum sign-extended to 64 bits.\<close>

definition of_i32 :: "i32 \<Rightarrow> wire_value" where
  "of_i32 x = Varint (unat (scast x :: u64))"

definition of_u32 :: "u32 \<Rightarrow> wire_value" where
  "of_u32 x = Varint (unat x)"

definition of_flag :: "bool \<Rightarrow> wire_value" where
  "of_flag x = Varint (if x then 1 else 0)"

definition as_i32 :: "wire_value \<Rightarrow> i32 option" where
  "as_i32 v = (case v of Varint n \<Rightarrow> Some (word_of_nat n) | _ \<Rightarrow> None)"

definition as_u32 :: "wire_value \<Rightarrow> u32 option" where
  "as_u32 v = (case v of Varint n \<Rightarrow> Some (word_of_nat n) | _ \<Rightarrow> None)"

definition as_flag :: "wire_value \<Rightarrow> bool option" where
  "as_flag v = (case v of Varint n \<Rightarrow> Some (n \<noteq> 0) | _ \<Rightarrow> None)"

definition as_f32 :: "wire_value \<Rightarrow> f32 option" where
  "as_f32 v = (case v of Bits32 w \<Rightarrow> Some w | _ \<Rightarrow> None)"

text \<open>A repeated enum is written one value per field, and read in that form and in the packed one.\<close>

function packed :: "bytes \<Rightarrow> nat list option" where
  "packed bs =
     (if bs = [] then Some []
      else case read_varint bs of None \<Rightarrow> None | Some (v, rest) \<Rightarrow> map_option (Cons v) (packed rest))"
  by auto
termination by (relation "measure length") (auto dest: read_varint_shrinks)

declare packed.simps [simp del]

definition as_i32s :: "wire_value \<Rightarrow> i32 list option" where
  "as_i32s v = (case v of Varint n \<Rightarrow> Some [word_of_nat n] | Chunk b \<Rightarrow> map_option (map word_of_nat) (packed b) | _ \<Rightarrow> None)"

definition get_i32s :: "nat \<Rightarrow> wire_field list \<Rightarrow> i32 list option" where
  "get_i32s n fs = map_option concat (those (map as_i32s (occurrences n fs)))"

subsection \<open>\<open>proto/monitor.proto\<close>\<close>

definition orientation_fields :: "orientation \<Rightarrow> wire_field list" where
  "orientation_fields m = opt_field 1 Bits32 (roll_deg m) @ opt_field 2 Bits32 (pitch_deg m)"

definition read_orientation :: "wire_field list \<Rightarrow> orientation option" where
  "read_orientation fs = do {
     r \<leftarrow> get_last as_f32 1 fs;
     p \<leftarrow> get_last as_f32 2 fs;
     Some \<lparr>roll_deg = r, pitch_deg = p\<rparr>
   }"

definition device_status_fields :: "device_status \<Rightarrow> wire_field list" where
  "device_status_fields m = opt_field 1 of_i32 (status_phase m)"

definition read_device_status :: "wire_field list \<Rightarrow> device_status option" where
  "read_device_status fs = do { p \<leftarrow> get_last as_i32 1 fs; Some \<lparr>status_phase = p\<rparr> }"

definition ball_launch_fields :: "ball_launch \<Rightarrow> wire_field list" where
  "ball_launch_fields m =
     opt_field 1 Bits32 (vertical_angle_deg m) @ opt_field 2 Bits32 (horizontal_angle_deg m) @
     opt_field 3 Bits32 (speed_mps m) @ opt_field 4 Bits32 (spin_tilt_deg m) @ opt_field 5 Bits32 (spin_rpm m) @
     opt_field 6 of_i32 (spin_source m) @ opt_field 7 of_i32 (marking m)"

definition read_ball_launch :: "wire_field list \<Rightarrow> ball_launch option" where
  "read_ball_launch fs = do {
     a \<leftarrow> get_last as_f32 1 fs;
     b \<leftarrow> get_last as_f32 2 fs;
     c \<leftarrow> get_last as_f32 3 fs;
     d \<leftarrow> get_last as_f32 4 fs;
     e \<leftarrow> get_last as_f32 5 fs;
     f \<leftarrow> get_last as_i32 6 fs;
     g \<leftarrow> get_last as_i32 7 fs;
     Some \<lparr>vertical_angle_deg = a, horizontal_angle_deg = b, speed_mps = c, spin_tilt_deg = d, spin_rpm = e,
       spin_source = f, marking = g\<rparr>
   }"

definition club_delivery_fields :: "club_delivery \<Rightarrow> wire_field list" where
  "club_delivery_fields m =
     opt_field 1 Bits32 (head_speed_mps m) @ opt_field 2 Bits32 (face_deg m) @ opt_field 3 Bits32 (path_deg m) @
     opt_field 4 Bits32 (attack_deg m)"

definition read_club_delivery :: "wire_field list \<Rightarrow> club_delivery option" where
  "read_club_delivery fs = do {
     a \<leftarrow> get_last as_f32 1 fs;
     b \<leftarrow> get_last as_f32 2 fs;
     c \<leftarrow> get_last as_f32 3 fs;
     d \<leftarrow> get_last as_f32 4 fs;
     Some \<lparr>head_speed_mps = a, face_deg = b, path_deg = c, attack_deg = d\<rparr>
   }"

definition swing_timing_fields :: "swing_timing \<Rightarrow> wire_field list" where
  "swing_timing_fields m =
     opt_field 1 of_u32 (takeaway m) @ opt_field 2 of_u32 (transition m) @ opt_field 3 of_u32 (impact_time m) @
     opt_field 4 of_u32 (finish_time m) @ opt_field 5 of_u32 (capture_end m)"

definition read_swing_timing :: "wire_field list \<Rightarrow> swing_timing option" where
  "read_swing_timing fs = do {
     a \<leftarrow> get_last as_u32 1 fs;
     b \<leftarrow> get_last as_u32 2 fs;
     c \<leftarrow> get_last as_u32 3 fs;
     d \<leftarrow> get_last as_u32 4 fs;
     e \<leftarrow> get_last as_u32 5 fs;
     Some \<lparr>takeaway = a, transition = b, impact_time = c, finish_time = d, capture_end = e\<rparr>
   }"

definition shot_readout_fields :: "shot_readout \<Rightarrow> wire_field list" where
  "shot_readout_fields m =
     opt_field 1 of_u32 (shot_number m) @ opt_field 2 of_i32 (shot_kind_code m) @
     opt_field 3 (\<lambda>x. message (ball_launch_fields x)) (readout_ball m) @
     opt_field 4 (\<lambda>x. message (club_delivery_fields x)) (readout_club m) @
     opt_field 5 (\<lambda>x. message (swing_timing_fields x)) (readout_timing m)"

definition read_shot_readout :: "wire_field list \<Rightarrow> shot_readout option" where
  "read_shot_readout fs = do {
     a \<leftarrow> get_last as_u32 1 fs;
     b \<leftarrow> get_last as_i32 2 fs;
     c \<leftarrow> get_message read_ball_launch 3 fs;
     d \<leftarrow> get_message read_club_delivery 4 fs;
     e \<leftarrow> get_message read_swing_timing 5 fs;
     Some \<lparr>shot_number = a, shot_kind_code = b, readout_ball = c, readout_club = d, readout_timing = e\<rparr>
   }"

definition fault_fields :: "fault \<Rightarrow> wire_field list" where
  "fault_fields m =
     opt_field 1 of_i32 (fault_cause m) @ opt_field 2 of_i32 (fault_urgency m) @
     opt_field 3 (\<lambda>x. message (orientation_fields x)) (fault_orientation m)"

definition read_fault :: "wire_field list \<Rightarrow> fault option" where
  "read_fault fs = do {
     a \<leftarrow> get_last as_i32 1 fs;
     b \<leftarrow> get_last as_i32 2 fs;
     c \<leftarrow> get_message read_orientation 3 fs;
     Some \<lparr>fault_cause = a, fault_urgency = b, fault_orientation = c\<rparr>
   }"

definition level_check_fields :: "level_check \<Rightarrow> wire_field list" where
  "level_check_fields m = opt_field 1 of_i32 (level_verdict m) @ opt_field 2 of_i32 (level_attempt m)"

definition read_level_check :: "wire_field list \<Rightarrow> level_check option" where
  "read_level_check fs = do {
     a \<leftarrow> get_last as_i32 1 fs;
     b \<leftarrow> get_last as_i32 2 fs;
     Some \<lparr>level_verdict = a, level_attempt = b\<rparr>
   }"

definition monitor_report_fields :: "monitor_report \<Rightarrow> wire_field list" where
  "monitor_report_fields m =
     opt_field 1 (\<lambda>x. message (device_status_fields x)) (report_status m) @
     opt_field 2 (\<lambda>x. message (shot_readout_fields x)) (report_shot m) @
     opt_field 3 (\<lambda>x. message (fault_fields x)) (report_fault m) @
     opt_field 4 (\<lambda>x. message (level_check_fields x)) (report_level m)"

definition read_monitor_report :: "wire_field list \<Rightarrow> monitor_report option" where
  "read_monitor_report fs = do {
     a \<leftarrow> get_message read_device_status 1 fs;
     b \<leftarrow> get_message read_shot_readout 2 fs;
     c \<leftarrow> get_message read_fault 3 fs;
     d \<leftarrow> get_message read_level_check 4 fs;
     Some \<lparr>report_status = a, report_shot = b, report_fault = c, report_level = d\<rparr>
   }"

definition environment_settings_fields :: "environment_settings \<Rightarrow> wire_field list" where
  "environment_settings_fields m =
     opt_field 1 Bits32 (air_temperature_c m) @ opt_field 2 Bits32 (relative_humidity m) @
     opt_field 3 Bits32 (elevation_m m) @ opt_field 4 Bits32 (air_density_kg_m3 m) @
     opt_field 5 Bits32 (settings_tee_distance_yd m)"

definition read_environment_settings :: "wire_field list \<Rightarrow> environment_settings option" where
  "read_environment_settings fs = do {
     a \<leftarrow> get_last as_f32 1 fs;
     b \<leftarrow> get_last as_f32 2 fs;
     c \<leftarrow> get_last as_f32 3 fs;
     d \<leftarrow> get_last as_f32 4 fs;
     e \<leftarrow> get_last as_f32 5 fs;
     Some \<lparr>air_temperature_c = a, relative_humidity = b, elevation_m = c, air_density_kg_m3 = d,
       settings_tee_distance_yd = e\<rparr>
   }"

text \<open>Messages of one field and of none.\<close>

definition read_empty :: "wire_field list \<Rightarrow> empty_message option" where
  "read_empty fs = Some ()"

definition monitor_channel_fields :: "monitor_channel \<Rightarrow> wire_field list" where
  "monitor_channel_fields m =
     opt_field 1 (\<lambda>x. message []) (state_query m) @
     opt_field 2 (\<lambda>x. message (opt_field 1 (\<lambda>y. message (device_status_fields y)) x)) (state_reply m) @
     opt_field 3 (\<lambda>x. message []) (wake m) @
     opt_field 4 (\<lambda>x. message (opt_field 1 of_i32 x)) (wake_result m) @
     opt_field 5 (\<lambda>x. message []) (level_query m) @
     opt_field 6 (\<lambda>x. message (opt_field 1 (\<lambda>y. message (orientation_fields y)) x)) (level_reply m) @
     opt_field 7 (\<lambda>x. message []) (level_calibrate m) @
     opt_field 8 (\<lambda>x. message (opt_field 1 of_i32 x)) (level_calibrate_result m) @
     opt_field 9 (\<lambda>x. message (opt_field 1 of_flag x)) (level_clear m) @
     opt_field 10 (\<lambda>x. message (opt_field 1 of_i32 x)) (level_clear_result m) @
     opt_field 11 (\<lambda>x. message (environment_settings_fields x)) (environment m) @
     opt_field 12 (\<lambda>x. message (opt_field 1 of_flag x)) (environment_result m)"

definition read_monitor_channel :: "wire_field list \<Rightarrow> monitor_channel option" where
  "read_monitor_channel fs = do {
     a \<leftarrow> get_message read_empty 1 fs;
     b \<leftarrow> get_message (get_message read_device_status 1) 2 fs;
     c \<leftarrow> get_message read_empty 3 fs;
     d \<leftarrow> get_message (get_last as_i32 1) 4 fs;
     e \<leftarrow> get_message read_empty 5 fs;
     f \<leftarrow> get_message (get_message read_orientation 1) 6 fs;
     g \<leftarrow> get_message read_empty 7 fs;
     h \<leftarrow> get_message (get_last as_i32 1) 8 fs;
     i \<leftarrow> get_message (get_last as_flag 1) 9 fs;
     j \<leftarrow> get_message (get_last as_i32 1) 10 fs;
     k \<leftarrow> get_message read_environment_settings 11 fs;
     l \<leftarrow> get_message (get_last as_flag 1) 12 fs;
     Some \<lparr>state_query = a, state_reply = b, wake = c, wake_result = d, level_query = e, level_reply = f,
       level_calibrate = g, level_calibrate_result = h, level_clear = i, level_clear_result = j, environment = k,
       environment_result = l\<rparr>
   }"

subsection \<open>\<open>proto/alerts.proto\<close> and \<open>proto/envelope.proto\<close>\<close>

definition topic_selection_fields :: "topic_selection \<Rightarrow> wire_field list" where
  "topic_selection_fields m = opt_field 1 of_i32 (topic m)"

definition read_topic_selection :: "wire_field list \<Rightarrow> topic_selection option" where
  "read_topic_selection fs = do { t \<leftarrow> get_last as_i32 1 fs; Some \<lparr>topic = t\<rparr> }"

definition topic_outcome_fields :: "topic_outcome \<Rightarrow> wire_field list" where
  "topic_outcome_fields m =
     (1, of_i32 (outcome_code m)) # opt_field 2 (\<lambda>x. message (topic_selection_fields x)) (outcome_topic m)"

definition read_topic_outcome :: "wire_field list \<Rightarrow> topic_outcome option" where
  "read_topic_outcome fs = do {
     a \<leftarrow> get_last as_i32 1 fs;
     b \<leftarrow> get_message read_topic_selection 2 fs;
     Some \<lparr>outcome_code = unwrap_or 0 a, outcome_topic = b\<rparr>
   }"

definition subscribe_command_fields :: "subscribe_command \<Rightarrow> wire_field list" where
  "subscribe_command_fields m = map (\<lambda>x. (1, message (topic_selection_fields x))) (topics m)"

definition read_subscribe_command :: "wire_field list \<Rightarrow> subscribe_command option" where
  "read_subscribe_command fs = do { ts \<leftarrow> get_messages read_topic_selection 1 fs; Some \<lparr>topics = ts\<rparr> }"

definition subscribe_result_fields :: "subscribe_result \<Rightarrow> wire_field list" where
  "subscribe_result_fields m = map (\<lambda>x. (1, message (topic_outcome_fields x))) (outcomes m)"

definition read_subscribe_result :: "wire_field list \<Rightarrow> subscribe_result option" where
  "read_subscribe_result fs = do { os \<leftarrow> get_messages read_topic_outcome 1 fs; Some \<lparr>outcomes = os\<rparr> }"

definition notification_fields :: "notification \<Rightarrow> wire_field list" where
  "notification_fields m =
     map (\<lambda>x. (1, of_i32 x)) (notification_topics m) @
     opt_field 1001 (\<lambda>x. message (monitor_report_fields x)) (notification_monitor m)"

definition read_notification :: "wire_field list \<Rightarrow> notification option" where
  "read_notification fs = do {
     ts \<leftarrow> get_i32s 1 fs;
     r \<leftarrow> get_message read_monitor_report 1001 fs;
     Some \<lparr>notification_topics = ts, notification_monitor = r\<rparr>
   }"

definition alert_channel_fields :: "alert_channel \<Rightarrow> wire_field list" where
  "alert_channel_fields m =
     opt_field 1 (\<lambda>x. message (subscribe_command_fields x)) (subscribe m) @
     opt_field 2 (\<lambda>x. message (subscribe_result_fields x)) (channel_result m) @
     opt_field 3 (\<lambda>x. message (notification_fields x)) (channel_notification m)"

definition read_alert_channel :: "wire_field list \<Rightarrow> alert_channel option" where
  "read_alert_channel fs = do {
     a \<leftarrow> get_message read_subscribe_command 1 fs;
     b \<leftarrow> get_message read_subscribe_result 2 fs;
     c \<leftarrow> get_message read_notification 3 fs;
     Some \<lparr>subscribe = a, channel_result = b, channel_notification = c\<rparr>
   }"

definition envelope_fields :: "envelope \<Rightarrow> wire_field list" where
  "envelope_fields m =
     opt_field 30 (\<lambda>x. message (alert_channel_fields x)) (env_alerts m) @
     opt_field 38 (\<lambda>x. message (monitor_channel_fields x)) (env_monitor m)"

definition read_envelope :: "wire_field list \<Rightarrow> envelope option" where
  "read_envelope fs = do {
     a \<leftarrow> get_message read_alert_channel 30 fs;
     b \<leftarrow> get_message read_monitor_channel 38 fs;
     Some \<lparr>env_alerts = a, env_monitor = b\<rparr>
   }"

definition envelope_bytes :: "envelope \<Rightarrow> bytes" where
  "envelope_bytes e = wire_bytes (envelope_fields e)"

definition envelope_of_bytes :: "bytes \<Rightarrow> envelope option" where
  "envelope_of_bytes bs = Option.bind (wire_fields bs) read_envelope"

subsection \<open>Reading what was written\<close>

definition opt_list :: "'a option \<Rightarrow> 'a list" where
  "opt_list x = (case x of None \<Rightarrow> [] | Some v \<Rightarrow> [v])"

lemma occurrences_simps [wire_simps]:
  "occurrences n [] = []"
  "occurrences n ((k, v) # fs) = (if k = n then v # occurrences n fs else occurrences n fs)"
  "occurrences n (fs @ gs) = occurrences n fs @ occurrences n gs"
  "occurrences n (opt_field k wr x) = (if k = n then map wr (opt_list x) else [])"
  "occurrences n (map (\<lambda>x. (k, mk x)) xs) = (if k = n then map mk xs else [])"
  by (auto simp: occurrences_def opt_field_def opt_list_def filter_map comp_def split: option.splits)

lemma those_Some [wire_simps]: "those (map Some xs) = Some xs"
  by (induction xs) simp_all

lemma last_opt_list [wire_simps]: "(if opt_list x = [] then None else Some (last (opt_list x))) = x"
  by (cases x) (simp_all add: opt_list_def)

lemma scalar_roundtrip [wire_simps]:
  "as_f32 \<circ> Bits32 = Some" "as_i32 \<circ> of_i32 = Some" "as_u32 \<circ> of_u32 = Some" "as_flag \<circ> of_flag = Some"
proof -
  have "word_of_nat (unat (scast x :: u64)) = x" for x :: i32
    by (simp add: of_nat_unat) (rule bit_word_eqI, auto simp: bit_simps)
  then show "as_i32 \<circ> of_i32 = Some" by (auto simp: as_i32_def of_i32_def)
qed (auto simp: as_f32_def as_u32_def of_u32_def as_flag_def of_flag_def)

lemma as_i32s_of_i32 [wire_simps]: "as_i32s \<circ> of_i32 = (\<lambda>x. Some [x])"
proof
  fix x
  have "as_i32 (of_i32 x) = Some x" using scalar_roundtrip(2) by (metis comp_apply)
  then show "(as_i32s \<circ> of_i32) x = Some [x]" by (simp add: as_i32s_def as_i32_def of_i32_def)
qed

lemma get_last_field:
  "occurrences n fs = map wr (opt_list x) \<Longrightarrow> rd \<circ> wr = Some \<Longrightarrow> get_last rd n fs = Some x"
  by (simp add: get_last_def wire_simps)

lemma get_i32s_field: "occurrences n fs = map of_i32 xs \<Longrightarrow> get_i32s n fs = Some xs"
proof -
  have "those (map (\<lambda>x. Some [x]) xs) = Some (map (\<lambda>x. [x]) xs)" for xs :: "i32 list" by (induction xs) simp_all
  then show "occurrences n fs = map of_i32 xs \<Longrightarrow> get_i32s n fs = Some xs"
    by (simp add: get_i32s_def wire_simps)
qed

lemma field_in: "v \<in> set (occurrences n fs) \<longleftrightarrow> (n, v) \<in> set fs"
  by (force simp: occurrences_def)

text \<open>What a message needs for its embedded messages to be read back: they are shorter.\<close>

lemma chunk_fields_message:
  assumes "message gs \<in> set (occurrences n fs)" "length (wire_bytes fs) < 2 ^ 64" "list_all sound_field gs"
  shows "chunk_fields (message gs) = Some gs" "length (wire_bytes gs) < 2 ^ 64"
proof -
  have "(n, Chunk (wire_bytes gs)) \<in> set fs" using assms(1) unfolding field_in by (simp add: message_def)
  then show "length (wire_bytes gs) < 2 ^ 64" using chunk_shorter [of n] assms(2) by (meson less_trans)
  then show "chunk_fields (message gs) = Some gs" using assms(3) by (simp add: chunk_fields_def message_def wire_fields_bytes)
qed

lemma get_message_field:
  assumes "occurrences n fs = map (\<lambda>x. message (g x)) (opt_list o')" "length (wire_bytes fs) < 2 ^ 64"
    and "\<And>x. list_all sound_field (g x)" "\<And>x. length (wire_bytes (g x)) < 2 ^ 64 \<Longrightarrow> rd (g x) = Some x"
  shows "get_message rd n fs = Some o'"
proof (cases o')
  case (Some x)
  then have "message (g x) \<in> set (occurrences n fs)" using assms(1) by (simp add: opt_list_def)
  from chunk_fields_message [OF this assms(2,3)] show ?thesis
    using assms(1,4) Some by (simp add: get_message_def opt_list_def)
qed (use assms(1) in \<open>simp add: get_message_def opt_list_def\<close>)

lemma get_messages_field:
  assumes "occurrences n fs = map (\<lambda>x. message (g x)) xs" "length (wire_bytes fs) < 2 ^ 64"
    and "\<And>x. list_all sound_field (g x)" "\<And>x. length (wire_bytes (g x)) < 2 ^ 64 \<Longrightarrow> rd (g x) = Some x"
  shows "get_messages rd n fs = Some xs"
proof -
  have "Option.bind (chunk_fields (message (g x))) rd = Some x" if "x \<in> set xs" for x
    using chunk_fields_message [of "g x" n fs] assms that by simp
  then have "map (\<lambda>v. Option.bind (chunk_fields v) rd) (occurrences n fs) = map Some xs"
    using assms(1) by simp
  then show ?thesis by (simp add: get_messages_def wire_simps)
qed

lemma sound_opt_field [wire_simps]:
  "list_all sound_field (opt_field n wr x) \<longleftrightarrow> (case x of None \<Rightarrow> True | Some v \<Rightarrow> sound_field (n, wr v))"
  by (simp add: opt_field_def split: option.splits)

lemma sound_scalars [wire_simps]:
  "sound_field (n, Bits32 w) \<longleftrightarrow> 0 < n \<and> n < 2 ^ 29" "sound_field (n, of_i32 i) \<longleftrightarrow> 0 < n \<and> n < 2 ^ 29"
  "sound_field (n, of_u32 u) \<longleftrightarrow> 0 < n \<and> n < 2 ^ 29" "sound_field (n, of_flag b) \<longleftrightarrow> 0 < n \<and> n < 2 ^ 29"
  "sound_field (n, message gs) \<longleftrightarrow> 0 < n \<and> n < 2 ^ 29"
proof -
  have "unat (scast i :: u64) < 2 ^ LENGTH(64)" "unat u < 2 ^ LENGTH(32)"
    by (rule unsigned_less)+
  then show "sound_field (n, of_i32 i) \<longleftrightarrow> 0 < n \<and> n < 2 ^ 29" "sound_field (n, of_u32 u) \<longleftrightarrow> 0 < n \<and> n < 2 ^ 29"
    by (simp_all add: sound_field_def of_i32_def of_u32_def)
qed (simp_all add: sound_field_def of_flag_def message_def)

lemma sound_map [wire_simps]: "(\<And>x. sound_field (n, wr x)) \<Longrightarrow> list_all sound_field (map (\<lambda>x. (n, wr x)) xs)"
  by (induction xs) simp_all

lemmas small_messages =
  orientation_fields_def device_status_fields_def ball_launch_fields_def club_delivery_fields_def
  swing_timing_fields_def level_check_fields_def environment_settings_fields_def topic_selection_fields_def

lemmas nested_messages =
  shot_readout_fields_def fault_fields_def monitor_report_fields_def monitor_channel_fields_def
  topic_outcome_fields_def subscribe_command_fields_def subscribe_result_fields_def notification_fields_def
  alert_channel_fields_def envelope_fields_def

lemma messages_sound [wire_simps, simp]:
  "list_all sound_field (orientation_fields a)" "list_all sound_field (device_status_fields b)"
  "list_all sound_field (ball_launch_fields c)" "list_all sound_field (club_delivery_fields d)"
  "list_all sound_field (swing_timing_fields e)" "list_all sound_field (level_check_fields f)"
  "list_all sound_field (environment_settings_fields g)" "list_all sound_field (topic_selection_fields h)"
  "list_all sound_field (shot_readout_fields i)" "list_all sound_field (fault_fields j)"
  "list_all sound_field (monitor_report_fields k)" "list_all sound_field (monitor_channel_fields l)"
  "list_all sound_field (topic_outcome_fields m)" "list_all sound_field (subscribe_command_fields n)"
  "list_all sound_field (subscribe_result_fields p)" "list_all sound_field (notification_fields q)"
  "list_all sound_field (alert_channel_fields r)" "list_all sound_field (envelope_fields s)"
  by (simp_all add: small_messages nested_messages wire_simps split: option.splits)

lemma small_messages_read [wire_simps, simp]:
  "read_orientation (orientation_fields a) = Some a"
  "read_device_status (device_status_fields b) = Some b"
  "read_ball_launch (ball_launch_fields c) = Some c"
  "read_club_delivery (club_delivery_fields d) = Some d"
  "read_swing_timing (swing_timing_fields e) = Some e"
  "read_level_check (level_check_fields f) = Some f"
  "read_environment_settings (environment_settings_fields g) = Some g"
  "read_topic_selection (topic_selection_fields h) = Some h"
  by (simp_all add: small_messages wire_simps get_last_def read_orientation_def read_device_status_def
      read_ball_launch_def read_club_delivery_def read_swing_timing_def read_level_check_def
      read_environment_settings_def read_topic_selection_def)

lemma get_last_opt [wire_simps]: "rd \<circ> wr = Some \<Longrightarrow> get_last rd n (opt_field n wr x) = Some x"
  by (rule get_last_field) (simp_all add: wire_simps)

lemma get_message_opt:
  assumes "length (wire_bytes (opt_field n (\<lambda>x. message (g x)) o')) < 2 ^ 64"
    and "\<And>x. list_all sound_field (g x)" "\<And>x. rd (g x) = Some x"
  shows "get_message rd n (opt_field n (\<lambda>x. message (g x)) o') = Some o'"
  by (rule get_message_field [where g = g, OF _ assms(1)]) (simp_all add: wire_simps assms)

text \<open>The messages with others inside.\<close>

lemma shot_readout_read:
  assumes "length (wire_bytes (shot_readout_fields m)) < 2 ^ 64"
  shows "read_shot_readout (shot_readout_fields m) = Some m"
proof -
  let ?fs = "shot_readout_fields m"
  have "get_message read_ball_launch 3 ?fs = Some (readout_ball m)"
    by (rule get_message_field [where g = ball_launch_fields, OF _ assms]) (simp_all add: shot_readout_fields_def wire_simps)
  moreover have "get_message read_club_delivery 4 ?fs = Some (readout_club m)"
    by (rule get_message_field [where g = club_delivery_fields, OF _ assms]) (simp_all add: shot_readout_fields_def wire_simps)
  moreover have "get_message read_swing_timing 5 ?fs = Some (readout_timing m)"
    by (rule get_message_field [where g = swing_timing_fields, OF _ assms]) (simp_all add: shot_readout_fields_def wire_simps)
  moreover have "get_last as_u32 1 ?fs = Some (shot_number m)" "get_last as_i32 2 ?fs = Some (shot_kind_code m)"
    by (simp_all add: get_last_def shot_readout_fields_def wire_simps)
  ultimately show ?thesis by (simp add: read_shot_readout_def)
qed

lemma fault_read:
  assumes "length (wire_bytes (fault_fields m)) < 2 ^ 64"
  shows "read_fault (fault_fields m) = Some m"
proof -
  let ?fs = "fault_fields m"
  have "get_message read_orientation 3 ?fs = Some (fault_orientation m)"
    by (rule get_message_field [where g = orientation_fields, OF _ assms]) (simp_all add: fault_fields_def wire_simps)
  moreover have "get_last as_i32 1 ?fs = Some (fault_cause m)" "get_last as_i32 2 ?fs = Some (fault_urgency m)"
    by (simp_all add: get_last_def fault_fields_def wire_simps)
  ultimately show ?thesis by (simp add: read_fault_def)
qed

lemma monitor_report_read:
  assumes "length (wire_bytes (monitor_report_fields m)) < 2 ^ 64"
  shows "read_monitor_report (monitor_report_fields m) = Some m"
proof -
  let ?fs = "monitor_report_fields m"
  have "get_message read_device_status 1 ?fs = Some (report_status m)"
    by (rule get_message_field [where g = device_status_fields, OF _ assms]) (simp_all add: monitor_report_fields_def wire_simps)
  moreover have "get_message read_shot_readout 2 ?fs = Some (report_shot m)"
    by (rule get_message_field [where g = shot_readout_fields, OF _ assms]) (simp_all add: monitor_report_fields_def wire_simps shot_readout_read)
  moreover have "get_message read_fault 3 ?fs = Some (report_fault m)"
    by (rule get_message_field [where g = fault_fields, OF _ assms]) (simp_all add: monitor_report_fields_def wire_simps fault_read)
  moreover have "get_message read_level_check 4 ?fs = Some (report_level m)"
    by (rule get_message_field [where g = level_check_fields, OF _ assms]) (simp_all add: monitor_report_fields_def wire_simps)
  ultimately show ?thesis by (simp add: read_monitor_report_def)
qed

lemma monitor_channel_read:
  assumes "length (wire_bytes (monitor_channel_fields m)) < 2 ^ 64"
  shows "read_monitor_channel (monitor_channel_fields m) = Some m"
proof -
  let ?fs = "monitor_channel_fields m"
  have "get_message read_empty 1 ?fs = Some (state_query m)"
    by (rule get_message_field [where g = "\<lambda>_. []", OF _ assms]) (simp_all add: monitor_channel_fields_def wire_simps read_empty_def)
  moreover have "get_message (get_message read_device_status 1) 2 ?fs = Some (state_reply m)"
    by (rule get_message_field [where g = "opt_field 1 (\<lambda>x. message (device_status_fields x))", OF _ assms]) (simp_all add: monitor_channel_fields_def wire_simps get_message_opt split: option.splits)
  moreover have "get_message read_empty 3 ?fs = Some (wake m)"
    by (rule get_message_field [where g = "\<lambda>_. []", OF _ assms]) (simp_all add: monitor_channel_fields_def wire_simps read_empty_def)
  moreover have "get_message (get_last as_i32 1) 4 ?fs = Some (wake_result m)"
    by (rule get_message_field [where g = "opt_field 1 of_i32", OF _ assms]) (simp_all add: monitor_channel_fields_def wire_simps split: option.splits)
  moreover have "get_message read_empty 5 ?fs = Some (level_query m)"
    by (rule get_message_field [where g = "\<lambda>_. []", OF _ assms]) (simp_all add: monitor_channel_fields_def wire_simps read_empty_def)
  moreover have "get_message (get_message read_orientation 1) 6 ?fs = Some (level_reply m)"
    by (rule get_message_field [where g = "opt_field 1 (\<lambda>x. message (orientation_fields x))", OF _ assms]) (simp_all add: monitor_channel_fields_def wire_simps get_message_opt split: option.splits)
  moreover have "get_message read_empty 7 ?fs = Some (level_calibrate m)"
    by (rule get_message_field [where g = "\<lambda>_. []", OF _ assms]) (simp_all add: monitor_channel_fields_def wire_simps read_empty_def)
  moreover have "get_message (get_last as_i32 1) 8 ?fs = Some (level_calibrate_result m)"
    by (rule get_message_field [where g = "opt_field 1 of_i32", OF _ assms]) (simp_all add: monitor_channel_fields_def wire_simps split: option.splits)
  moreover have "get_message (get_last as_flag 1) 9 ?fs = Some (level_clear m)"
    by (rule get_message_field [where g = "opt_field 1 of_flag", OF _ assms]) (simp_all add: monitor_channel_fields_def wire_simps split: option.splits)
  moreover have "get_message (get_last as_i32 1) 10 ?fs = Some (level_clear_result m)"
    by (rule get_message_field [where g = "opt_field 1 of_i32", OF _ assms]) (simp_all add: monitor_channel_fields_def wire_simps split: option.splits)
  moreover have "get_message read_environment_settings 11 ?fs = Some (environment m)"
    by (rule get_message_field [where g = environment_settings_fields, OF _ assms]) (simp_all add: monitor_channel_fields_def wire_simps)
  moreover have "get_message (get_last as_flag 1) 12 ?fs = Some (environment_result m)"
    by (rule get_message_field [where g = "opt_field 1 of_flag", OF _ assms]) (simp_all add: monitor_channel_fields_def wire_simps split: option.splits)
  ultimately show ?thesis by (simp add: read_monitor_channel_def)
qed

lemma topic_outcome_read:
  assumes "length (wire_bytes (topic_outcome_fields m)) < 2 ^ 64"
  shows "read_topic_outcome (topic_outcome_fields m) = Some m"
proof -
  let ?fs = "topic_outcome_fields m"
  have "get_message read_topic_selection 2 ?fs = Some (outcome_topic m)"
    by (rule get_message_field [where g = topic_selection_fields, OF _ assms]) (simp_all add: topic_outcome_fields_def wire_simps)
  moreover have "get_last as_i32 1 ?fs = Some (Some (outcome_code m))"
    by (rule get_last_field [where wr = of_i32]) (simp_all add: topic_outcome_fields_def wire_simps opt_list_def)
  ultimately show ?thesis by (simp add: read_topic_outcome_def)
qed

lemma subscription_read:
  "length (wire_bytes (subscribe_command_fields c)) < 2 ^ 64 \<Longrightarrow>
     read_subscribe_command (subscribe_command_fields c) = Some c"
  "length (wire_bytes (subscribe_result_fields r)) < 2 ^ 64 \<Longrightarrow>
     read_subscribe_result (subscribe_result_fields r) = Some r"
proof -
  assume len: "length (wire_bytes (subscribe_command_fields c)) < 2 ^ 64"
  have "get_messages read_topic_selection 1 (subscribe_command_fields c) = Some (topics c)"
    by (rule get_messages_field [where g = topic_selection_fields, OF _ len])
       (simp_all add: subscribe_command_fields_def wire_simps)
  then show "read_subscribe_command (subscribe_command_fields c) = Some c" by (simp add: read_subscribe_command_def)
next
  assume len: "length (wire_bytes (subscribe_result_fields r)) < 2 ^ 64"
  have "get_messages read_topic_outcome 1 (subscribe_result_fields r) = Some (outcomes r)"
    by (rule get_messages_field [where g = topic_outcome_fields, OF _ len])
       (simp_all add: subscribe_result_fields_def wire_simps topic_outcome_read)
  then show "read_subscribe_result (subscribe_result_fields r) = Some r" by (simp add: read_subscribe_result_def)
qed

lemma notification_read:
  assumes "length (wire_bytes (notification_fields m)) < 2 ^ 64"
  shows "read_notification (notification_fields m) = Some m"
proof -
  let ?fs = "notification_fields m"
  have "get_message read_monitor_report 1001 ?fs = Some (notification_monitor m)"
    by (rule get_message_field [where g = monitor_report_fields, OF _ assms]) (simp_all add: notification_fields_def wire_simps monitor_report_read)
  moreover have "get_i32s 1 ?fs = Some (notification_topics m)"
    by (rule get_i32s_field) (simp add: notification_fields_def wire_simps)
  ultimately show ?thesis by (simp add: read_notification_def)
qed

lemma alert_channel_read:
  assumes "length (wire_bytes (alert_channel_fields m)) < 2 ^ 64"
  shows "read_alert_channel (alert_channel_fields m) = Some m"
proof -
  let ?fs = "alert_channel_fields m"
  have "get_message read_subscribe_command 1 ?fs = Some (subscribe m)"
    by (rule get_message_field [where g = subscribe_command_fields, OF _ assms]) (simp_all add: alert_channel_fields_def wire_simps subscription_read)
  moreover have "get_message read_subscribe_result 2 ?fs = Some (channel_result m)"
    by (rule get_message_field [where g = subscribe_result_fields, OF _ assms]) (simp_all add: alert_channel_fields_def wire_simps subscription_read)
  moreover have "get_message read_notification 3 ?fs = Some (channel_notification m)"
    by (rule get_message_field [where g = notification_fields, OF _ assms]) (simp_all add: alert_channel_fields_def wire_simps notification_read)
  ultimately show ?thesis by (simp add: read_alert_channel_def)
qed

lemma envelope_read:
  assumes "length (wire_bytes (envelope_fields m)) < 2 ^ 64"
  shows "read_envelope (envelope_fields m) = Some m"
proof -
  let ?fs = "envelope_fields m"
  have "get_message read_alert_channel 30 ?fs = Some (env_alerts m)"
    by (rule get_message_field [where g = alert_channel_fields, OF _ assms]) (simp_all add: envelope_fields_def wire_simps alert_channel_read)
  moreover have "get_message read_monitor_channel 38 ?fs = Some (env_monitor m)"
    by (rule get_message_field [where g = monitor_channel_fields, OF _ assms]) (simp_all add: envelope_fields_def wire_simps monitor_channel_read)
  ultimately show ?thesis by (simp add: read_envelope_def)
qed

lemma envelope_wire_roundtrip:
  "length (envelope_bytes e) < 2 ^ 64 \<Longrightarrow> envelope_of_bytes (envelope_bytes e) = Some e"
  by (simp add: envelope_of_bytes_def envelope_bytes_def wire_fields_bytes envelope_read)

subsection \<open>A library that speaks this format\<close>

text \<open>What the crate relies on of the protobuf library: it writes this format, it reads what this format reads, and
  the getter of the required enum gives the first value for an unknown number. Bytes that are not in the
  format are left open.\<close>

locale speaks_protobuf =
  fixes pf :: platform
  assumes encodes: "pb_encode pf e = envelope_bytes e"
    and decodes: "envelope_of_bytes bs = Some e \<Longrightarrow> pb_decode pf bs = Inr e"
    and outcome_getter: "outcome_get pf o' = (if outcome_code o' = 1 then OutcomeRejected else OutcomeAccepted)"
begin

lemma decode_read: "envelope_of_bytes bs = Some e \<Longrightarrow> decode_envelope pf bs = Inr (envelope_to_event pf e)"
  by (simp add: decode_envelope_def decodes)

lemma decode_written:
  "envelope_bytes e = bs \<Longrightarrow> length bs < 2 ^ 64 \<Longrightarrow> decode_envelope pf bs = Inr (envelope_to_event pf e)"
  by (rule decode_read) (auto simp: envelope_wire_roundtrip)

lemma built_requests:
  "build_subscribe_request pf =
     envelope_bytes \<lparr>env_alerts = Some (alert_channel_default\<lparr>subscribe := Some \<lparr>topics = [\<lparr>topic = Some 8\<rparr>]\<rparr>\<rparr>),
       env_monitor = None\<rparr>"
  "build_wakeup_request pf =
     envelope_bytes \<lparr>env_alerts = None, env_monitor = Some (monitor_channel_default\<lparr>wake := Some ()\<rparr>)\<rparr>"
  by (simp_all add: build_subscribe_request_def build_wakeup_request_def monitor_envelope_def encodes TOPIC_SHOT_DATA_def)

end

text \<open>The reader and writer above are such a library.\<close>

definition wire_platform :: "(f32 \<Rightarrow> f32) \<Rightarrow> (f32 \<Rightarrow> f32) \<Rightarrow> platform" where
  "wire_platform c s =
     \<lparr>pb_encode = envelope_bytes,
      pb_decode = (\<lambda>bs. case envelope_of_bytes bs of None \<Rightarrow> Inl (PbError ''malformed'') | Some e \<Rightarrow> Inr e),
      outcome_get = (\<lambda>o'. if outcome_code o' = 1 then OutcomeRejected else OutcomeAccepted),
      cosf = c, sinf = s\<rparr>"

interpretation wire: speaks_protobuf "wire_platform c s"
  by unfold_locales (simp_all add: wire_platform_def)

end
