(* ===== verification/Wire_Golden.thy ===== *)
theory Wire_Golden
  imports Wire_Schema
begin

text \<open>
  The tests of \<open>src/wire_golden.rs\<close> that need no client: the golden bytes, the fixture frames and each test
  as a predicate on the platform. The tests fix the wire format with the bytes of real traffic; here they
  hold for every protobuf library that speaks the format of \<open>Wire_Schema\<close>.
\<close>

named_theorems golden_simps "golden frames as written messages"

subsection \<open>Bytes\<close>

definition SUBSCRIBE :: bytes where
  "SUBSCRIBE =
     [0xf2, 0x01, 0x06, 0x0a, 0x04, 0x0a, 0x02, 0x08, 0x08]"

definition WAKEUP :: bytes where
  "WAKEUP =
     [0xb2, 0x02, 0x02, 0x1a, 0x00]"

definition ENVIRONMENT_EMPTY :: bytes where
  "ENVIRONMENT_EMPTY =
     [0xb2, 0x02, 0x02, 0x5a, 0x00]"

definition ENVIRONMENT_TEE :: bytes where
  "ENVIRONMENT_TEE =
     [0xb2, 0x02, 0x07, 0x5a, 0x05, 0x2d, 0x33, 0x33, 0x13, 0x40]"

definition ENVIRONMENT_ALL :: bytes where
  "ENVIRONMENT_ALL =
     [0xb2, 0x02, 0x1b, 0x5a, 0x19, 0x0d, 0x00, 0x00, 0xa8, 0x41, 0x15, 0x66, 0x66, 0xe6, 0x3e, 0x1d,
      0x00, 0x00, 0xf0, 0x42, 0x25, 0x9a, 0x99, 0x99, 0x3f, 0x2d, 0x00, 0x00, 0xc0, 0x40]"

definition SHOT_FULL :: bytes where
  "SHOT_FULL =
     [0xf2, 0x01, 0x53, 0x1a, 0x51, 0x08, 0x08, 0xca, 0x3e, 0x4c, 0x12, 0x4a, 0x08, 0x2a, 0x10, 0x01,
      0x1a, 0x1d, 0x0d, 0x00, 0x00, 0x48, 0x41, 0x15, 0x9a, 0x99, 0x99, 0xbf, 0x1d, 0x00, 0x00, 0x86,
      0x42, 0x25, 0x00, 0x00, 0xa0, 0x40, 0x2d, 0x00, 0x00, 0x2f, 0x45, 0x30, 0x00, 0x38, 0x01, 0x22,
      0x14, 0x0d, 0x00, 0x00, 0x30, 0x42, 0x15, 0x00, 0x00, 0xc0, 0x3f, 0x1d, 0x00, 0x00, 0x00, 0xc0,
      0x25, 0x00, 0x00, 0x60, 0xc0, 0x2a, 0x0f, 0x08, 0xe8, 0x07, 0x10, 0xdc, 0x0b, 0x18, 0x88, 0x0e,
      0x20, 0x98, 0x11, 0x28, 0xc4, 0x13]"

definition SHOT_BALL_MEASURED :: bytes where
  "SHOT_BALL_MEASURED =
     [0xf2, 0x01, 0x2c, 0x1a, 0x2a, 0x08, 0x08, 0xca, 0x3e, 0x25, 0x12, 0x23, 0x08, 0x07, 0x10, 0x00,
      0x1a, 0x1d, 0x0d, 0x00, 0x00, 0xf2, 0x41, 0x15, 0x00, 0x00, 0x20, 0x40, 0x1d, 0x00, 0x00, 0xcc,
      0x41, 0x25, 0x00, 0x00, 0x20, 0xc1, 0x2d, 0x00, 0x80, 0xbb, 0x45, 0x30, 0x03, 0x38, 0x02]"

definition SHOT_FLIGHT_MODEL :: bytes where
  "SHOT_FLIGHT_MODEL =
     [0xf2, 0x01, 0x14, 0x1a, 0x12, 0x08, 0x08, 0xca, 0x3e, 0x0d, 0x12, 0x0b, 0x08, 0x08, 0x1a, 0x07,
      0x1d, 0x00, 0x00, 0x48, 0x42, 0x30, 0x01]"

definition SHOT_SPIN_OTHER :: bytes where
  "SHOT_SPIN_OTHER =
     [0xf2, 0x01, 0x0f, 0x1a, 0x0d, 0x08, 0x08, 0xca, 0x3e, 0x08, 0x12, 0x06, 0x08, 0x09, 0x1a, 0x02,
      0x30, 0x02]"

definition ERROR_NOT_LEVEL :: bytes where
  "ERROR_NOT_LEVEL =
     [0xf2, 0x01, 0x19, 0x1a, 0x17, 0x08, 0x08, 0xca, 0x3e, 0x12, 0x1a, 0x10, 0x08, 0x03, 0x10, 0x02,
      0x1a, 0x0a, 0x0d, 0x00, 0x00, 0x90, 0x40, 0x15, 0x00, 0x00, 0xc8, 0xc0]"

definition ERROR_OVERHEAT :: bytes where
  "ERROR_OVERHEAT =
     [0xf2, 0x01, 0x0d, 0x1a, 0x0b, 0x08, 0x08, 0xca, 0x3e, 0x06, 0x1a, 0x04, 0x08, 0x01, 0x10, 0x01]"

definition ERROR_SATURATION :: bytes where
  "ERROR_SATURATION =
     [0xf2, 0x01, 0x0d, 0x1a, 0x0b, 0x08, 0x08, 0xca, 0x3e, 0x06, 0x1a, 0x04, 0x08, 0x02, 0x10, 0x00]"

definition LEVEL_CHECK :: bytes where
  "LEVEL_CHECK =
     [0xf2, 0x01, 0x0d, 0x1a, 0x0b, 0x08, 0x08, 0xca, 0x3e, 0x06, 0x22, 0x04, 0x08, 0x02, 0x10, 0x02]"

definition NOTIFICATION_EMPTY :: bytes where
  "NOTIFICATION_EMPTY =
     [0xf2, 0x01, 0x04, 0x1a, 0x02, 0x08, 0x08]"

definition SUBSCRIBE_OK :: bytes where
  "SUBSCRIBE_OK =
     [0xf2, 0x01, 0x0a, 0x12, 0x08, 0x0a, 0x06, 0x08, 0x00, 0x12, 0x02, 0x08, 0x08]"

definition SUBSCRIBE_FAIL :: bytes where
  "SUBSCRIBE_FAIL =
     [0xf2, 0x01, 0x0a, 0x12, 0x08, 0x0a, 0x06, 0x08, 0x01, 0x12, 0x02, 0x08, 0x08]"

definition TOPICS_REPLY :: bytes where
  "TOPICS_REPLY =
     [0xf2, 0x01, 0x06, 0x2a, 0x04, 0x08, 0x08, 0x10, 0x01]"

definition ENVIRONMENT_ACCEPTED :: bytes where
  "ENVIRONMENT_ACCEPTED =
     [0xb2, 0x02, 0x04, 0x62, 0x02, 0x08, 0x01]"

definition ENVIRONMENT_REJECTED :: bytes where
  "ENVIRONMENT_REJECTED =
     [0xb2, 0x02, 0x04, 0x62, 0x02, 0x08, 0x00]"

definition STATE_REPLY :: bytes where
  "STATE_REPLY =
     [0xb2, 0x02, 0x06, 0x12, 0x04, 0x0a, 0x02, 0x08, 0x02]"

definition LEVEL_REPLY :: bytes where
  "LEVEL_REPLY =
     [0xb2, 0x02, 0x0e, 0x32, 0x0c, 0x0a, 0x0a, 0x0d, 0x00, 0x00, 0x80, 0x3f, 0x15, 0x00, 0x00, 0x00,
      0xc0]"

definition state_frame :: "u8 \<Rightarrow> bytes" where
  "state_frame state = [0xf2, 0x01, 0x0b, 0x1a, 0x09, 0x08, 0x08, 0xca, 0x3e, 0x04, 0x0a, 0x02, 0x08, state]"

definition wake_result_frame :: "u8 \<Rightarrow> bytes" where
  "wake_result_frame status = [0xb2, 0x02, 0x04, 0x22, 0x02, 0x08, status]"

subsection \<open>Tests of the builders\<close>

definition subscribe_request_bytes :: "platform \<Rightarrow> bool" where
  "subscribe_request_bytes pf \<longleftrightarrow> build_subscribe_request pf = SUBSCRIBE"

definition wakeup_request_bytes :: "platform \<Rightarrow> bool" where
  "wakeup_request_bytes pf \<longleftrightarrow> build_wakeup_request pf = WAKEUP"

text \<open>\<open>Environment::default()\<close>.\<close>

definition environment_default :: environment_config where
  "environment_default =
     \<lparr>temperature = None, humidity = None, altitude = None, air_density = None, tee_distance_yd = None\<rparr>"

definition environment_request_bytes :: "platform \<Rightarrow> bool" where
  "environment_request_bytes pf \<longleftrightarrow>
     build_environment_request pf environment_default = ENVIRONMENT_EMPTY \<and>
     build_environment_request pf (environment_default\<lparr>tee_distance_yd := Some 0x40133333\<rparr>) = ENVIRONMENT_TEE \<and>
     build_environment_request pf
       \<lparr>temperature = Some 0x41A80000, humidity = Some 0x3EE66666, altitude = Some 0x42F00000,
        air_density = Some 0x3F99999A, tee_distance_yd = Some 0x40C00000\<rparr> = ENVIRONMENT_ALL"

subsection \<open>Tests of the decoder\<close>

text \<open>A test that panics is one that fails.\<close>

definition decode :: "platform \<Rightarrow> bytes \<Rightarrow> envelope_event option" where
  "decode pf bs = (case decode_envelope pf bs of Inl _ \<Rightarrow> None | Inr ev \<Rightarrow> Some ev)"

definition shot :: "platform \<Rightarrow> bytes \<Rightarrow> shot_data option" where
  "shot pf bs = (case decode pf bs of Some (ShotEvent s) \<Rightarrow> Some s | _ \<Rightarrow> None)"

definition close :: "f32 \<Rightarrow> f32 \<Rightarrow> bool" where
  "close a b \<longleftrightarrow> f32_less (f32_abs (f32_sub a b)) 0x3C23D70A"

definition decode_shot_full :: "platform \<Rightarrow> bool" where
  "decode_shot_full pf \<longleftrightarrow>
     expect (shot pf SHOT_FULL) (\<lambda>s.
       shot_id s = 42 \<and> kind s = Regular \<and>
       expect (ball s) (\<lambda>b.
         close (launch_angle b) 0x41480000 \<and> close (launch_direction b) 0xBF99999A \<and>
         close (ball_speed b) 0x42860000 \<and> close (spin_axis b) 0x40A00000 \<and> close (total_spin b) 0x452F0000 \<and>
         f32_less (f32_abs (f32_sub (backspin b) 0x452E559A)) 0x3DCCCCCD \<and>
         f32_less (f32_abs (f32_sub (sidespin b) 0x43740A3D)) 0x3DCCCCCD \<and> spin_calc b = Estimated) \<and>
       expect (club s) (\<lambda>c.
         close (club_head_speed c) 0x42300000 \<and> close (face_angle c) 0x3FC00000 \<and>
         close (path_angle c) 0xC0000000 \<and> close (attack_angle c) 0xC0600000) \<and>
       expect (swing s) (\<lambda>w.
         backswing_start w = 1000 \<and> downswing_start w = 1500 \<and> impact w = 1800 \<and> follow_through_end w = 2200))"

definition decode_shot_ball_measured :: "platform \<Rightarrow> bool" where
  "decode_shot_ball_measured pf \<longleftrightarrow>
     expect (shot pf SHOT_BALL_MEASURED) (\<lambda>s.
       shot_id s = 7 \<and> kind s = Warmup \<and> club s = None \<and> swing s = None \<and>
       expect (ball s) (\<lambda>b.
         close (launch_angle b) 0x41F20000 \<and> close (launch_direction b) 0x40200000 \<and>
         close (ball_speed b) 0x41CC0000 \<and> close (spin_axis b) 0xC1200000 \<and> close (total_spin b) 0x45BB8000 \<and>
         f32_less (f32_abs (f32_sub (backspin b) 0x45B8A6CD)) 0x3DCCCCCD \<and>
         f32_less (f32_abs (f32_add (sidespin b) 0x44823C7B)) 0x3DCCCCCD \<and> spin_calc b = Measured))"

definition decode_shot_flight_model_and_other :: "platform \<Rightarrow> bool" where
  "decode_shot_flight_model_and_other pf \<longleftrightarrow>
     expect (shot pf SHOT_FLIGHT_MODEL) (\<lambda>s.
       shot_id s = 8 \<and> kind s = Warmup \<and>
       expect (ball s) (\<lambda>b.
         close (ball_speed b) 0x42480000 \<and> close (launch_angle b) 0 \<and> close (total_spin b) 0 \<and>
         spin_calc b = FlightModel)) \<and>
     expect (shot pf SHOT_SPIN_OTHER) (\<lambda>s. shot_id s = 9 \<and> expect (ball s) (\<lambda>b. spin_calc b = OtherSpin))"

definition decode_state_changes :: "platform \<Rightarrow> bool" where
  "decode_state_changes pf \<longleftrightarrow>
     list_all (\<lambda>(value, want). decode pf (state_frame value) = Some (StateChange want))
       [(0, Standby), (1, NoiseCheck), (2, Waiting), (3, Recording), (4, Processing), (5, ErrorState)]"

definition decode_errors :: "platform \<Rightarrow> bool" where
  "decode_errors pf \<longleftrightarrow>
     expect (decode pf ERROR_NOT_LEVEL) (\<lambda>ev. case ev of ErrorEvent e \<Rightarrow>
         code e = NotLevel \<and> severity e = Fatal \<and>
         expect (tilt e) (\<lambda>(roll, pitch). close roll 0x40900000 \<and> close pitch 0xC0C80000) | _ \<Rightarrow> False) \<and>
     expect (decode pf ERROR_OVERHEAT) (\<lambda>ev. case ev of ErrorEvent e \<Rightarrow>
         code e = Overheating \<and> severity e = Serious \<and> tilt e = None | _ \<Rightarrow> False) \<and>
     expect (decode pf ERROR_SATURATION) (\<lambda>ev. case ev of ErrorEvent e \<Rightarrow>
         code e = RadarSaturation \<and> severity e = Warning | _ \<Rightarrow> False)"

definition decode_level_check :: "platform \<Rightarrow> bool" where
  "decode_level_check pf \<longleftrightarrow> decode pf LEVEL_CHECK = Some (LevelCheck 2 2)"

definition decode_subscribe_results :: "platform \<Rightarrow> bool" where
  "decode_subscribe_results pf \<longleftrightarrow>
     decode pf SUBSCRIBE_OK = Some (SubscribeResult True) \<and> decode pf SUBSCRIBE_FAIL = Some (SubscribeResult False)"

definition decode_wake_results :: "platform \<Rightarrow> bool" where
  "decode_wake_results pf \<longleftrightarrow>
     list_all (\<lambda>status. decode pf (wake_result_frame status) = Some (WakeResult (ucast status))) [0, 1, 2]"

definition decode_environment_results :: "platform \<Rightarrow> bool" where
  "decode_environment_results pf \<longleftrightarrow>
     decode pf ENVIRONMENT_ACCEPTED = Some (EnvironmentResult True) \<and>
     decode pf ENVIRONMENT_REJECTED = Some (EnvironmentResult False)"

definition decode_other_frames :: "platform \<Rightarrow> bool" where
  "decode_other_frames pf \<longleftrightarrow>
     decode pf STATE_REPLY = Some MonitorReply \<and> decode pf LEVEL_REPLY = Some MonitorReply \<and>
     decode pf NOTIFICATION_EMPTY = Some UnknownEnvelope \<and> decode pf TOPICS_REPLY = Some UnknownEnvelope \<and>
     decode pf [] = Some UnknownEnvelope"

definition builders_decode_as_requests :: "platform \<Rightarrow> bool" where
  "builders_decode_as_requests pf \<longleftrightarrow>
     decode pf WAKEUP = Some MonitorReply \<and> decode pf SUBSCRIBE = Some UnknownEnvelope"


subsection \<open>The frames as written messages\<close>

definition no_report :: monitor_report where
  "no_report = \<lparr>report_status = None, report_shot = None, report_fault = None, report_level = None\<rparr>"

definition no_ball :: ball_launch where
  "no_ball =
     \<lparr>vertical_angle_deg = None, horizontal_angle_deg = None, speed_mps = None, spin_tilt_deg = None, spin_rpm = None,
      spin_source = None, marking = None\<rparr>"

definition no_readout :: shot_readout where
  "no_readout =
     \<lparr>shot_number = None, shot_kind_code = None, readout_ball = None, readout_club = None, readout_timing = None\<rparr>"

definition notified :: "monitor_report option \<Rightarrow> envelope" where
  "notified r =
     \<lparr>env_alerts = Some (alert_channel_default\<lparr>channel_notification :=
        Some \<lparr>notification_topics = [8], notification_monitor = r\<rparr>\<rparr>), env_monitor = None\<rparr>"

definition subscribed :: "i32 \<Rightarrow> envelope" where
  "subscribed result =
     \<lparr>env_alerts = Some (alert_channel_default\<lparr>channel_result :=
        Some \<lparr>outcomes = [\<lparr>outcome_code = result, outcome_topic = Some \<lparr>topic = Some 8\<rparr>\<rparr>]\<rparr>\<rparr>), env_monitor = None\<rparr>"

definition replied :: "monitor_channel \<Rightarrow> envelope" where
  "replied ch = \<lparr>env_alerts = None, env_monitor = Some ch\<rparr>"

definition shot_full_readout :: shot_readout where
  "shot_full_readout =
     \<lparr>shot_number = Some 42, shot_kind_code = Some 1,
      readout_ball = Some
        \<lparr>vertical_angle_deg = Some 0x41480000, horizontal_angle_deg = Some 0xBF99999A, speed_mps = Some 0x42860000,
         spin_tilt_deg = Some 0x40A00000, spin_rpm = Some 0x452F0000, spin_source = Some 0, marking = Some 1\<rparr>,
      readout_club = Some
        \<lparr>head_speed_mps = Some 0x42300000, face_deg = Some 0x3FC00000, path_deg = Some 0xC0000000,
         attack_deg = Some 0xC0600000\<rparr>,
      readout_timing = Some
        \<lparr>takeaway = Some 1000, transition = Some 1500, impact_time = Some 1800, finish_time = Some 2200,
         capture_end = Some 2500\<rparr>\<rparr>"

definition shot_measured_readout :: shot_readout where
  "shot_measured_readout =
     \<lparr>shot_number = Some 7, shot_kind_code = Some 0,
      readout_ball = Some
        \<lparr>vertical_angle_deg = Some 0x41F20000, horizontal_angle_deg = Some 0x40200000, speed_mps = Some 0x41CC0000,
         spin_tilt_deg = Some 0xC1200000, spin_rpm = Some 0x45BB8000, spin_source = Some 3, marking = Some 2\<rparr>,
      readout_club = None, readout_timing = None\<rparr>"

lemmas writing =
  envelope_bytes_def envelope_fields_def alert_channel_fields_def notification_fields_def monitor_report_fields_def
  shot_readout_fields_def ball_launch_fields_def club_delivery_fields_def swing_timing_fields_def fault_fields_def
  level_check_fields_def orientation_fields_def device_status_fields_def subscribe_command_fields_def
  subscribe_result_fields_def topic_outcome_fields_def topic_selection_fields_def monitor_channel_fields_def
  environment_settings_fields_def message_def opt_field_def of_i32_def of_u32_def of_flag_def le32_def varint.simps

lemmas unset = alert_channel_default_def monitor_channel_default_def no_report_def no_ball_def no_readout_def
  notified_def subscribed_def replied_def

lemma requests_written [golden_simps]:
  "envelope_bytes \<lparr>env_alerts = Some (alert_channel_default\<lparr>subscribe := Some \<lparr>topics = [\<lparr>topic = Some 8\<rparr>]\<rparr>\<rparr>),
     env_monitor = None\<rparr> = SUBSCRIBE"
  "envelope_bytes (replied (monitor_channel_default\<lparr>wake := Some ()\<rparr>)) = WAKEUP"
  by (simp_all add: writing unset SUBSCRIBE_def WAKEUP_def)

lemma shots_written [golden_simps]:
  "envelope_bytes (notified (Some (no_report\<lparr>report_shot := Some shot_full_readout\<rparr>))) = SHOT_FULL"
  "envelope_bytes (notified (Some (no_report\<lparr>report_shot := Some shot_measured_readout\<rparr>))) = SHOT_BALL_MEASURED"
  "envelope_bytes (notified (Some (no_report\<lparr>report_shot := Some (no_readout\<lparr>shot_number := Some 8,
     readout_ball := Some (no_ball\<lparr>speed_mps := Some 0x42480000, spin_source := Some 1\<rparr>)\<rparr>)\<rparr>))) = SHOT_FLIGHT_MODEL"
  "envelope_bytes (notified (Some (no_report\<lparr>report_shot := Some (no_readout\<lparr>shot_number := Some 9,
     readout_ball := Some (no_ball\<lparr>spin_source := Some 2\<rparr>)\<rparr>)\<rparr>))) = SHOT_SPIN_OTHER"
  by (simp_all add: writing unset shot_full_readout_def shot_measured_readout_def SHOT_FULL_def
      SHOT_BALL_MEASURED_def SHOT_FLIGHT_MODEL_def SHOT_SPIN_OTHER_def)

lemma state_written [golden_simps]:
  "v < 128 \<Longrightarrow> envelope_bytes (notified (Some (no_report\<lparr>report_status := Some \<lparr>status_phase = Some (ucast v)\<rparr>\<rparr>))) =
     state_frame v"
proof -
  assume v: "v < 128"
  have small: "unat v < 128" using v by (simp add: word_less_nat_alt)
  have "unat (scast (ucast v :: i32) :: u64) = unat v"
  proof -
    have "(scast (ucast v :: i32) :: u64) = ucast v" by (rule bit_word_eqI) (auto simp: bit_simps min_def dest: bit_imp_le_length split: if_splits)
    then show ?thesis using small by (simp add: unsigned_ucast_eq take_bit_nat_eq_self)
  qed
  then show ?thesis using small by (simp add: writing unset state_frame_def)
qed

lemma reports_written [golden_simps]:
  "envelope_bytes (notified (Some (no_report\<lparr>report_fault := Some \<lparr>fault_cause = Some 3, fault_urgency = Some 2,
     fault_orientation = Some \<lparr>roll_deg = Some 0x40900000, pitch_deg = Some 0xC0C80000\<rparr>\<rparr>\<rparr>))) = ERROR_NOT_LEVEL"
  "envelope_bytes (notified (Some (no_report\<lparr>report_fault := Some \<lparr>fault_cause = Some 1, fault_urgency = Some 1,
     fault_orientation = None\<rparr>\<rparr>))) = ERROR_OVERHEAT"
  "envelope_bytes (notified (Some (no_report\<lparr>report_fault := Some \<lparr>fault_cause = Some 2, fault_urgency = Some 0,
     fault_orientation = None\<rparr>\<rparr>))) = ERROR_SATURATION"
  "envelope_bytes (notified (Some (no_report\<lparr>report_level := Some \<lparr>level_verdict = Some 2, level_attempt = Some 2\<rparr>\<rparr>))) =
     LEVEL_CHECK"
  "envelope_bytes (notified None) = NOTIFICATION_EMPTY"
  "envelope_bytes (subscribed 0) = SUBSCRIBE_OK" "envelope_bytes (subscribed 1) = SUBSCRIBE_FAIL"
  by (simp_all add: writing unset ERROR_NOT_LEVEL_def ERROR_OVERHEAT_def ERROR_SATURATION_def LEVEL_CHECK_def
      NOTIFICATION_EMPTY_def SUBSCRIBE_OK_def SUBSCRIBE_FAIL_def)

lemma replies_written [golden_simps]:
  "envelope_bytes (replied (monitor_channel_default\<lparr>wake_result := Some (Some 0)\<rparr>)) = wake_result_frame 0"
  "envelope_bytes (replied (monitor_channel_default\<lparr>wake_result := Some (Some 1)\<rparr>)) = wake_result_frame 1"
  "envelope_bytes (replied (monitor_channel_default\<lparr>wake_result := Some (Some 2)\<rparr>)) = wake_result_frame 2"
  "envelope_bytes (replied (monitor_channel_default\<lparr>environment_result := Some (Some True)\<rparr>)) = ENVIRONMENT_ACCEPTED"
  "envelope_bytes (replied (monitor_channel_default\<lparr>environment_result := Some (Some False)\<rparr>)) = ENVIRONMENT_REJECTED"
  "envelope_bytes (replied (monitor_channel_default\<lparr>state_reply := Some (Some \<lparr>status_phase = Some 2\<rparr>)\<rparr>)) = STATE_REPLY"
  "envelope_bytes (replied (monitor_channel_default\<lparr>level_reply := Some (Some
     \<lparr>roll_deg = Some 0x3F800000, pitch_deg = Some 0xC0000000\<rparr>)\<rparr>)) = LEVEL_REPLY"
  "envelope_bytes \<lparr>env_alerts = None, env_monitor = None\<rparr> = []"
  by (simp_all add: writing unset wake_result_frame_def ENVIRONMENT_ACCEPTED_def ENVIRONMENT_REJECTED_def STATE_REPLY_def
      LEVEL_REPLY_def)

text \<open>A frame with a field the schema does not declare.\<close>

lemma topics_reply_read:
  "envelope_of_bytes TOPICS_REPLY = Some \<lparr>env_alerts = Some alert_channel_default, env_monitor = None\<rparr>"
proof -
  let ?inner = "[(5, Chunk [0x08, 0x08, 0x10, 0x01])]"
  have bytes: "wire_bytes [(30, message ?inner)] = TOPICS_REPLY"
    by (simp add: message_def varint.simps TOPICS_REPLY_def)
  have inner: "list_all sound_field ?inner" "length (wire_bytes ?inner) < 2 ^ 64"
    by (simp_all add: sound_field_def varint.simps)
  have "wire_fields TOPICS_REPLY = Some [(30, message ?inner)]"
    unfolding bytes [symmetric] by (rule wire_fields_bytes) (simp add: wire_simps, simp add: message_def varint.simps)
  moreover have "chunk_fields (message ?inner) = Some ?inner"
    unfolding chunk_fields_def message_def wire_value.case by (rule wire_fields_bytes [OF inner])
  ultimately show ?thesis
    by (simp add: envelope_of_bytes_def read_envelope_def get_message_def get_messages_def occurrences_def
        read_alert_channel_def alert_channel_default_def)
qed

subsection \<open>What they decode to\<close>

lemma fixture_decodes:
  "speaks_protobuf pf \<Longrightarrow> envelope_bytes e = bs \<Longrightarrow> length bs < 2 ^ 64 \<Longrightarrow> decode pf bs = Some (envelope_to_event pf e)"
  by (simp add: decode_def speaks_protobuf.decode_written)

lemma notified_event:
  "envelope_to_event pf (notified (Some (no_report\<lparr>report_shot := Some m\<rparr>))) = ShotEvent (decode_metrics pf m)"
  "envelope_to_event pf (notified (Some (no_report\<lparr>report_status := Some \<lparr>status_phase = Some v\<rparr>\<rparr>))) =
     (case device_state_from_proto v of None \<Rightarrow> UnknownEnvelope | Some ds \<Rightarrow> StateChange ds)"
  "envelope_to_event pf (notified (Some (no_report\<lparr>report_fault := Some f\<rparr>))) = ErrorEvent (decode_error_report f)"
  "envelope_to_event pf (notified (Some (no_report\<lparr>report_level := Some l\<rparr>))) =
     LevelCheck (unwrap_or 0 (level_verdict l)) (unwrap_or 0 (level_attempt l))"
  "envelope_to_event pf (notified None) = UnknownEnvelope"
  by (simp_all add: envelope_to_event_def decode_notification_def unset split: option.splits)

lemma shots_decode:
  assumes "speaks_protobuf pf"
  shows "shot pf SHOT_FULL = Some (decode_metrics pf shot_full_readout)"
    "shot pf SHOT_BALL_MEASURED = Some (decode_metrics pf shot_measured_readout)"
    "shot pf SHOT_FLIGHT_MODEL = Some (decode_metrics pf (no_readout\<lparr>shot_number := Some 8,
       readout_ball := Some (no_ball\<lparr>speed_mps := Some 0x42480000, spin_source := Some 1\<rparr>)\<rparr>))"
    "shot pf SHOT_SPIN_OTHER = Some (decode_metrics pf (no_readout\<lparr>shot_number := Some 9,
       readout_ball := Some (no_ball\<lparr>spin_source := Some 2\<rparr>)\<rparr>))"
  using shots_written [THEN fixture_decodes [OF assms]]
  by (simp_all add: shot_def notified_event SHOT_FULL_def SHOT_BALL_MEASURED_def SHOT_FLIGHT_MODEL_def SHOT_SPIN_OTHER_def)

lemma subscribing_event:
  "envelope_to_event pf \<lparr>env_alerts = Some (alert_channel_default\<lparr>subscribe := s\<rparr>), env_monitor = m\<rparr> = UnknownEnvelope"
  by (simp add: envelope_to_event_def unset)

lemma replied_event:
  "envelope_to_event pf (replied ch) =
     (case wake_result ch of Some w \<Rightarrow> WakeResult (unwrap_or 0 w)
      | None \<Rightarrow> (case environment_result ch of Some a \<Rightarrow> EnvironmentResult (unwrap_or False a) | None \<Rightarrow> MonitorReply))"
  "envelope_to_event pf (subscribed v) =
     SubscribeResult (outcome_get pf \<lparr>outcome_code = v, outcome_topic = Some \<lparr>topic = Some 8\<rparr>\<rparr> = OutcomeAccepted)"
  "envelope_to_event pf \<lparr>env_alerts = None, env_monitor = None\<rparr> = UnknownEnvelope"
  by (simp_all add: envelope_to_event_def unset)

text \<open>The values of the library's \<open>cosf\<close> and \<open>sinf\<close> at the two spin axes of the fixtures, correctly rounded.\<close>

definition golden_trig :: "platform \<Rightarrow> bool" where
  "golden_trig pf \<longleftrightarrow>
     cosf pf 0x3DB2B8C2 = 0x3F7F069E \<and> sinf pf 0x3DB2B8C2 = 0x3DB27EB5 \<and>
     cosf pf 0xBE32B8C2 = 0x3F7C1C5C \<and> sinf pf 0xBE32B8C2 = 0xBE31D0D4"

lemma golden_axes:
  "f32_to_radians 0x40A00000 = 0x3DB2B8C2" "f32_to_radians 0xC1200000 = 0xBE32B8C2" "f32_to_radians 0 = 0"
  by (simp_all add: f32_to_radians_def f32_mul_def float_fields, simp_all add: float_pack)

lemma golden_spins:
  "f32_mul 0x452F0000 0x3F7F069E = 0x452E5586" "f32_mul 0x452F0000 0x3DB27EB5 = 0x4374093B"
  "f32_mul 0x45BB8000 0x3F7C1C5C = 0x45B8A6C5" "f32_mul 0x45BB8000 0xBE31D0D4 = 0xC4823C73"
  by (simp_all add: f32_mul_def float_fields, simp_all add: float_pack)

lemma golden_differences:
  "f32_sub 0x452E5586 0x452E559A = 0xBBA00000" "f32_sub 0x4374093B 0x43740A3D = 0xBB810000"
  "f32_sub 0x45B8A6C5 0x45B8A6CD = 0xBB800000" "f32_add 0xC4823C73 0x44823C7B = 0x3A800000"
  by (simp_all add: f32_sub_def f32_add_def f32_scaled_def float_fields, simp_all add: float_pack)

lemma golden_less:
  "f32_less (f32_abs 0xBBA00000) 0x3DCCCCCD" "f32_less (f32_abs 0xBB810000) 0x3DCCCCCD"
  "f32_less (f32_abs 0xBB800000) 0x3DCCCCCD" "f32_less (f32_abs 0x3A800000) 0x3DCCCCCD" "f32_less (f32_abs 0) 0x3C23D70A"
  by (simp_all add: f32_abs_def f32_less_def f32_scaled_def float_fields)

lemma close_refl: "f32_exp x < 255 \<Longrightarrow> close x x"
  by (simp add: close_def f32_sub_self golden_less)

lemma golden_close [golden_simps]:
  "close 0x41480000 0x41480000" "close 0xBF99999A 0xBF99999A" "close 0x42860000 0x42860000"
  "close 0x40A00000 0x40A00000" "close 0x452F0000 0x452F0000" "close 0x42300000 0x42300000"
  "close 0x3FC00000 0x3FC00000" "close 0xC0000000 0xC0000000" "close 0xC0600000 0xC0600000"
  "close 0x41F20000 0x41F20000" "close 0x40200000 0x40200000" "close 0x41CC0000 0x41CC0000"
  "close 0xC1200000 0xC1200000" "close 0x45BB8000 0x45BB8000" "close 0x42480000 0x42480000" "close 0 0"
  "close 0x40900000 0x40900000" "close 0xC0C80000 0xC0C80000"
  by (simp_all add: close_refl f32_exp_def)

lemma shots_pass:
  assumes "speaks_protobuf pf" "golden_trig pf"
  shows "decode_shot_full pf" "decode_shot_ball_measured pf" "decode_shot_flight_model_and_other pf"
proof -
  note trig = assms(2) [unfolded golden_trig_def]
  show "decode_shot_full pf"
    by (simp add: decode_shot_full_def shots_decode [OF assms(1)] expect_def decode_metrics_def decode_ball_def
        shot_full_readout_def Let_def golden_axes trig golden_spins golden_differences golden_less golden_close)
  show "decode_shot_ball_measured pf"
    by (simp add: decode_shot_ball_measured_def shots_decode [OF assms(1)] expect_def decode_metrics_def decode_ball_def
        shot_measured_readout_def Let_def golden_axes trig golden_spins golden_differences golden_less golden_close)
  show "decode_shot_flight_model_and_other pf"
    by (simp add: decode_shot_flight_model_and_other_def shots_decode [OF assms(1)] expect_def decode_metrics_def
        decode_ball_def no_readout_def no_ball_def Let_def golden_close)
qed

lemma states_decode:
  assumes "speaks_protobuf pf" "v < 128"
  shows "decode pf (state_frame v) =
    Some (case device_state_from_proto (ucast v) of None \<Rightarrow> UnknownEnvelope | Some ds \<Rightarrow> StateChange ds)"
  using fixture_decodes [OF assms(1) state_written [OF assms(2)]] by (simp add: notified_event state_frame_def)

lemma reports_pass:
  assumes "speaks_protobuf pf"
  shows "decode_state_changes pf" "decode_errors pf" "decode_level_check pf"
proof -
  show "decode_state_changes pf"
    by (simp add: decode_state_changes_def states_decode [OF assms] device_state_from_proto_def)
  show "decode_errors pf"
    using reports_written(1-3) [THEN fixture_decodes [OF assms]]
    by (simp add: decode_errors_def expect_def notified_event decode_error_report_def golden_close
        ERROR_NOT_LEVEL_def ERROR_OVERHEAT_def ERROR_SATURATION_def)
  show "decode_level_check pf"
    using reports_written(4) [THEN fixture_decodes [OF assms]]
    by (simp add: decode_level_check_def notified_event LEVEL_CHECK_def)
qed

lemma replies_pass:
  assumes "speaks_protobuf pf"
  shows "decode_subscribe_results pf" "decode_wake_results pf" "decode_environment_results pf"
    "decode_other_frames pf" "builders_decode_as_requests pf"
proof -
  show "decode_subscribe_results pf"
    using reports_written(6,7) [THEN fixture_decodes [OF assms]]
    by (simp add: decode_subscribe_results_def replied_event
        speaks_protobuf.outcome_getter [OF assms] SUBSCRIBE_OK_def SUBSCRIBE_FAIL_def)
  show "decode_wake_results pf"
    using replies_written(1-3) [THEN fixture_decodes [OF assms]]
    by (simp add: decode_wake_results_def replied_event monitor_channel_default_def wake_result_frame_def)
  show "decode_environment_results pf"
    using replies_written(4,5) [THEN fixture_decodes [OF assms]]
    by (simp add: decode_environment_results_def replied_event monitor_channel_default_def
        ENVIRONMENT_ACCEPTED_def ENVIRONMENT_REJECTED_def)
  have "decode pf TOPICS_REPLY = Some UnknownEnvelope"
    using speaks_protobuf.decode_read [OF assms topics_reply_read]
    by (simp add: decode_def envelope_to_event_def alert_channel_default_def)
  then show "decode_other_frames pf"
    using replies_written(6-8) [THEN fixture_decodes [OF assms]] reports_written(5) [THEN fixture_decodes [OF assms]]
    by (simp add: decode_other_frames_def replied_event monitor_channel_default_def notified_event
        STATE_REPLY_def LEVEL_REPLY_def NOTIFICATION_EMPTY_def)
  show "builders_decode_as_requests pf"
    using requests_written [THEN fixture_decodes [OF assms]]
    by (simp add: builders_decode_as_requests_def replied_event subscribing_event monitor_channel_default_def WAKEUP_def SUBSCRIBE_def)
qed

lemma environment_requests:
  assumes "speaks_protobuf pf"
  shows "build_environment_request pf cfg =
    wire_bytes [(38, message [(11, message (
      opt_field 1 Bits32 (temperature cfg) @ opt_field 2 Bits32 (humidity cfg) @ opt_field 3 Bits32 (altitude cfg) @
      opt_field 4 Bits32 (air_density cfg) @ opt_field 5 Bits32 (tee_distance_yd cfg)))])]"
proof -
  have [simp]: "opt_field n wr None = []" "opt_field n wr (Some x) = [(n, wr x)]" for n wr and x :: 'a
    by (simp_all add: opt_field_def)
  show ?thesis
    by (simp add: build_environment_request_def monitor_envelope_def speaks_protobuf.encodes [OF assms]
        envelope_bytes_def envelope_fields_def monitor_channel_fields_def monitor_channel_default_def
        environment_settings_fields_def opt_field_def)
qed

lemma builders_pass:
  assumes "speaks_protobuf pf"
  shows "subscribe_request_bytes pf" "wakeup_request_bytes pf" "environment_request_bytes pf"
  using requests_written
  by (simp_all add: subscribe_request_bytes_def wakeup_request_bytes_def speaks_protobuf.built_requests [OF assms]
      replied_def environment_request_bytes_def environment_requests [OF assms] environment_default_def
      message_def opt_field_def varint.simps le32_def ENVIRONMENT_EMPTY_def ENVIRONMENT_TEE_def ENVIRONMENT_ALL_def)

lemma environment_read:
  assumes "speaks_protobuf pf"
  shows "pb_decode pf (build_environment_request pf cfg) =
    Inr \<lparr>env_alerts = None, env_monitor = Some (monitor_channel_default\<lparr>environment := Some
      \<lparr>air_temperature_c = temperature cfg, relative_humidity = humidity cfg, elevation_m = altitude cfg,
       air_density_kg_m3 = air_density cfg, settings_tee_distance_yd = tee_distance_yd cfg\<rparr>\<rparr>)\<rparr>"
  (is "_ = Inr ?e")
proof -
  have len: "length (wire_bytes (opt_field n Bits32 x)) \<le> 5" if "n < 16" for n x
    using that by (simp add: opt_field_def varint.simps [of "8 * n + 5"] split: option.splits)
  let ?inner = "opt_field 1 Bits32 (temperature cfg) @ opt_field 2 Bits32 (humidity cfg) @
    opt_field 3 Bits32 (altitude cfg) @ opt_field 4 Bits32 (air_density cfg) @ opt_field 5 Bits32 (tee_distance_yd cfg)"
  have "length (wire_bytes ?inner) \<le> 25"
    using len [of 1 "temperature cfg"] len [of 2 "humidity cfg"] len [of 3 "altitude cfg"]
      len [of 4 "air_density cfg"] len [of 5 "tee_distance_yd cfg"] by simp
  then have "length (build_environment_request pf cfg) < 2 ^ 64"
    unfolding environment_requests [OF assms] message_def by (simp add: varint.simps)
  moreover have "build_environment_request pf cfg = envelope_bytes ?e"
    by (simp add: build_environment_request_def monitor_envelope_def speaks_protobuf.encodes [OF assms])
  ultimately show ?thesis
    by (simp add: speaks_protobuf.decodes [OF assms envelope_wire_roundtrip])
qed

subsection \<open>Properties\<close>

text \<open>C9: the golden tests pass: for every protobuf library that speaks the wire format and trigonometry that is right
  at the two spin axes of the fixtures, each test of the file on builders and decoder holds, so the bytes the
  crate sends and the events it makes of the recorded frames are fixed by the schema.\<close>

theorem golden_tests_pass:
  assumes "speaks_protobuf pf" "golden_trig pf"
  shows "subscribe_request_bytes pf \<and> wakeup_request_bytes pf \<and> environment_request_bytes pf \<and>
    decode_shot_full pf \<and> decode_shot_ball_measured pf \<and> decode_shot_flight_model_and_other pf \<and>
    decode_state_changes pf \<and> decode_errors pf \<and> decode_level_check pf \<and> decode_subscribe_results pf \<and>
    decode_wake_results pf \<and> decode_environment_results pf \<and> decode_other_frames pf \<and>
    builders_decode_as_requests pf"
  using builders_pass [OF assms(1)] shots_pass [OF assms] reports_pass [OF assms(1)] replies_pass [OF assms(1)] by simp

text \<open>A platform with the format's reader and writer and the two functions at the two axes.\<close>

definition golden_platform :: platform where
  "golden_platform = wire_platform
     (\<lambda>x. if x = 0x3DB2B8C2 then 0x3F7F069E else if x = 0xBE32B8C2 then 0x3F7C1C5C else x)
     (\<lambda>x. if x = 0x3DB2B8C2 then 0x3DB27EB5 else if x = 0xBE32B8C2 then 0xBE31D0D4 else x)"

lemma golden_platform_ok: "speaks_protobuf golden_platform" "golden_trig golden_platform"
proof -
  show "speaks_protobuf golden_platform" unfolding golden_platform_def by (rule wire.speaks_protobuf_axioms)
  show "golden_trig golden_platform" by (simp add: golden_platform_def golden_trig_def wire_platform_def)
qed

theorem golden_tests_pass_witness:
  "decode_shot_full golden_platform \<and> decode_shot_ball_measured golden_platform \<and>
   environment_request_bytes golden_platform \<and> decode_other_frames golden_platform"
  using golden_tests_pass [OF golden_platform_ok] by blast

text \<open>C24: requests round trip: what a device that speaks the format reads of an environment request is exactly the
  settings that were given, each absent one absent, for every environment.\<close>

theorem environment_settings_roundtrip:
  assumes "speaks_protobuf pf"
  shows "pb_decode pf (build_environment_request pf cfg) =
    Inr \<lparr>env_alerts = None, env_monitor = Some (monitor_channel_default\<lparr>environment := Some
      \<lparr>air_temperature_c = temperature cfg, relative_humidity = humidity cfg, elevation_m = altitude cfg,
       air_density_kg_m3 = air_density cfg, settings_tee_distance_yd = tee_distance_yd cfg\<rparr>\<rparr>)\<rparr>"
  by (rule environment_read [OF assms])

theorem environment_settings_roundtrip_witness:
  "pb_decode golden_platform (build_environment_request golden_platform (environment_default\<lparr>altitude := Some 0x42F00000\<rparr>)) =
    Inr \<lparr>env_alerts = None, env_monitor = Some (monitor_channel_default\<lparr>environment := Some
      \<lparr>air_temperature_c = None, relative_humidity = None, elevation_m = Some 0x42F00000, air_density_kg_m3 = None,
       settings_tee_distance_yd = None\<rparr>\<rparr>)\<rparr>"
  by (subst environment_settings_roundtrip [OF golden_platform_ok(1)]) (simp add: environment_default_def)

end
