(* ===== verification/Transport.thy ===== *)
theory Transport
  imports Errors
begin

text \<open>
  The trait \<open>Transport\<close> of \<open>src/client.rs\<close> as a record of three operations on a state \<open>'t\<close>, its contract
  as a locale, the mock transport of the client's tests, and the comparison of identifiers. \<open>read\<close> takes
  the caller's buffer and returns its result, the buffer afterwards and the new state.
\<close>

text \<open>How a write ends when it does not succeed: with an error, in a panic, or not at all, blocked for good.\<close>

datatype write_failure = WriteError io_error | WritePanics | WriteBlocks

record 't transport_ops =
  t_read :: "bytes \<Rightarrow> 't \<Rightarrow> (io_error + nat) \<times> bytes \<times> 't"
  t_write :: "bytes \<Rightarrow> 't \<Rightarrow> (write_failure + unit) \<times> 't"
  t_write_register :: "bytes \<Rightarrow> 't \<Rightarrow> (write_failure + unit) \<times> 't"

text \<open>The call returned to its caller, with \<open>Ok\<close> or with \<open>Err\<close>.\<close>

definition returned :: "write_failure + unit \<Rightarrow> bool" where
  "returned r \<longleftrightarrow> r \<noteq> Inl WritePanics \<and> r \<noteq> Inl WriteBlocks"

lemma returned_simps [simp]: "returned (Inl (WriteError e))" "returned (Inr u)" "\<not> returned (Inl WritePanics)"
    "\<not> returned (Inl WriteBlocks)"
  by (simp_all add: returned_def)

lemma returnedE:
  assumes "returned r"
  obtains (ok) "r = Inr ()" | (failed) e where "r = Inl (WriteError e)"
  using assms by (cases r; cases "projl r") (auto simp: returned_def)

text \<open>A \<open>read\<close> that succeeds reports at most as many bytes as the buffer has, and never changes the
  buffer's length (it is a slice). A write returns.\<close>

locale transport_contract =
  fixes ops :: "'t transport_ops"
  assumes read_reports: "t_read ops b t = (Inr n, b', t') \<Longrightarrow> n \<le> length b"
    and read_length: "t_read ops b t = (r, b', t') \<Longrightarrow> length b' = length b"
    and write_returns: "returned (fst (t_write ops data t))"
    and register_returns: "returned (fst (t_write_register ops data t))"

text \<open>\<open>buf[..len].copy_from_slice(&data[..len])\<close> with \<open>len = data.len().min(buf.len())\<close>.\<close>

definition copy_into :: "bytes \<Rightarrow> bytes \<Rightarrow> nat \<times> bytes" where
  "copy_into data b = (let len = min (length data) (length b) in (len, take len data @ drop len b))"

lemma copy_into_bounds:
  assumes "copy_into data b = (n, b')"
  shows "n \<le> length b" "length b' = length b"
proof -
  have "n = min (length data) (length b)" "b' = take n data @ drop n b"
    using assms by (auto simp: copy_into_def Let_def)
  then show "n \<le> length b" "length b' = length b"
    by (cases "length data \<le> length b"; simp)+
qed

lemma copy_into_read:
  assumes "copy_into data b = (n, b')"
  shows "take n b' = take (length b) data"
proof -
  have "n = min (length data) (length b)" "b' = take n data @ drop n b"
    using assms by (auto simp: copy_into_def Let_def)
  then show ?thesis by (cases "length data \<le> length b"; simp)
qed

subsection \<open>The mock transport\<close>

record mock_transport =
  mock_rx :: "bytes list"
  mock_tx :: "bytes list"
  mock_reg_tx :: "bytes list"

definition mock_new :: mock_transport where
  "mock_new = \<lparr>mock_rx = [], mock_tx = [], mock_reg_tx = []\<rparr>"

definition mock_ops :: "mock_transport transport_ops" where
  "mock_ops =
     \<lparr>t_read = (\<lambda>b t. case mock_rx t of
          [] \<Rightarrow> (Inl (IoError WouldBlock), b, t)
        | data # rest \<Rightarrow> (let (n, b') = copy_into data b in (Inr n, b', t\<lparr>mock_rx := rest\<rparr>))),
      t_write = (\<lambda>data t. (Inr (), t\<lparr>mock_tx := mock_tx t @ [data]\<rparr>)),
      t_write_register = (\<lambda>data t. (Inr (), t\<lparr>mock_reg_tx := mock_reg_tx t @ [data]\<rparr>))\<rparr>"

interpretation mock: transport_contract mock_ops
  by unfold_locales (auto simp: mock_ops_def copy_into_bounds split: list.splits prod.splits)

lemma mock_write [simp]: "t_write mock_ops data t = (Inr (), t\<lparr>mock_tx := mock_tx t @ [data]\<rparr>)"
  by (simp add: mock_ops_def)

text \<open>\<open>eq_ignore_ascii_case\<close>, with which both backends compare identifiers.\<close>

definition ascii_lower :: "char \<Rightarrow> char" where
  "ascii_lower c = (if 65 \<le> (of_char c :: nat) \<and> (of_char c :: nat) \<le> 90 then char_of (of_char c + 32 :: nat) else c)"

definition eq_ignore_ascii_case :: "string \<Rightarrow> string \<Rightarrow> bool" where
  "eq_ignore_ascii_case a b \<longleftrightarrow> map ascii_lower a = map ascii_lower b"

end
