(* ===== verification/Client.thy ===== *)
theory Client
  imports Transport Stream_Buffer Multilink Gfdi_Handshake Proto
begin

text \<open>
  \<open>src/client.rs\<close>: the poll-based client. A method on \<open>&mut self\<close> takes the client and returns its
  result with the new client; \<open>?\<close> is \<open>and_then\<close>. A panic, of the client's own slices or of the
  transport, is the failure \<open>Panicked\<close>, and a call that never returns \<open>Blocked\<close>. The transport's operations \<open>tp\<close>, the platform \<open>pf\<close> and the clock (nanoseconds of
  \<open>Instant::now()\<close>, one reading per poll) are arguments.
\<close>

named_theorems client_simps "the client's operations"

subsection \<open>State\<close>

datatype event =
    Registered u8
  | HandshakeComplete
  | Ready
  | Shot shot_data
  | StateChanged device_state
  | DeviceError device_error
  | Subscribed bool
  | Woken i32
  | EnvironmentReply bool

datatype phase =
    Registering | WaitDeviceInfo | WaitCapabilities | WaitCapabilitiesAck | Subscribing | WakingUp | Active

datatype failure = Err error | Panicked | Blocked

record 't client =
  transport :: 't
  mtu :: nat
  handle :: u8
  phase :: phase
  stream_buf :: stream_buffer
  req_id_counter :: u16
  recent_shots :: "(u32 \<times> nat) list"
  last_state :: "device_state option"
  read_buf :: bytes
  pending_event :: "event option"

definition SHOT_DEDUP_WINDOW_SECS :: nat where
  "SHOT_DEDUP_WINDOW_SECS = 60"

text \<open>\<open>now.duration_since(t).as_secs()\<close>; a \<open>t\<close> later than \<open>now\<close> gives 0.\<close>

definition secs_since :: "nat \<Rightarrow> nat \<Rightarrow> nat" where
  "secs_since now t = (now - t) div 1000000000"

definition client_new :: "'t \<Rightarrow> nat \<Rightarrow> 't client" where
  "client_new t m =
     \<lparr>transport = t, mtu = min m 20, handle = 0, phase = Registering, stream_buf = stream_new,
      req_id_counter = 1, recent_shots = [], last_state = None, read_buf = replicate 512 0,
      pending_event = None\<rparr>"

fun phase_name :: "phase \<Rightarrow> string" where
  "phase_name Registering = ''registering''"
| "phase_name WaitDeviceInfo = ''wait_device_info''"
| "phase_name WaitCapabilities = ''wait_capabilities''"
| "phase_name WaitCapabilitiesAck = ''wait_capabilities_ack''"
| "phase_name Subscribing = ''subscribing''"
| "phase_name WakingUp = ''waking_up''"
| "phase_name Active = ''active''"

subsection \<open>Sending\<close>

definition next_req_id :: "'t client \<Rightarrow> u16 \<times> 't client" where
  "next_req_id c = (req_id_counter c, c\<lparr>req_id_counter := req_id_counter c + 1\<rparr>)"

fun write_stopped :: "write_failure \<Rightarrow> failure" where
  "write_stopped (WriteError e) = Err (TransportError e)"
| "write_stopped WritePanics = Panicked"
| "write_stopped WriteBlocks = Blocked"

fun write_chunks :: "'t transport_ops \<Rightarrow> bytes list \<Rightarrow> 't client \<Rightarrow> (failure + unit) \<times> 't client" where
  "write_chunks tp [] c = (Inr (), c)"
| "write_chunks tp (chunk # chunks) c =
     (case t_write tp chunk (transport c) of
        (Inl e, t) \<Rightarrow> (Inl (write_stopped e), c\<lparr>transport := t\<rparr>)
      | (Inr _, t) \<Rightarrow> write_chunks tp chunks (c\<lparr>transport := t\<rparr>))"

definition send_frame :: "'t transport_ops \<Rightarrow> bytes \<Rightarrow> 't client \<Rightarrow> (failure + unit) \<times> 't client" where
  "send_frame tp frame c = write_chunks tp (chunk_with_handle (wrap_cobs frame) (handle c) (mtu c)) c"

definition send_ack :: "'t transport_ops \<Rightarrow> u16 \<Rightarrow> u8 \<Rightarrow> bytes \<Rightarrow> 't client \<Rightarrow> (failure + unit) \<times> 't client" where
  "send_ack tp orig_type status p c = send_frame tp (build_ack orig_type status p) c"

definition send_request :: "'t transport_ops \<Rightarrow> bytes \<Rightarrow> 't client \<Rightarrow> (failure + unit) \<times> 't client" where
  "send_request tp pb c = (let (rid, c) = next_req_id c in send_frame tp (build_protobuf_request rid pb) c)"

definition send_wakeup :: "'t transport_ops \<Rightarrow> platform \<Rightarrow> 't client \<Rightarrow> (failure + unit) \<times> 't client" where
  "send_wakeup tp pf c = send_request tp (build_wakeup_request pf) c"

definition send_subscribe :: "'t transport_ops \<Rightarrow> platform \<Rightarrow> 't client \<Rightarrow> (failure + unit) \<times> 't client" where
  "send_subscribe tp pf c = send_request tp (build_subscribe_request pf) c"

definition send_environment ::
  "'t transport_ops \<Rightarrow> platform \<Rightarrow> environment_config \<Rightarrow> 't client \<Rightarrow> (failure + unit) \<times> 't client" where
  "send_environment tp pf config c = send_request tp (build_environment_request pf config) c"

definition client_start :: "'t transport_ops \<Rightarrow> 't client \<Rightarrow> (failure + unit) \<times> 't client" where
  "client_start tp c =
     (case t_write_register tp (build_register 1 Gfdi) (transport c) of
        (Inl e, t) \<Rightarrow> (Inl (write_stopped e), c\<lparr>transport := t\<rparr>)
      | (Inr _, t) \<Rightarrow> (Inr (), c\<lparr>transport := t, phase := Registering\<rparr>))"

subsection \<open>Handling frames\<close>

definition handle_register_response :: "bytes \<Rightarrow> 't client \<Rightarrow> (failure + event option) \<times> 't client" where
  "handle_register_response chunk c =
     (case parse_register_response chunk of
        Some (status, h, flags) \<Rightarrow>
          (if status = Success
           then (Inr (Some (Registered h)), c\<lparr>handle := h, phase := WaitDeviceInfo\<rparr>)
           else (Inl (Err (MultiLinkRegister (register_code status))), c))
      | None \<Rightarrow>
          (case strip_handle chunk (handle c) of
             None \<Rightarrow> (Inr None, c)
           | Some data \<Rightarrow>
               (case stream_extend data (stream_buf c) of
                  (Inl e, sb) \<Rightarrow> (Inl (Err e), c\<lparr>stream_buf := sb\<rparr>)
                | (Inr _, sb) \<Rightarrow> (Inr None, c\<lparr>stream_buf := sb\<rparr>))))"

definition handle_device_info ::
  "'t transport_ops \<Rightarrow> bytes \<Rightarrow> 't client \<Rightarrow> (failure + event option) \<times> 't client" where
  "handle_device_info tp p c =
     (case parse_device_info p of
        Inl e \<Rightarrow> (Inl (Err e), c)
      | Inr info \<Rightarrow>
          and_then (send_frame tp build_device_info_response c)
            (\<lambda>_ c. (Inr None, c\<lparr>phase := WaitCapabilities\<rparr>)))"

definition handle_configuration ::
  "'t transport_ops \<Rightarrow> bytes \<Rightarrow> 't client \<Rightarrow> (failure + event option) \<times> 't client" where
  "handle_configuration tp p c =
     and_then (send_ack tp MSG_CONFIGURATION 0 [] c)
       (\<lambda>_ c. and_then (send_frame tp build_host_capabilities c)
         (\<lambda>_ c. (Inr None, c\<lparr>phase := WaitCapabilitiesAck\<rparr>)))"

definition handle_ack ::
  "'t transport_ops \<Rightarrow> platform \<Rightarrow> bytes \<Rightarrow> 't client \<Rightarrow> (failure + event option) \<times> 't client" where
  "handle_ack tp pf p c =
     (if length p < 3 then (Inr None, c)
      else
        let orig_type = of_le16 (p ! 0) (p ! 1); status = p ! 2
        in if status \<noteq> 0 then (Inl (Err (Nak orig_type status)), c)
           else if orig_type = MSG_CONFIGURATION \<and> phase c = WaitCapabilitiesAck
           then and_then (send_subscribe tp pf (c\<lparr>phase := Subscribing\<rparr>))
                  (\<lambda>_ c. (Inr (Some HandshakeComplete), c))
           else (Inr None, c))"

definition handle_shot :: "nat \<Rightarrow> shot_data \<Rightarrow> 't client \<Rightarrow> event option \<times> 't client" where
  "handle_shot now s c =
     (let recent = filter (\<lambda>(_, t). secs_since now t < SHOT_DEDUP_WINDOW_SECS) (recent_shots c)
      in if list_ex (\<lambda>(id, _). id = shot_id s) recent
         then (None, c\<lparr>recent_shots := recent\<rparr>)
         else (Some (Shot s), c\<lparr>recent_shots := recent @ [(shot_id s, now)]\<rparr>))"

definition handle_state_change ::
  "'t transport_ops \<Rightarrow> platform \<Rightarrow> device_state \<Rightarrow> 't client \<Rightarrow> (failure + event option) \<times> 't client" where
  "handle_state_change tp pf st c =
     (let changed = last_state c \<noteq> Some st; c = c\<lparr>last_state := Some st\<rparr>
      in if changed then
           (if st = Waiting then (Inr (Some Ready), c)
            else if st = Standby \<and> phase c = Active
            then and_then (send_wakeup tp pf c) (\<lambda>_ c. (Inr (Some (StateChanged st)), c))
            else (Inr (Some (StateChanged st)), c))
         else (Inr None, c))"

definition handle_envelope_event ::
  "'t transport_ops \<Rightarrow> platform \<Rightarrow> nat \<Rightarrow> envelope_event \<Rightarrow> 't client \<Rightarrow> (failure + event option) \<times> 't client" where
  "handle_envelope_event tp pf now ev c =
     (case ev of
        SubscribeResult success \<Rightarrow>
          (if phase c = Subscribing
           then and_then (send_wakeup tp pf (c\<lparr>phase := WakingUp\<rparr>))
                  (\<lambda>_ c. (Inr (Some (Subscribed success)), c))
           else (Inr (Some (Subscribed success)), c))
      | WakeResult status \<Rightarrow>
          (let c = (if phase c = WakingUp then c\<lparr>phase := Active\<rparr> else c);
               c = (if status = 1 then c\<lparr>last_state := Some Waiting, pending_event := Some Ready\<rparr> else c)
           in (Inr (Some (Woken status)), c))
      | EnvironmentResult success \<Rightarrow> (Inr (Some (EnvironmentReply success)), c)
      | StateChange st \<Rightarrow> handle_state_change tp pf st c
      | ShotEvent s \<Rightarrow> (let (ev, c) = handle_shot now s c in (Inr ev, c))
      | ErrorEvent err \<Rightarrow> (Inr (Some (DeviceError err)), c)
      | LevelCheck verdict attempt \<Rightarrow> (Inr None, c)
      | MonitorReply \<Rightarrow> (Inr None, c)
      | UnknownEnvelope \<Rightarrow> (Inr None, c))"

definition handle_protobuf ::
  "'t transport_ops \<Rightarrow> platform \<Rightarrow> nat \<Rightarrow> bytes \<Rightarrow> 't client \<Rightarrow> (failure + event option) \<times> 't client" where
  "handle_protobuf tp pf now p c =
     (case parse_frag_header p of
        Inl e \<Rightarrow> (Inl (Err e), c)
      | Inr (hdr, pb_data) \<Rightarrow>
          (case decode_envelope pf pb_data of
             Inl e \<Rightarrow> (Inl (Err (Protobuf e)), c)
           | Inr ev \<Rightarrow> handle_envelope_event tp pf now ev c))"

definition dispatch_frame ::
  "'t transport_ops \<Rightarrow> platform \<Rightarrow> nat \<Rightarrow> gfdi_frame \<Rightarrow> 't client \<Rightarrow> (failure + event option) \<times> 't client" where
  "dispatch_frame tp pf now f c =
     (if msg_type f = MSG_DEVICE_INFO then handle_device_info tp (payload f) c
      else if msg_type f = MSG_CONFIGURATION then handle_configuration tp (payload f) c
      else if msg_type f = MSG_ACK then handle_ack tp pf (payload f) c
      else if msg_type f = MSG_FIT_DEFINITION \<or> msg_type f = MSG_FIT_DATA
      then and_then (send_ack tp (msg_type f) 0 [0x00] c) (\<lambda>_ c. (Inr None, c))
      else if msg_type f = MSG_PROTOBUF_REQUEST \<or> msg_type f = MSG_PROTOBUF_RESPONSE
      then and_then (handle_protobuf tp pf now (payload f) c)
             (\<lambda>ev c. and_then (send_ack tp (msg_type f) 0 [] c) (\<lambda>_ c. (Inr ev, c)))
      else (Inr None, c))"

subsection \<open>Polling\<close>

definition process_frame ::
  "'t transport_ops \<Rightarrow> platform \<Rightarrow> nat \<Rightarrow> 't client \<Rightarrow> (failure + event option) \<times> 't client" where
  "process_frame tp pf now c =
     (case next_frame (stream_buf c) of
        (None, sb) \<Rightarrow> (Inr None, c\<lparr>stream_buf := sb\<rparr>)
      | (Some (Inl e), sb) \<Rightarrow> (Inl (Err e), c\<lparr>stream_buf := sb\<rparr>)
      | (Some (Inr f), sb) \<Rightarrow> dispatch_frame tp pf now f (c\<lparr>stream_buf := sb\<rparr>))"

definition client_poll ::
  "'t transport_ops \<Rightarrow> platform \<Rightarrow> nat \<Rightarrow> 't client \<Rightarrow> (failure + event option) \<times> 't client" where
  "client_poll tp pf now c =
     (case pending_event c of
        Some ev \<Rightarrow> (Inr (Some ev), c\<lparr>pending_event := None\<rparr>)
      | None \<Rightarrow>
          (case t_read tp (read_buf c) (transport c) of
             (Inl e, b, t) \<Rightarrow>
               (let c = c\<lparr>transport := t, read_buf := b\<rparr>
                in if io_kind e = WouldBlock then process_frame tp pf now c
                   else (Inl (Err (TransportError e)), c))
           | (Inr n, b, t) \<Rightarrow>
               (let c = c\<lparr>transport := t, read_buf := b\<rparr>
                in if n = 0 then process_frame tp pf now c
                   else if length b < n then (Inl Panicked, c)
                   else
                     let chunk = take n b
                     in if phase c = Registering then handle_register_response chunk c
                        else (case strip_handle chunk (handle c) of
                                None \<Rightarrow> process_frame tp pf now c
                              | Some data \<Rightarrow>
                                  (case stream_extend data (stream_buf c) of
                                     (Inl e, sb) \<Rightarrow> (Inl (Err e), c\<lparr>stream_buf := sb\<rparr>)
                                   | (Inr _, sb) \<Rightarrow> process_frame tp pf now (c\<lparr>stream_buf := sb\<rparr>))))))"

subsection \<open>What sending changes\<close>

lemma write_chunks_cases:
  obtains (ok) t where "write_chunks tp chunks c = (Inr (), c\<lparr>transport := t\<rparr>)"
  | (failed) e t where "write_chunks tp chunks c = (Inl (write_stopped e), c\<lparr>transport := t\<rparr>)"
proof (induction chunks arbitrary: c thesis)
  case Nil
  have "write_chunks tp [] c = (Inr (), c\<lparr>transport := transport c\<rparr>)" by simp
  then show ?case by (rule Nil(1))
next
  case (Cons chunk chunks)
  obtain r t where w: "t_write tp chunk (transport c) = (r, t)" by fastforce
  show ?case
  proof (cases r)
    case (Inl e)
    then show ?thesis using Cons.prems(2) w by simp
  next
    case (Inr u)
    then show ?thesis
      using w by (cases rule: Cons.IH [of "c\<lparr>transport := t\<rparr>"]) (simp_all add: Cons.prems)
  qed
qed

lemma send_frame_cases:
  obtains (ok) t where "send_frame tp f c = (Inr (), c\<lparr>transport := t\<rparr>)"
  | (failed) e t where "send_frame tp f c = (Inl (write_stopped e), c\<lparr>transport := t\<rparr>)"
  unfolding send_frame_def by (rule write_chunks_cases)

lemma send_request_cases:
  obtains (ok) t where
    "send_request tp pb c = (Inr (), c\<lparr>req_id_counter := req_id_counter c + 1, transport := t\<rparr>)"
  | (failed) e t where "send_request tp pb c =
      (Inl (write_stopped e), c\<lparr>req_id_counter := req_id_counter c + 1, transport := t\<rparr>)"
proof -
  let ?f = "build_protobuf_request (req_id_counter c) pb"
  show thesis
    by (cases rule: send_frame_cases [of tp ?f "c\<lparr>req_id_counter := req_id_counter c + 1\<rparr>"])
       (use ok failed in \<open>simp_all add: send_request_def next_req_id_def\<close>)
qed

lemmas request_defs = send_wakeup_def send_subscribe_def send_environment_def

text \<open>Over a transport that keeps to its contract, sending fails only with the transport's error.\<close>

context transport_contract
begin

lemma write_returned: "t_write ops d t = (Inl e, t') \<Longrightarrow> \<exists>x. e = WriteError x"
  using write_returns [of d t] by (auto elim: returnedE)

lemma register_returned: "t_write_register ops d t = (Inl e, t') \<Longrightarrow> \<exists>x. e = WriteError x"
  using register_returns [of d t] by (auto elim: returnedE)

lemma write_chunks_error:
  "write_chunks ops chunks c = (Inl f, c') \<Longrightarrow> \<exists>e. f = Err (TransportError e)"
  by (induction chunks arbitrary: c) (auto split: prod.splits sum.splits dest: write_returned)

lemma send_frame_ends:
  obtains (ok) t where "send_frame ops f c = (Inr (), c\<lparr>transport := t\<rparr>)"
  | (failed) e t where "send_frame ops f c = (Inl (Err (TransportError e)), c\<lparr>transport := t\<rparr>)"
proof (cases rule: send_frame_cases [of ops f c])
  case (failed e t)
  then show ?thesis using that(2) write_chunks_error unfolding send_frame_def by fastforce
qed (rule that(1))

lemma send_request_ends:
  obtains (ok) t where
    "send_request ops pb c = (Inr (), c\<lparr>req_id_counter := req_id_counter c + 1, transport := t\<rparr>)"
  | (failed) e t where "send_request ops pb c =
      (Inl (Err (TransportError e)), c\<lparr>req_id_counter := req_id_counter c + 1, transport := t\<rparr>)"
proof (cases rule: send_frame_ends
    [of "build_protobuf_request (req_id_counter c) pb" "c\<lparr>req_id_counter := req_id_counter c + 1\<rparr>"])
qed (use that in \<open>simp_all add: send_request_def next_req_id_def\<close>)

lemma start_ends:
  obtains (ok) t where "client_start ops c = (Inr (), c\<lparr>transport := t, phase := Registering\<rparr>)"
  | (failed) e t where "client_start ops c = (Inl (Err (TransportError e)), c\<lparr>transport := t\<rparr>)"
proof -
  obtain r t where w: "t_write_register ops (build_register 1 Gfdi) (transport c) = (r, t)" by fastforce
  then have "returned r" using register_returns [of "build_register 1 Gfdi" "transport c"] by simp
  then show thesis using w that by (cases rule: returnedE) (simp_all add: client_start_def)
qed

end

subsection \<open>The phases\<close>

text \<open>The steps between phases. A device that starts the handshake again is followed from any phase.\<close>

inductive phase_step :: "phase \<Rightarrow> phase \<Rightarrow> bool" where
  registered: "phase_step Registering WaitDeviceInfo"
| device_info: "phase_step p WaitCapabilities"
| configuration: "phase_step p WaitCapabilitiesAck"
| acknowledged: "phase_step WaitCapabilitiesAck Subscribing"
| subscribed: "phase_step Subscribing WakingUp"
| woken: "phase_step WakingUp Active"

inductive_cases phase_step_Subscribing: "phase_step p Subscribing"
inductive_cases phase_step_WakingUp: "phase_step p WakingUp"
inductive_cases phase_step_Active: "phase_step p Active"
inductive_simps phase_step_Registering: "phase_step p Registering"

subsection \<open>What handling a frame changes\<close>

text \<open>A call that handles one frame, from \<open>c\<close> to \<open>c'\<close> with result \<open>r\<close>: connection parameters and
  buffers stay, the phase takes at most one step, only \<open>Ready\<close> is queued, nothing panics or blocks, and the shot
  memory changes, if at all, as \<open>handle_shot\<close> changes it; a shot comes out only from there.\<close>

definition frame_effect :: "nat \<Rightarrow> 't client \<Rightarrow> (failure + event option) \<times> 't client \<Rightarrow> bool" where
  "frame_effect now c rc \<longleftrightarrow>
     (let (r, c') = rc in
      handle c' = handle c \<and> mtu c' = mtu c \<and> read_buf c' = read_buf c \<and> stream_buf c' = stream_buf c \<and>
      (phase c' = phase c \<or> phase_step (phase c) (phase c')) \<and>
      (pending_event c' = pending_event c \<or> pending_event c' = Some Ready) \<and>
      r \<noteq> Inl Panicked \<and> r \<noteq> Inl Blocked \<and>
      (recent_shots c' = recent_shots c \<and> (\<forall>s. r \<noteq> Inr (Some (Shot s))) \<or>
       (\<exists>s. recent_shots c' = recent_shots (snd (handle_shot now s c)) \<and>
            (\<forall>s'. r = Inr (Some (Shot s')) \<longrightarrow> s' = s \<and> fst (handle_shot now s c) = Some (Shot s)))))"

lemma frame_effect_quiet:
  "handle c' = handle c \<Longrightarrow> mtu c' = mtu c \<Longrightarrow> read_buf c' = read_buf c \<Longrightarrow> stream_buf c' = stream_buf c \<Longrightarrow>
   recent_shots c' = recent_shots c \<Longrightarrow> phase c' = phase c \<or> phase_step (phase c) (phase c') \<Longrightarrow>
   pending_event c' = pending_event c \<or> pending_event c' = Some Ready \<Longrightarrow>
   r \<noteq> Inl Panicked \<Longrightarrow> r \<noteq> Inl Blocked \<Longrightarrow> (\<forall>s. r \<noteq> Inr (Some (Shot s))) \<Longrightarrow> frame_effect now c (r, c')"
  by (simp add: frame_effect_def)

lemma frame_effect_error: "frame_effect now c (Inl (Err e), c)"
  by (auto intro!: frame_effect_quiet)

context transport_contract
begin

lemma handle_device_info_effect: "frame_effect now c (handle_device_info ops p c)"
  by (cases "parse_device_info p"; cases rule: send_frame_ends [of build_device_info_response c])
     (auto simp: handle_device_info_def intro!: frame_effect_quiet phase_step.intros)

lemma handle_configuration_effect: "frame_effect now c (handle_configuration ops p c)"
proof (cases rule: send_frame_ends [of "build_ack MSG_CONFIGURATION 0 []" c])
  case (ok t)
  then show ?thesis
    by (cases rule: send_frame_ends [of build_host_capabilities "c\<lparr>transport := t\<rparr>"])
       (auto simp: handle_configuration_def send_ack_def intro!: frame_effect_quiet phase_step.intros)
next
  case failed
  then show ?thesis
    by (auto simp: handle_configuration_def send_ack_def intro!: frame_effect_quiet phase_step.intros)
qed

lemma handle_ack_effect: "frame_effect now c (handle_ack ops pf p c)"
  by (cases rule: send_request_ends [of "build_subscribe_request pf" "c\<lparr>phase := Subscribing\<rparr>"])
     (auto simp: handle_ack_def Let_def request_defs intro!: frame_effect_quiet phase_step.intros)

lemma handle_shot_effect:
  "frame_effect now c (case handle_shot now s c of (ev, c') \<Rightarrow> (Inr ev, c'))"
  by (auto simp: frame_effect_def handle_shot_def Let_def)

lemma handle_state_change_effect: "frame_effect now c (handle_state_change ops pf st c)"
  by (cases rule: send_request_ends [of "build_wakeup_request pf" "c\<lparr>last_state := Some st\<rparr>"])
     (auto simp: handle_state_change_def Let_def request_defs intro!: frame_effect_quiet)

lemma handle_envelope_event_effect: "frame_effect now c (handle_envelope_event ops pf now ev c)"
proof (cases ev)
  case (SubscribeResult success)
  then show ?thesis
    by (cases rule: send_request_ends [of "build_wakeup_request pf" "c\<lparr>phase := WakingUp\<rparr>"])
       (auto simp: handle_envelope_event_def request_defs intro!: frame_effect_quiet phase_step.intros)
next
  case (StateChange st)
  then show ?thesis using handle_state_change_effect by (simp add: handle_envelope_event_def)
next
  case (ShotEvent s)
  then show ?thesis using handle_shot_effect by (simp add: handle_envelope_event_def)
next
  case (WakeResult status)
  then show ?thesis
    by (auto simp: handle_envelope_event_def Let_def intro!: frame_effect_quiet phase_step.intros)
qed (auto simp: handle_envelope_event_def intro!: frame_effect_quiet)

lemma handle_protobuf_effect: "frame_effect now c (handle_protobuf ops pf now p c)"
  by (auto simp: handle_protobuf_def handle_envelope_event_effect intro!: frame_effect_error split: sum.splits prod.splits)

lemma frame_effect_transport:
  "frame_effect now c (r, c') \<Longrightarrow> frame_effect now c (r, c'\<lparr>transport := t\<rparr>)"
  "frame_effect now c (r, c') \<Longrightarrow> frame_effect now c (Inl (Err e), c'\<lparr>transport := t\<rparr>)"
  by (auto simp: frame_effect_def)

lemma dispatch_frame_effect: "frame_effect now c (dispatch_frame ops pf now f c)"
proof -
  have fit: "frame_effect now c (and_then (send_ack ops mt 0 [0] c) (\<lambda>_ c. (Inr None, c)))" for mt
    by (cases rule: send_frame_ends [of "build_ack mt 0 [0]" c])
       (auto simp: send_ack_def intro!: frame_effect_quiet)
  have pb: "frame_effect now c (and_then (handle_protobuf ops pf now p c)
      (\<lambda>ev c. and_then (send_ack ops mt 0 [] c) (\<lambda>_ c. (Inr ev, c))))" for p mt
  proof -
    obtain r c' where h: "handle_protobuf ops pf now p c = (r, c')" by fastforce
    note eff = handle_protobuf_effect [of now c pf p, unfolded h]
    show ?thesis
    proof (cases r)
      case (Inl e)
      then show ?thesis using eff h by simp
    next
      case (Inr ev)
      then show ?thesis
        using eff h
        by (cases rule: send_frame_ends [of "build_ack mt 0 []" c'])
           (simp_all add: send_ack_def frame_effect_transport)
    qed
  qed
  show ?thesis
    by (simp add: dispatch_frame_def handle_device_info_effect handle_configuration_effect handle_ack_effect fit pb)
       (auto intro!: frame_effect_quiet)
qed

end

subsection \<open>What a poll changes\<close>

definition client_ok :: "'t client \<Rightarrow> bool" where
  "client_ok c \<longleftrightarrow>
     length (buf (stream_buf c)) \<le> STREAM_BUFFER_MAX \<and> mtu c \<le> 20 \<and> length (read_buf c) = 512 \<and>
     distinct (map fst (recent_shots c)) \<and> pending_event c \<in> {None, Some Ready}"

text \<open>The parts of \<open>frame_effect\<close> that also hold of a whole poll.\<close>

definition poll_effect :: "nat \<Rightarrow> 't client \<Rightarrow> (failure + event option) \<times> 't client \<Rightarrow> bool" where
  "poll_effect now c rc \<longleftrightarrow>
     (let (r, c') = rc in
      mtu c' = mtu c \<and> length (read_buf c') = length (read_buf c) \<and>
      (length (buf (stream_buf c)) \<le> STREAM_BUFFER_MAX \<longrightarrow> length (buf (stream_buf c')) \<le> STREAM_BUFFER_MAX) \<and>
      (phase c' = phase c \<or> phase_step (phase c) (phase c')) \<and>
      (pending_event c' \<in> {None, Some Ready, pending_event c}) \<and>
      r \<noteq> Inl Panicked \<and> r \<noteq> Inl Blocked \<and>
      (recent_shots c' = recent_shots c \<and> (\<forall>s. r = Inr (Some (Shot s)) \<longrightarrow> pending_event c = Some (Shot s)) \<or>
       (\<exists>s. recent_shots c' = recent_shots (snd (handle_shot now s c)) \<and>
            (\<forall>s'. r = Inr (Some (Shot s')) \<longrightarrow> s' = s \<and> fst (handle_shot now s c) = Some (Shot s)))))"

lemma frame_poll_effect:
  assumes "frame_effect now c rc"
  shows "poll_effect now c rc"
  using assms unfolding frame_effect_def poll_effect_def by (auto split: prod.splits)

lemma poll_effect_buffers:
  assumes "poll_effect now (c\<lparr>transport := t, read_buf := b, stream_buf := sb\<rparr>) rc"
    "length b = length (read_buf c)" "length (buf sb) \<le> STREAM_BUFFER_MAX \<or> length (buf sb) \<le> length (buf (stream_buf c))"
  shows "poll_effect now c rc"
  using assms unfolding poll_effect_def handle_shot_def Let_def
  by (auto split: prod.splits if_splits)

lemma register_response_effect:
  assumes "length b = length (read_buf c)" "phase c = Registering"
  shows "poll_effect now c (handle_register_response chunk (c\<lparr>transport := t, read_buf := b\<rparr>))"
proof -
  have phase: "phase_step Registering WaitDeviceInfo" by (rule phase_step.intros)
  show ?thesis
  proof (cases "parse_register_response chunk")
    case (Some x)
    obtain st h fl where "x = (st, h, fl)" by (metis surj_pair)
    then show ?thesis
      using Some assms phase by (simp add: handle_register_response_def poll_effect_def)
  next
    case None
    show ?thesis
    proof (cases "strip_handle chunk (handle c)")
      case (Some data)
      obtain r sb where "stream_extend data (stream_buf c) = (r, sb)" by fastforce
      then show ?thesis
        using None Some assms stream_extend_bound [of data "stream_buf c"]
        by (cases r) (simp_all add: handle_register_response_def poll_effect_def)
    qed (use None assms in \<open>simp add: handle_register_response_def poll_effect_def\<close>)
  qed
qed

context transport_contract
begin

lemma process_frame_effect:
  assumes "length b = length (read_buf c)"
    "length (buf (stream_buf c')) \<le> STREAM_BUFFER_MAX \<or> stream_buf c' = stream_buf c"
    "c' = c\<lparr>transport := t, read_buf := b, stream_buf := sb\<rparr>"
  shows "poll_effect now c (process_frame ops pf now c')"
proof -
  obtain r sb' where nf: "next_frame (stream_buf c') = (r, sb')" by fastforce
  have bound: "length (buf sb') \<le> length (buf (stream_buf c'))"
    using next_frame_bound [of "stream_buf c'"] nf by simp
  let ?d = "c\<lparr>transport := t, read_buf := b, stream_buf := sb'\<rparr>"
  have d: "c'\<lparr>stream_buf := sb'\<rparr> = ?d" using assms(3) by simp
  have small: "length (buf sb') \<le> STREAM_BUFFER_MAX \<or> length (buf sb') \<le> length (buf (stream_buf c))"
    using bound assms(2) by auto
  have lift: "frame_effect now ?d rc \<Longrightarrow> poll_effect now c rc" for rc
    by (rule poll_effect_buffers [OF frame_poll_effect assms(1) small])
  consider (none) "r = None" | (bad) e where "r = Some (Inl e)" | (good) f where "r = Some (Inr f)"
    by (cases r; cases "the r") auto
  then show ?thesis
  proof cases
    case none
    then show ?thesis
      using lift [of "(Inr None, ?d)"] by (simp add: process_frame_def nf d frame_effect_quiet)
  next
    case bad
    then show ?thesis
      using lift [of "(Inl (Err e), ?d)"] by (simp add: process_frame_def nf d frame_effect_quiet)
  next
    case good
    then show ?thesis
      using lift [OF dispatch_frame_effect] by (simp add: process_frame_def nf d)
  qed
qed

lemma poll_effect_holds: "poll_effect now c (client_poll ops pf now c)"
proof (cases "pending_event c")
  case (Some ev)
  then show ?thesis by (auto simp: client_poll_def poll_effect_def)
next
  case None
  obtain r b t where read: "t_read ops (read_buf c) (transport c) = (r, b, t)" by (metis surj_pair)
  have len: "length b = length (read_buf c)" using read_length [OF read] .
  let ?c = "c\<lparr>transport := t, read_buf := b\<rparr>"
  have same: "?c = c\<lparr>transport := t, read_buf := b, stream_buf := stream_buf c\<rparr>" by simp
  have proc: "poll_effect now c (process_frame ops pf now ?c)"
    by (rule process_frame_effect [OF len _ same]) simp
  show ?thesis
  proof (cases r)
    case (Inl e)
    have "poll_effect now c (Inl (Err (TransportError e)), ?c)"
      using len by (simp add: poll_effect_def)
    then show ?thesis using None read Inl proc by (simp add: client_poll_def Let_def)
  next
    case (Inr n)
    have n: "n \<le> length b" using read_reports [of "read_buf c" "transport c" n b t] read Inr len by simp
    show ?thesis
    proof (cases "n = 0 \<or> phase c = Registering \<or> strip_handle (take n b) (handle c) = None")
      case True
      then show ?thesis
        using None read Inr n proc register_response_effect [OF len, where now = now and t = t]
        by (auto simp: client_poll_def Let_def)
    next
      case False
      then obtain data where data: "strip_handle (take n b) (handle c) = Some data" by auto
      obtain r sb where ext: "stream_extend data (stream_buf c) = (r, sb)" by fastforce
      have sb: "length (buf sb) \<le> STREAM_BUFFER_MAX"
        using stream_extend_bound [of data "stream_buf c"] ext by simp
      have "poll_effect now c (process_frame ops pf now (?c\<lparr>stream_buf := sb\<rparr>))"
        by (rule process_frame_effect [OF len]) (use sb in simp_all)
      moreover have "poll_effect now c (Inl (Err e), ?c\<lparr>stream_buf := sb\<rparr>)" for e
        using len sb by (simp add: poll_effect_def)
      ultimately show ?thesis
        using False None read Inr n data ext by (cases r) (simp_all add: client_poll_def Let_def)
    qed
  qed
qed

end

lemma handle_shot_distinct:
  "distinct (map fst (recent_shots c)) \<Longrightarrow> distinct (map fst (recent_shots (snd (handle_shot now s c))))"
  by (auto simp: handle_shot_def Let_def distinct_map_filter list_ex_iff)

lemma poll_effect_ok: "poll_effect now c (r, c') \<Longrightarrow> client_ok c \<Longrightarrow> client_ok c'"
  unfolding poll_effect_def client_ok_def by (auto simp: handle_shot_distinct)

subsection \<open>Using a client\<close>

text \<open>What a caller does with a client: start it, poll it at a clock reading, send an environment, or work
  on the transport it holds (\<open>transport_mut\<close>), which is also how the outside world moves on.\<close>

datatype 't client_op =
    Start | Poll nat | SendEnvironment environment_config | TouchTransport "'t \<Rightarrow> 't"

fun client_exec ::
  "'t transport_ops \<Rightarrow> platform \<Rightarrow> 't client_op \<Rightarrow> 't client \<Rightarrow> (failure + event option) \<times> 't client" where
  "client_exec tp pf Start c = and_then (client_start tp c) (\<lambda>_ c. (Inr None, c))"
| "client_exec tp pf (Poll now) c = client_poll tp pf now c"
| "client_exec tp pf (SendEnvironment config) c =
     and_then (send_environment tp pf config c) (\<lambda>_ c. (Inr None, c))"
| "client_exec tp pf (TouchTransport g) c = (Inr None, c\<lparr>transport := g (transport c)\<rparr>)"

inductive client_reach :: "'t transport_ops \<Rightarrow> platform \<Rightarrow> 't client \<Rightarrow> bool" for tp pf where
  new: "client_reach tp pf (client_new t m)"
| step: "client_reach tp pf c \<Longrightarrow> client_exec tp pf op c = (r, c') \<Longrightarrow> client_reach tp pf c'"

lemma client_new_ok: "client_ok (client_new t m)"
  by (simp add: client_ok_def client_new_def stream_new_def)

context transport_contract
begin

lemma exec_ok:
  assumes "client_ok c" "client_exec ops pf op c = (r, c')"
  shows "client_ok c' \<and> r \<notin> {Inl Panicked, Inl Blocked}"
proof (cases op)
  case Start
  then show ?thesis
    using assms by (cases rule: start_ends [of c]) (auto simp: client_ok_def)
next
  case (Poll now)
  then have eff: "poll_effect now c (r, c')"
    using assms(2) poll_effect_holds [of now c pf] by simp
  then have "r \<notin> {Inl Panicked, Inl Blocked}" unfolding poll_effect_def by simp
  with poll_effect_ok [OF eff assms(1)] show ?thesis by simp
next
  case (SendEnvironment config)
  then show ?thesis
    using assms by (cases rule: send_request_ends [of "build_environment_request pf config" c])
      (auto simp: send_environment_def client_ok_def)
next
  case (TouchTransport g)
  then show ?thesis using assms by (auto simp: client_ok_def)
qed

lemma reach_ok: "client_reach ops pf c \<Longrightarrow> client_ok c"
  by (induction rule: client_reach.induct) (simp_all add: client_new_ok exec_ok)

lemma reach_no_panic: "client_reach ops pf c \<Longrightarrow> fst (client_exec ops pf op c) \<notin> {Inl Panicked, Inl Blocked}"
  using exec_ok [OF reach_ok, of pf c pf op] by (cases "client_exec ops pf op c") simp

end

end
