(* ===== verification/Client_Runs.thy ===== *)
theory Client_Runs
  imports Client "HOL-Library.Sublist"
begin

text \<open>
  Runs of the client of \<open>src/client.rs\<close>: sequences of calls on one client over any transport that meets
  the contract, with what comes out and the phase after each. The theory proves the order of the
  connection phases, that shots come out once, and the bounds every reachable client keeps.
\<close>

subsection \<open>Runs\<close>

fun client_run ::
  "'t transport_ops \<Rightarrow> platform \<Rightarrow> 't client_op list \<Rightarrow> 't client \<Rightarrow>
   ('t client_op \<times> (failure + event option) \<times> 't client) list" where
  "client_run tp pf [] c = []"
| "client_run tp pf (op # ops) c =
     (let (r, c') = client_exec tp pf op c in (op, r, c') # client_run tp pf ops c')"

text \<open>The phases after each operation, the clock readings of the polls, and the shots that came out with
  the clock reading they came out at.\<close>

definition run_phases :: "('t client_op \<times> (failure + event option) \<times> 't client) list \<Rightarrow> phase list" where
  "run_phases run = map (\<lambda>(op, r, c). phase c) run"

fun poll_clocks :: "'t client_op list \<Rightarrow> nat list" where
  "poll_clocks [] = []"
| "poll_clocks (Poll now # ops) = now # poll_clocks ops"
| "poll_clocks (_ # ops) = poll_clocks ops"

fun run_shots :: "('t client_op \<times> (failure + event option) \<times> 't client) list \<Rightarrow> (nat \<times> u32) list" where
  "run_shots [] = []"
| "run_shots ((Poll now, Inr (Some (Shot s)), c) # run) = (now, shot_id s) # run_shots run"
| "run_shots (_ # run) = run_shots run"

lemma run_shots_Cons:
  "run_shots ((op, r, c) # run) =
     (case (op, r) of (Poll now, Inr (Some (Shot s))) \<Rightarrow> (now, shot_id s) # run_shots run | _ \<Rightarrow> run_shots run)"
  by (auto split: client_op.splits sum.splits option.splits event.splits)

subsection \<open>Progress\<close>

text \<open>The phases in the order the documentation of \<open>poll\<close> gives.\<close>

fun phase_rank :: "phase \<Rightarrow> nat" where
  "phase_rank Registering = 0"
| "phase_rank WaitDeviceInfo = 1"
| "phase_rank WaitCapabilities = 2"
| "phase_rank WaitCapabilitiesAck = 3"
| "phase_rank Subscribing = 4"
| "phase_rank WakingUp = 5"
| "phase_rank Active = 6"

lemma phase_rank_inject: "phase_rank p = phase_rank q \<Longrightarrow> p = q"
  by (cases p; cases q) simp_all

instantiation phase :: linorder
begin

definition less_eq_phase :: "phase \<Rightarrow> phase \<Rightarrow> bool" where
  "less_eq_phase p q \<longleftrightarrow> phase_rank p \<le> phase_rank q"

definition less_phase :: "phase \<Rightarrow> phase \<Rightarrow> bool" where
  "less_phase p q \<longleftrightarrow> phase_rank p < phase_rank q"

instance
  by standard (auto simp: less_eq_phase_def less_phase_def dest: phase_rank_inject)

end

text \<open>A step goes forward, unless the device sends its information or its capabilities again.\<close>

lemma phase_step_forward: "phase_step p q \<Longrightarrow> q \<notin> {WaitCapabilities, WaitCapabilitiesAck} \<Longrightarrow> p < q"
  by (cases rule: phase_step.cases) (auto simp: less_phase_def)

subsection \<open>The order of the phases\<close>

definition handshake_order :: "phase list" where
  "handshake_order = [WaitCapabilitiesAck, Subscribing, WakingUp, Active]"

text \<open>How much of the handshake lies behind a client in a phase.\<close>

fun phase_history :: "phase \<Rightarrow> phase list" where
  "phase_history WaitCapabilitiesAck = take 1 handshake_order"
| "phase_history Subscribing = take 2 handshake_order"
| "phase_history WakingUp = take 3 handshake_order"
| "phase_history Active = handshake_order"
| "phase_history _ = []"

lemma phase_history_step:
  assumes "subseq (phase_history p) trace" "q = p \<or> phase_step p q \<or> q = Registering"
  shows "subseq (phase_history q) (trace @ [q])"
proof -
  have snoc: "subseq xs trace \<Longrightarrow> subseq (xs @ [q]) (trace @ [q])" for xs
    by (intro list_emb_append_mono) simp_all
  have keep: "subseq xs trace \<Longrightarrow> subseq xs (trace @ [q])" for xs
    by (rule subseq_order.trans [OF _ prefix_imp_subseq [OF prefixI [OF refl]]])
  from assms(2) consider "q = p" | "phase_step p q" | "q = Registering" by blast
  then show ?thesis
  proof cases
    case 2
    then show ?thesis
      using assms(1) snoc [of "[]"] snoc [of "phase_history p"]
      by (cases rule: phase_step.cases) (auto simp: handshake_order_def)
  qed (use assms(1) keep in auto)
qed

context transport_contract
begin

lemma exec_phase:
  assumes "client_exec ops pf op c = (r, c')"
  shows "phase c' = phase c \<or> phase_step (phase c) (phase c') \<or> phase c' = Registering"
proof (cases op)
  case Start
  then show ?thesis
    using assms by (cases rule: start_ends [of c]) auto
next
  case (Poll now)
  then show ?thesis
    using assms poll_effect_holds [of now c pf] by (auto simp: poll_effect_def)
next
  case (SendEnvironment config)
  then show ?thesis
    using assms by (cases rule: send_request_ends [of "build_environment_request pf config" c])
      (auto simp: send_environment_def)
qed (use assms in auto)

lemma exec_forward:
  assumes "client_exec ops pf op c = (r, c')" "phase c' < phase c"
  shows "phase c' \<in> {Registering, WaitCapabilities, WaitCapabilitiesAck}"
  using exec_phase [OF assms(1)]
proof (elim disjE)
  assume "phase_step (phase c) (phase c')"
  then show ?thesis
    using phase_step_forward [of "phase c" "phase c'"] assms(2) less_asym by blast
qed (use assms(2) in simp_all)

lemma run_phase_history:
  "subseq (phase_history (phase c)) trace \<Longrightarrow> (op, r, c') \<in> set (client_run ops pf os c) \<Longrightarrow>
   subseq (phase_history (phase c')) (trace @ run_phases (client_run ops pf os c))"
proof (induction os arbitrary: c trace)
  case (Cons o' os)
  obtain r1 c1 where ex: "client_exec ops pf o' c = (r1, c1)" by fastforce
  have hist: "subseq (phase_history (phase c1)) (trace @ [phase c1])"
    using phase_history_step [OF Cons.prems(1)] exec_phase [OF ex] by blast
  have run: "client_run ops pf (o' # os) c = (o', r1, c1) # client_run ops pf os c1" by (simp add: ex)
  then consider "(op, r, c') = (o', r1, c1)" | "(op, r, c') \<in> set (client_run ops pf os c1)"
    using Cons.prems(2) by auto
  then show ?case
  proof cases
    case 1
    then show ?thesis
      using hist subseq_order.trans [OF hist prefix_imp_subseq [OF prefixI [OF refl]]] run
      by (auto simp: run_phases_def)
  next
    case 2
    then show ?thesis
      using Cons.IH [OF hist] run by (simp add: run_phases_def)
  qed
qed simp

end

subsection \<open>Each shot once\<close>

text \<open>Two shots apart enough: another id, or a minute later.\<close>

definition apart :: "nat \<times> u32 \<Rightarrow> nat \<times> u32 \<Rightarrow> bool" where
  "apart a b \<longleftrightarrow> (if snd a = snd b then SHOT_DEDUP_WINDOW_SECS \<le> secs_since (fst b) (fst a) else True)"

text \<open>The shots \<open>h\<close> that came out up to time \<open>now\<close> are apart, and the recent ones are remembered.\<close>

definition remembers :: "(nat \<times> u32) list \<Rightarrow> nat \<Rightarrow> 't client \<Rightarrow> bool" where
  "remembers h now c \<longleftrightarrow>
     sorted_wrt apart h \<and>
     (\<forall>(t, i) \<in> set h. secs_since now t < SHOT_DEDUP_WINDOW_SECS \<longrightarrow> (i, t) \<in> set (recent_shots c))"

lemma secs_since_mono: "now \<le> now' \<Longrightarrow> secs_since now t \<le> secs_since now' t"
  by (simp add: secs_since_def div_le_mono diff_le_mono)

lemma remembers_later:
  "remembers h now c \<Longrightarrow> now \<le> now' \<Longrightarrow> recent_shots c' = recent_shots c \<Longrightarrow> remembers h now' c'"
  unfolding remembers_def using secs_since_mono [of now now'] by (fastforce intro: order.strict_trans1)

lemma handle_shot_keeps:
  "(i, t) \<in> set (recent_shots c) \<Longrightarrow> secs_since now t < SHOT_DEDUP_WINDOW_SECS \<Longrightarrow>
   (i, t) \<in> set (recent_shots (snd (handle_shot now s c)))"
  by (auto simp: handle_shot_def Let_def)

lemma handle_shot_fresh:
  "fst (handle_shot now s c) = Some (Shot s') \<Longrightarrow>
   s' = s \<and> (shot_id s, now) \<in> set (recent_shots (snd (handle_shot now s c))) \<and>
   (\<forall>t. (shot_id s, t) \<in> set (recent_shots c) \<longrightarrow> SHOT_DEDUP_WINDOW_SECS \<le> secs_since now t)"
  by (fastforce simp: handle_shot_def Let_def list_ex_iff not_less split: if_splits)

lemma poll_remembers:
  assumes eff: "poll_effect now' c (r, c')" and rem: "remembers h now c" and le: "now \<le> now'"
    and pend: "pending_event c \<in> {None, Some Ready}"
  shows "remembers (h @ run_shots [(Poll now', r, c')]) now' c'"
proof -
  have later: "remembers h now' c" by (rule remembers_later [OF rem le refl])
  show ?thesis
  proof (cases "\<exists>s. r = Inr (Some (Shot s))")
    case False
    then have none: "run_shots [(Poll now', r, c')] = []"
      by (auto simp: run_shots_Cons split: sum.splits option.splits event.splits)
    consider "recent_shots c' = recent_shots c" | s where "recent_shots c' = recent_shots (snd (handle_shot now' s c))"
      using eff by (auto simp: poll_effect_def)
    then show ?thesis
      using later by cases (auto simp: none remembers_def handle_shot_keeps)
  next
    case True
    then obtain s where r: "r = Inr (Some (Shot s))" by blast
    then have rec: "recent_shots c' = recent_shots (snd (handle_shot now' s c))"
        and out: "fst (handle_shot now' s c) = Some (Shot s)"
      using eff pend by (auto simp: poll_effect_def)
    have shots: "run_shots [(Poll now', r, c')] = [(now', shot_id s)]" by (simp add: r)
    have "apart x (now', shot_id s)" if x: "x \<in> set h" for x
    proof -
      have "secs_since now' (fst x) < SHOT_DEDUP_WINDOW_SECS \<Longrightarrow> (snd x, fst x) \<in> set (recent_shots c)"
        using x later by (cases x) (auto simp: remembers_def)
      then show ?thesis
        using handle_shot_fresh [OF out] by (fastforce simp: apart_def not_less [symmetric])
    qed
    then show ?thesis
      using later handle_shot_fresh [OF out] unfolding shots
      by (auto simp: remembers_def sorted_wrt_append rec handle_shot_keeps)
  qed
qed

context transport_contract
begin

lemma run_remembers:
  "client_ok c \<Longrightarrow> remembers h now c \<Longrightarrow> sorted (now # poll_clocks os) \<Longrightarrow>
   sorted_wrt apart (h @ run_shots (client_run ops pf os c))"
proof (induction os arbitrary: c h now)
  case Nil
  then show ?case by (simp add: remembers_def)
next
  case (Cons o' os)
  obtain r c1 where ex: "client_exec ops pf o' c = (r, c1)" by fastforce
  have ok: "client_ok c1" using exec_ok [OF Cons.prems(1) ex] by simp
  have run: "client_run ops pf (o' # os) c = (o', r, c1) # client_run ops pf os c1" by (simp add: ex)
  show ?case
  proof (cases "\<exists>n. o' = Poll n")
    case True
    then obtain n where n: "o' = Poll n" by blast
    have "poll_effect n c (r, c1)" using ex n poll_effect_holds [of n c pf] by simp
    then have "remembers (h @ run_shots [(Poll n, r, c1)]) n c1"
      using Cons.prems n by (intro poll_remembers) (auto simp: client_ok_def)
    then have "sorted_wrt apart ((h @ run_shots [(Poll n, r, c1)]) @ run_shots (client_run ops pf os c1))"
      using Cons.prems(3) n by (intro Cons.IH [OF ok]) auto
    then show ?thesis
      unfolding run by (simp add: n run_shots_Cons split: sum.splits option.splits event.splits)
  next
    case False
    have "recent_shots c1 = recent_shots c"
    proof (cases o')
      case Start
      then show ?thesis using ex by (cases rule: start_ends [of c]) auto
    next
      case (SendEnvironment config)
      then show ?thesis
        using ex by (cases rule: send_request_ends [of "build_environment_request pf config" c])
          (auto simp: send_environment_def)
    qed (use ex False in auto)
    then have "remembers h now c1" by (rule remembers_later [OF Cons.prems(2) order_refl])
    moreover have "poll_clocks (o' # os) = poll_clocks os" using False by (cases o') auto
    ultimately have "sorted_wrt apart (h @ run_shots (client_run ops pf os c1))"
      using Cons.IH [OF ok] Cons.prems(3) by simp
    then show ?thesis
      unfolding run using False by (cases o') (simp_all add: run_shots_Cons)
  qed
qed

end

subsection \<open>Properties\<close>

text \<open>C11: over any transport that meets the contract, from any reachable client no call panics or blocks, and every
  reachable client keeps its bounds: at most 64 KB buffered, chunks of at most 20 bytes, a 512-byte
  read buffer, each remembered shot once, and nothing queued but one \<open>Ready\<close>.\<close>

theorem client_bounds_and_no_panic:
  assumes "transport_contract tp" and "client_reach tp pf c"
  shows "fst (client_exec tp pf op c) \<noteq> Inl Panicked \<and> fst (client_exec tp pf op c) \<noteq> Inl Blocked \<and>
    length (buf (stream_buf c)) \<le> 65536 \<and> mtu c \<le> 20 \<and> length (read_buf c) = 512 \<and>
    distinct (map fst (recent_shots c)) \<and> pending_event c \<in> {None, Some Ready}"
  using transport_contract.reach_no_panic [OF assms] transport_contract.reach_ok [OF assms]
  by (simp add: client_ok_def STREAM_BUFFER_MAX_def)

theorem client_bounds_and_no_panic_witness:
  "\<forall>pf. fst (client_exec mock_ops pf (Poll 0) (client_new mock_new 23)) \<noteq> Inl Panicked"
  using client_bounds_and_no_panic [OF mock.transport_contract_axioms client_reach.new] by blast

text \<open>C5: the device is active only after the whole handshake: whatever the transport delivers and in
  whatever order, a run that reaches \<open>Active\<close> went through the exchange of capabilities, the
  subscription and the wake request, in this order.\<close>

theorem active_only_after_handshake:
  assumes "transport_contract tp"
    and "(op, r, c) \<in> set (client_run tp pf ops (client_new t m))" and "phase c = Active"
  shows "subseq [WaitCapabilitiesAck, Subscribing, WakingUp, Active]
           (run_phases (client_run tp pf ops (client_new t m)))"
  using transport_contract.run_phase_history [OF assms(1) _ assms(2), of "[]"] assms(3)
  by (simp add: client_new_def handshake_order_def)

text \<open>C6: each shot comes out once: over any run whose clock does not go back, two shot events with the
  same id are at least 60 seconds apart, however often the device repeats the shot.\<close>

theorem shots_come_out_once:
  assumes "transport_contract tp" and "sorted (poll_clocks ops)"
  shows "sorted_wrt (\<lambda>(t, i) (t', i'). if i = i' then 60 \<le> (t' - t) div 1000000000 else True)
           (run_shots (client_run tp pf ops (client_new t0 m)))"
proof -
  have "remembers [] 0 (client_new t0 m)" by (simp add: remembers_def)
  then have "sorted_wrt apart ([] @ run_shots (client_run tp pf ops (client_new t0 m)))"
    using assms(2) by (intro transport_contract.run_remembers [OF assms(1) client_new_ok]) auto
  moreover have "apart = (\<lambda>(t, i) (t', i'). if i = i' then 60 \<le> (t' - t) div 1000000000 else True)"
    by (auto simp: fun_eq_iff apart_def secs_since_def SHOT_DEDUP_WINDOW_SECS_def)
  ultimately show ?thesis by (simp only: append_Nil)
qed

end
