(* ===== verification/Client_Session.thy ===== *)
theory Client_Session
  imports Client_Runs
begin

text \<open>
  The client of \<open>src/client.rs\<close> against the mock transport of its tests: what exactly it writes, which
  messages it acknowledges, and a whole session with a device that answers in order, from registration
  to the first \<open>Ready\<close>.
\<close>

subsection \<open>On the mock transport\<close>

definition frame_chunks :: "'t client \<Rightarrow> bytes \<Rightarrow> bytes list" where
  "frame_chunks c f = chunk_with_handle (wrap_cobs f) (handle c) (mtu c)"

text \<open>The client after it has written some chunks.\<close>

definition logged :: "bytes list \<Rightarrow> mock_transport client \<Rightarrow> mock_transport client" where
  "logged cs c = c\<lparr>transport := (transport c)\<lparr>mock_tx := mock_tx (transport c) @ cs\<rparr>\<rparr>"

lemma logged_fields [client_simps, simp]:
  "mtu (logged cs c) = mtu c" "handle (logged cs c) = handle c" "phase (logged cs c) = phase c"
  "stream_buf (logged cs c) = stream_buf c" "req_id_counter (logged cs c) = req_id_counter c"
  "recent_shots (logged cs c) = recent_shots c" "last_state (logged cs c) = last_state c"
  "read_buf (logged cs c) = read_buf c" "pending_event (logged cs c) = pending_event c"
  "mock_tx (transport (logged cs c)) = mock_tx (transport c) @ cs"
  "mock_rx (transport (logged cs c)) = mock_rx (transport c)"
  by (simp_all add: logged_def)

lemma mock_write_chunks [client_simps]: "write_chunks mock_ops cs c = (Inr (), logged cs c)"
  by (induction cs arbitrary: c) (simp_all add: logged_def)

lemma mock_send_frame [client_simps]: "send_frame mock_ops f c = (Inr (), logged (frame_chunks c f) c)"
  by (simp add: send_frame_def mock_write_chunks frame_chunks_def)

lemma mock_send_ack [client_simps]:
  "send_ack mock_ops t st p c = (Inr (), logged (frame_chunks c (build_ack t st p)) c)"
  by (simp add: send_ack_def mock_send_frame)

lemma frame_chunks_cong: "handle c = handle d \<Longrightarrow> mtu c = mtu d \<Longrightarrow> frame_chunks c f = frame_chunks d f"
  by (simp add: frame_chunks_def)

lemma mock_send_request [client_simps]:
  "send_request mock_ops pb c =
     (Inr (), logged (frame_chunks c (build_protobuf_request (req_id_counter c) pb))
                (c\<lparr>req_id_counter := req_id_counter c + 1\<rparr>))"
  by (simp add: send_request_def next_req_id_def mock_send_frame frame_chunks_def)

text \<open>When handling an event sends a wake request.\<close>

definition wakes :: "envelope_event \<Rightarrow> 't client \<Rightarrow> bool" where
  "wakes ev c \<longleftrightarrow>
     (case ev of SubscribeResult _ \<Rightarrow> phase c = Subscribing
      | StateChange st \<Rightarrow> st = Standby \<and> phase c = Active \<and> last_state c \<noteq> Some Standby
      | _ \<Rightarrow> False)"

lemma mock_handle_event:
  "\<exists>r c'. handle_envelope_event mock_ops pf now ev c = (Inr r, c') \<and> handle c' = handle c \<and> mtu c' = mtu c \<and>
     mock_tx (transport c') = mock_tx (transport c) @
       (if wakes ev c then frame_chunks c (build_protobuf_request (req_id_counter c) (build_wakeup_request pf)) else [])"
proof (cases ev)
  case (SubscribeResult success)
  then show ?thesis
    by (simp add: handle_envelope_event_def request_defs mock_send_request wakes_def frame_chunks_def)
next
  case (StateChange st)
  then show ?thesis
    by (auto simp: handle_envelope_event_def handle_state_change_def Let_def request_defs mock_send_request wakes_def
        frame_chunks_def)
next
  case (ShotEvent s)
  then show ?thesis
    by (auto simp: handle_envelope_event_def handle_shot_def Let_def wakes_def)
qed (simp_all add: handle_envelope_event_def wakes_def Let_def)

lemma dispatch_protobuf:
  "msg_type f \<in> {MSG_PROTOBUF_REQUEST, MSG_PROTOBUF_RESPONSE} \<Longrightarrow>
   dispatch_frame tp pf now f c =
     and_then (handle_protobuf tp pf now (payload f) c)
       (\<lambda>ev c. and_then (send_ack tp (msg_type f) 0 [] c) (\<lambda>_ c. (Inr ev, c)))"
  by (auto simp: dispatch_frame_def msg_defs)

lemma mock_protobuf_acknowledged:
  assumes "msg_type f \<in> {MSG_PROTOBUF_REQUEST, MSG_PROTOBUF_RESPONSE}"
  shows "case parse_frag_header (payload f) of
           Inl e \<Rightarrow> dispatch_frame mock_ops pf now f c = (Inl (Err e), c)
         | Inr (h, pb) \<Rightarrow>
             (case decode_envelope pf pb of
                Inl e \<Rightarrow> dispatch_frame mock_ops pf now f c = (Inl (Err (Protobuf e)), c)
              | Inr ev \<Rightarrow>
                  (\<exists>r c'. dispatch_frame mock_ops pf now f c = (Inr r, c') \<and>
                     mock_tx (transport c') = mock_tx (transport c) @
                       (if wakes ev c
                        then frame_chunks c (build_protobuf_request (req_id_counter c) (build_wakeup_request pf))
                        else []) @
                       frame_chunks c (build_ack (msg_type f) 0 [])))"
proof (cases "parse_frag_header (payload f)")
  case (Inl e)
  then show ?thesis by (simp add: dispatch_protobuf [OF assms] handle_protobuf_def)
next
  case (Inr x)
  obtain h pb where x: "x = (h, pb)" by fastforce
  show ?thesis
  proof (cases "decode_envelope pf pb")
    case (Inl e)
    then show ?thesis using Inr x by (simp add: dispatch_protobuf [OF assms] handle_protobuf_def)
  next
    case (Inr ev)
    obtain r c' where ev: "handle_envelope_event mock_ops pf now ev c = (Inr r, c')"
      "handle c' = handle c" "mtu c' = mtu c"
      "mock_tx (transport c') = mock_tx (transport c) @
       (if wakes ev c then frame_chunks c (build_protobuf_request (req_id_counter c) (build_wakeup_request pf)) else [])"
      using mock_handle_event [of pf now ev c] by blast
    then show ?thesis
      using Inr x \<open>parse_frag_header (payload f) = Inr x\<close> frame_chunks_cong [OF ev(2,3)]
      by (simp add: dispatch_protobuf [OF assms] handle_protobuf_def mock_send_ack)
  qed
qed

subsection \<open>A shot whose acknowledgment cannot be sent\<close>

lemma shot_dispatch:
  assumes "msg_type f \<in> {MSG_PROTOBUF_REQUEST, MSG_PROTOBUF_RESPONSE}"
    "parse_frag_header (payload f) = Inr (h, pb)" "decode_envelope pf pb = Inr (ShotEvent s)"
  shows "dispatch_frame tp pf now f c =
    (let (ev, c) = handle_shot now s c in and_then (send_ack tp (msg_type f) 0 [] c) (\<lambda>_ c. (Inr ev, c)))"
  by (simp add: dispatch_protobuf [OF assms(1)] handle_protobuf_def assms(2,3) handle_envelope_event_def split_beta)

lemma handle_shot_again:
  assumes "(shot_id s, now) \<in> set (recent_shots c) \<or> fst (handle_shot now s d) \<noteq> None \<and>
      recent_shots c = recent_shots (snd (handle_shot now s d))"
    "secs_since now' now < SHOT_DEDUP_WINDOW_SECS"
  shows "fst (handle_shot now' s c) = None"
proof -
  have "(shot_id s, now) \<in> set (recent_shots c)"
    using assms(1) by (auto simp: handle_shot_def Let_def split: if_splits)
  then show ?thesis
    using assms(2) by (auto simp: handle_shot_def Let_def list_ex_iff split: if_splits)
qed

lemma lost_shot:
  assumes f: "msg_type f \<in> {MSG_PROTOBUF_REQUEST, MSG_PROTOBUF_RESPONSE}"
    "parse_frag_header (payload f) = Inr (h, pb)" "decode_envelope pf pb = Inr (ShotEvent s)"
    and fresh: "\<forall>(i, t) \<in> set (recent_shots c). i \<noteq> shot_id s"
    and fail: "dispatch_frame tp pf now f c = (Inl e, c1)"
    and within: "secs_since now' now < SHOT_DEDUP_WINDOW_SECS"
  shows "fst (dispatch_frame tp' pf now' f (c1\<lparr>transport := t\<rparr>)) \<noteq> Inr (Some ev)"
proof -
  obtain ev1 d where d: "handle_shot now s c = (ev1, d)" by fastforce
  have ev1: "ev1 \<noteq> None"
    using d fresh by (auto simp: handle_shot_def Let_def list_ex_iff split: if_splits)
  have "recent_shots c1 = recent_shots d"
    using fail d by (cases rule: send_frame_cases [of tp "build_ack (msg_type f) 0 []" d])
      (auto simp: shot_dispatch [OF f] send_ack_def)
  then have "fst (handle_shot now' s (c1\<lparr>transport := t\<rparr>)) = None"
    using ev1 d within by (intro handle_shot_again [where now = now and d = c]) simp_all
  then obtain d' where "handle_shot now' s (c1\<lparr>transport := t\<rparr>) = (None, d')"
    by (metis prod.collapse)
  then show ?thesis
    by (cases rule: send_frame_cases [of tp' "build_ack (msg_type f) 0 []" d'])
       (simp_all add: shot_dispatch [OF f] send_ack_def)
qed


subsection \<open>Receiving a frame\<close>

lemma cobs_encode_length: "length xs \<le> 254 \<Longrightarrow> length (cobs_encode xs) \<le> 256"
proof -
  assume len: "length xs \<le> 254"
  then have "length xs div 254 \<le> 1" by (cases "length xs = 254") simp_all
  then show ?thesis
    using enc_blocks_overhead [of xs] len by (simp add: cobs_encode_blocks)
qed

lemma next_frame_wrapped:
  assumes "buf sb = wrap_cobs (build_frame mt p)"
  shows "next_frame sb = (Some (parse_cobs_frame (cobs_encode (build_frame mt p))), \<lparr>buf = []\<rparr>)"
proof -
  have "buf sb = [] @ 0 # cobs_encode (build_frame mt p) @ 0 # []" using assms by (simp add: wrap_cobs_def)
  from next_frame_two [OF _ cobs_encode_no_zero this] show ?thesis by simp
qed

text \<open>A frame as the device sends it in one notification.\<close>

definition notification_of :: "u8 \<Rightarrow> u16 \<times> bytes \<Rightarrow> bytes" where
  "notification_of h m = (case m of (mt, p) \<Rightarrow> h # wrap_cobs (build_frame mt p))"

definition sendable :: "u16 \<times> bytes \<Rightarrow> bool" where
  "sendable m = (case m of (mt, p) \<Rightarrow> mt < 0x8000 \<and> length p \<le> 248 \<and> last (build_frame mt p) \<noteq> 0)"

text \<open>A client between two frames of a session: nothing queued or buffered, the handle assigned, and what
  the device will send.\<close>

definition between :: "u8 \<Rightarrow> phase \<Rightarrow> bytes list \<Rightarrow> mock_transport client \<Rightarrow> bool" where
  "between h ph rx c \<longleftrightarrow>
     pending_event c = None \<and> handle c = h \<and> phase c = ph \<and> buf (stream_buf c) = [] \<and>
     length (read_buf c) = 512 \<and> mock_rx (transport c) = rx"

lemma poll_receives_frame:
  assumes btw: "between h ph (notification_of h (mt, p) # rx) c" and ph: "ph \<noteq> Registering"
    and ok: "sendable (mt, p)"
  obtains c' where "client_poll mock_ops pf now c = dispatch_frame mock_ops pf now \<lparr>msg_type = mt, txn_id = None, payload = p\<rparr> c'"
    "between h ph rx c'" "last_state c' = last_state c" "recent_shots c' = recent_shots c"
proof -
  let ?w = "wrap_cobs (build_frame mt p)"
  have small: "length (cobs_encode (build_frame mt p)) \<le> 256"
    using ok by (intro cobs_encode_length) (simp add: sendable_def)
  then have w: "length ?w \<le> 258" by (simp add: wrap_cobs_def)
  obtain n b where copy: "copy_into (h # ?w) (read_buf c) = (n, b)" by fastforce
  have chunk: "take n b = h # ?w"
    using copy_into_read [OF copy] btw w by (simp add: between_def)
  have len: "length b = 512" "n \<le> length b"
    using copy_into_bounds [OF copy] btw by (simp_all add: between_def)
  have n: "n \<noteq> 0" using chunk by (cases n) auto
  have fits: "stream_extend ?w (stream_buf c) = (Inr (), \<lparr>buf = ?w\<rparr>)"
    using stream_fits [of "stream_buf c" ?w] btw w by (simp add: between_def STREAM_BUFFER_MAX_def)
  have parsed: "parse_cobs_frame (cobs_encode (build_frame mt p)) = Inr \<lparr>msg_type = mt, txn_id = None, payload = p\<rparr>"
    using host_link [of mt p] ok less_8000_bit [of mt] by (simp add: sendable_def crc_zeros_def cut_result_def)
  let ?c = "c\<lparr>transport := (transport c)\<lparr>mock_rx := rx\<rparr>, read_buf := b, stream_buf := \<lparr>buf = []\<rparr>\<rparr>"
  have "client_poll mock_ops pf now c = dispatch_frame mock_ops pf now \<lparr>msg_type = mt, txn_id = None, payload = p\<rparr> ?c"
    using btw ph copy chunk len n fits
    by (simp add: client_poll_def between_def mock_ops_def notification_of_def process_frame_def
        next_frame_wrapped parsed)
  moreover have "between h ph rx ?c" using btw len by (simp add: between_def)
  ultimately show thesis using that [of ?c] by simp
qed

lemma poll_registers:
  assumes btw: "between h0 Registering (reg # rx) c"
    and reg: "parse_register_response reg = Some (Success, h, fl)" "length reg \<le> 512"
  obtains c' where "client_poll mock_ops pf now c = (Inr (Some (Registered h)), c')"
    "between h WaitDeviceInfo rx c'" "last_state c' = last_state c" "recent_shots c' = recent_shots c"
proof -
  obtain n b where copy: "copy_into reg (read_buf c) = (n, b)" by fastforce
  have chunk: "take n b = reg"
    using copy_into_read [OF copy] btw reg(2) by (simp add: between_def)
  have "reg \<noteq> []" using reg(1) by (auto simp: parse_register_response_def)
  then have n: "n \<noteq> 0" using chunk by (cases n) auto
  have len: "length b = 512" "n \<le> length b"
    using copy_into_bounds [OF copy] btw by (simp_all add: between_def)
  let ?c = "c\<lparr>transport := (transport c)\<lparr>mock_rx := rx\<rparr>, read_buf := b, handle := h, phase := WaitDeviceInfo\<rparr>"
  have "client_poll mock_ops pf now c = (Inr (Some (Registered h)), ?c)"
    using btw copy chunk n len reg(1)
    by (simp add: client_poll_def between_def mock_ops_def handle_register_response_def)
  moreover have "between h WaitDeviceInfo rx ?c" using btw len by (simp add: between_def)
  ultimately show thesis using that [of ?c] by simp
qed

subsection \<open>Receiving each message of a session\<close>

lemma between_logged [client_simps, simp]: "between h ph rx (logged cs c) = between h ph rx c"
  by (simp add: between_def)

lemma between_phase: "between h ph rx c \<Longrightarrow> between h ph' rx (c\<lparr>phase := ph'\<rparr>)"
  by (simp add: between_def)

lemma dispatch_device_info:
  assumes "between h ph rx c" "12 \<le> length p"
  shows "\<exists>c'. dispatch_frame mock_ops pf now \<lparr>msg_type = MSG_DEVICE_INFO, txn_id = t, payload = p\<rparr> c = (Inr None, c') \<and>
           between h WaitCapabilities rx c' \<and> last_state c' = last_state c"
proof -
  obtain d where d: "parse_device_info p = Inr d"
    using assms(2) by (auto simp: parse_device_info_def split_beta)
  show ?thesis
    using assms(1) d between_phase
    by (simp add: dispatch_frame_def handle_device_info_def mock_send_frame)
qed

lemma dispatch_configuration:
  assumes "between h ph rx c"
  shows "\<exists>c'. dispatch_frame mock_ops pf now \<lparr>msg_type = MSG_CONFIGURATION, txn_id = t, payload = p\<rparr> c = (Inr None, c') \<and>
           between h WaitCapabilitiesAck rx c' \<and> last_state c' = last_state c"
  using assms between_phase
  by (simp add: dispatch_frame_def msg_defs handle_configuration_def mock_send_frame mock_send_ack)

lemma dispatch_configuration_ack:
  assumes "between h WaitCapabilitiesAck rx c"
  shows "\<exists>c'. dispatch_frame mock_ops pf now
             \<lparr>msg_type = MSG_ACK, txn_id = t, payload = le16 MSG_CONFIGURATION @ 0 # p\<rparr> c = (Inr (Some HandshakeComplete), c') \<and>
           between h Subscribing rx c' \<and> last_state c' = last_state c"
proof -
  have "of_le16 ((le16 MSG_CONFIGURATION @ 0 # p) ! 0) ((le16 MSG_CONFIGURATION @ 0 # p) ! 1) = MSG_CONFIGURATION"
    by (simp add: le16_def of_le16_ucast)
  moreover have "(le16 MSG_CONFIGURATION @ 0 # p) ! 2 = 0" by (simp add: le16_def)
  moreover have "between h Subscribing rx (c\<lparr>phase := Subscribing, req_id_counter := i\<rparr>)" for i
    using assms by (simp add: between_def)
  ultimately show ?thesis
    using assms
    by (simp add: dispatch_frame_def msg_defs handle_ack_def send_subscribe_def mock_send_request between_def)
qed

lemma dispatch_response:
  assumes "parse_frag_header p = Inr (hdr, pb)" "decode_envelope pf pb = Inr ev"
    "handle_envelope_event mock_ops pf now ev c = (Inr r, c')" "mt \<in> {MSG_PROTOBUF_REQUEST, MSG_PROTOBUF_RESPONSE}"
  shows "dispatch_frame mock_ops pf now \<lparr>msg_type = mt, txn_id = t, payload = p\<rparr> c =
    (Inr r, logged (frame_chunks c' (build_ack mt 0 [])) c')"
  using assms(1-3) dispatch_protobuf [of "\<lparr>msg_type = mt, txn_id = t, payload = p\<rparr>" mock_ops pf now c] assms(4)
  by (simp add: handle_protobuf_def mock_send_ack)

lemma event_subscribed:
  assumes "between h Subscribing rx c" "last_state c = ls"
  shows "\<exists>c'. handle_envelope_event mock_ops pf now (SubscribeResult ok) c = (Inr (Some (Subscribed ok)), c') \<and>
           between h WakingUp rx c' \<and> last_state c' = ls"
  using assms
  by (simp add: handle_envelope_event_def send_wakeup_def mock_send_request) (simp add: between_def)

lemma event_woken:
  assumes "between h WakingUp rx c" "last_state c = ls"
  shows "\<exists>c'. handle_envelope_event mock_ops pf now (WakeResult 0) c = (Inr (Some (Woken 0)), c') \<and>
           between h Active rx c' \<and> last_state c' = ls"
  using assms by (simp add: handle_envelope_event_def between_def)

lemma event_waiting:
  assumes "ls = None" "between h ph rx c" "last_state c = ls"
  shows "\<exists>c'. handle_envelope_event mock_ops pf now (StateChange Waiting) c = (Inr (Some Ready), c') \<and>
           between h ph rx c' \<and> last_state c' = Some Waiting"
  using assms by (simp add: handle_envelope_event_def handle_state_change_def between_def)

lemma event_shot:
  assumes "between h ph rx c"
  shows "\<exists>c'. handle_envelope_event mock_ops pf now (ShotEvent s) c = (Inr (fst (handle_shot now s c)), c') \<and>
           between h ph rx c' \<and> recent_shots c' = recent_shots (snd (handle_shot now s c))"
  using assms
  by (cases "handle_shot now s c") (auto simp: handle_envelope_event_def between_def handle_shot_def Let_def split: if_splits)

subsection \<open>A whole session\<close>

lemma client_run_step:
  "client_exec tp pf op c = (r, c') \<Longrightarrow> client_run tp pf (op # os) c = (op, r, c') # client_run tp pf os c'"
  by simp

lemma start_mock:
  "client_exec mock_ops pf Start (client_new \<lparr>mock_rx = rx, mock_tx = [], mock_reg_tx = []\<rparr> m) = (r, c) \<Longrightarrow>
   r = Inr None \<and> between 0 Registering rx c \<and> last_state c = None \<and> recent_shots c = []"
  by (auto simp: client_start_def mock_ops_def client_new_def between_def stream_new_def)

lemma poll_dispatches:
  assumes "between h ph (notification_of h (mt, p) # rx) c" "ph \<noteq> Registering" "sendable (mt, p)"
    and "\<And>c'. between h ph rx c' \<Longrightarrow> last_state c' = last_state c \<Longrightarrow> recent_shots c' = recent_shots c \<Longrightarrow>
      \<exists>d. dispatch_frame mock_ops pf now \<lparr>msg_type = mt, txn_id = None, payload = p\<rparr> c' = (r, d) \<and> Q d"
  shows "\<exists>d. client_exec mock_ops pf (Poll now) c = (r, d) \<and> Q d"
proof -
  obtain c1 where "client_poll mock_ops pf now c = dispatch_frame mock_ops pf now \<lparr>msg_type = mt, txn_id = None, payload = p\<rparr> c1"
    "between h ph rx c1" "last_state c1 = last_state c" "recent_shots c1 = recent_shots c"
    using poll_receives_frame [OF assms(1-3)] by metis
  then show ?thesis using assms(4) [of c1] by auto
qed

lemma response_dispatch:
  assumes "parse_frag_header p = Inr (hdr, pb)" "decode_envelope pf pb = Inr ev"
    "mt \<in> {MSG_PROTOBUF_REQUEST, MSG_PROTOBUF_RESPONSE}"
    "\<exists>d. handle_envelope_event mock_ops pf now ev c = (Inr r, d) \<and> between h ph' rx d \<and> Q d"
    "\<And>cs d. Q (logged cs d) = Q d"
  shows "\<exists>d. dispatch_frame mock_ops pf now \<lparr>msg_type = mt, txn_id = t, payload = p\<rparr> c = (Inr r, d) \<and>
    between h ph' rx d \<and> Q d"
  using assms(4) dispatch_response [OF assms(1,2) _ assms(3), of now c r _ t] assms(5) by auto

lemma poll_device_info:
  assumes "between h ph (notification_of h (MSG_DEVICE_INFO, p) # rx) c" "ph \<noteq> Registering"
    "sendable (MSG_DEVICE_INFO, p)" "12 \<le> length p"
  shows "\<exists>d. client_exec mock_ops pf (Poll now) c = (Inr None, d) \<and>
    between h WaitCapabilities rx d \<and> last_state d = last_state c"
  by (rule poll_dispatches [OF assms(1-3)]) (use dispatch_device_info [OF _ assms(4)] in metis)

lemma poll_configuration:
  assumes "between h ph (notification_of h (MSG_CONFIGURATION, p) # rx) c" "ph \<noteq> Registering"
    "sendable (MSG_CONFIGURATION, p)"
  shows "\<exists>d. client_exec mock_ops pf (Poll now) c = (Inr None, d) \<and>
    between h WaitCapabilitiesAck rx d \<and> last_state d = last_state c"
  by (rule poll_dispatches [OF assms(1-3)]) (use dispatch_configuration in metis)

lemma poll_configuration_ack:
  assumes "between h WaitCapabilitiesAck (notification_of h (MSG_ACK, le16 MSG_CONFIGURATION @ 0 # p) # rx) c"
    "sendable (MSG_ACK, le16 MSG_CONFIGURATION @ 0 # p)"
  shows "\<exists>d. client_exec mock_ops pf (Poll now) c = (Inr (Some HandshakeComplete), d) \<and>
    between h Subscribing rx d \<and> last_state d = last_state c"
  by (rule poll_dispatches [OF assms(1) _ assms(2)]) (simp, use dispatch_configuration_ack in metis)

lemma poll_protobuf:
  assumes "between h ph (notification_of h (mt, p) # rx) c" "ph \<noteq> Registering"
    "sendable (mt, p)" "parse_frag_header p = Inr (hdr, pb)" "decode_envelope pf pb = Inr ev"
    "mt \<in> {MSG_PROTOBUF_REQUEST, MSG_PROTOBUF_RESPONSE}"
    and ev: "\<And>c'. between h ph rx c' \<Longrightarrow> last_state c' = last_state c \<Longrightarrow> recent_shots c' = recent_shots c \<Longrightarrow>
      \<exists>d. handle_envelope_event mock_ops pf now ev c' = (Inr r, d) \<and> between h ph' rx d \<and> Q d"
    and Q: "\<And>cs d. Q (logged cs d) = Q d"
  shows "\<exists>d. client_exec mock_ops pf (Poll now) c = (Inr r, d) \<and> between h ph' rx d \<and> Q d"
  by (rule poll_dispatches [OF assms(1-3)]) (rule response_dispatch [OF assms(4-6) ev Q])

lemma poll_response:
  assumes "between h ph (notification_of h (mt, p) # rx) c" "ph \<noteq> Registering"
    "sendable (mt, p)" "parse_frag_header p = Inr (hdr, pb)" "decode_envelope pf pb = Inr ev"
    "mt \<in> {MSG_PROTOBUF_REQUEST, MSG_PROTOBUF_RESPONSE}"
    and ev: "\<And>c'. between h ph rx c' \<Longrightarrow> last_state c' = last_state c \<Longrightarrow>
      \<exists>d. handle_envelope_event mock_ops pf now ev c' = (Inr r, d) \<and> between h ph' rx d \<and> last_state d = ls"
  shows "\<exists>d. client_exec mock_ops pf (Poll now) c = (Inr r, d) \<and> between h ph' rx d \<and> last_state d = ls"
  by (rule poll_protobuf [OF assms(1-6) ev]) simp_all

lemma session_run:
  assumes reg: "parse_register_response reg = Some (Success, h, fl)" "length reg \<le> 512"
    and send: "list_all sendable [(MSG_DEVICE_INFO, p1), (MSG_CONFIGURATION, p2), (MSG_ACK, p3),
       (MSG_PROTOBUF_RESPONSE, p4), (MSG_PROTOBUF_RESPONSE, p5), (MSG_PROTOBUF_REQUEST, p6)]"
    and p1: "12 \<le> length p1" and p3: "p3 = le16 MSG_CONFIGURATION @ 0 # rest"
    and p4: "parse_frag_header p4 = Inr (h4, pb4)" "decode_envelope pf pb4 = Inr (SubscribeResult ok)"
    and p5: "parse_frag_header p5 = Inr (h5, pb5)" "decode_envelope pf pb5 = Inr (WakeResult 0)"
    and p6: "parse_frag_header p6 = Inr (h6, pb6)" "decode_envelope pf pb6 = Inr (StateChange Waiting)"
  shows "map (\<lambda>(op, r, c). (r, phase c))
      (client_run mock_ops pf (Start # map Poll [t0, t1, t2, t3, t4, t5, t6])
        (client_new \<lparr>mock_rx = reg # map (notification_of h) [(MSG_DEVICE_INFO, p1), (MSG_CONFIGURATION, p2),
            (MSG_ACK, p3), (MSG_PROTOBUF_RESPONSE, p4), (MSG_PROTOBUF_RESPONSE, p5), (MSG_PROTOBUF_REQUEST, p6)],
           mock_tx = [], mock_reg_tx = []\<rparr> m)) =
    [(Inr None, Registering), (Inr (Some (Registered h)), WaitDeviceInfo), (Inr None, WaitCapabilities),
     (Inr None, WaitCapabilitiesAck), (Inr (Some HandshakeComplete), Subscribing),
     (Inr (Some (Subscribed ok)), WakingUp), (Inr (Some (Woken 0)), Active), (Inr (Some Ready), Active)]"
proof -
  let ?n = "notification_of h"
  let ?m1 = "?n (MSG_DEVICE_INFO, p1)" and ?m2 = "?n (MSG_CONFIGURATION, p2)" and ?m3 = "?n (MSG_ACK, p3)"
    and ?m4 = "?n (MSG_PROTOBUF_RESPONSE, p4)" and ?m5 = "?n (MSG_PROTOBUF_RESPONSE, p5)"
    and ?m6 = "?n (MSG_PROTOBUF_REQUEST, p6)"
  let ?c = "client_new \<lparr>mock_rx = [reg, ?m1, ?m2, ?m3, ?m4, ?m5, ?m6], mock_tx = [], mock_reg_tx = []\<rparr> m"
  have s: "sendable (MSG_DEVICE_INFO, p1)" "sendable (MSG_CONFIGURATION, p2)" "sendable (MSG_ACK, p3)"
    "sendable (MSG_PROTOBUF_RESPONSE, p4)" "sendable (MSG_PROTOBUF_RESPONSE, p5)" "sendable (MSG_PROTOBUF_REQUEST, p6)"
    using send by simp_all
  obtain r0 c0 where e0: "client_exec mock_ops pf Start ?c = (r0, c0)" by fastforce
  note c0 = start_mock [OF e0]
  obtain c1 where e1: "client_exec mock_ops pf (Poll t0) c0 = (Inr (Some (Registered h)), c1)"
      and b1: "between h WaitDeviceInfo [?m1, ?m2, ?m3, ?m4, ?m5, ?m6] c1" "last_state c1 = None"
    using poll_registers [OF c0 [THEN conjunct2, THEN conjunct1] reg, of pf t0] c0 by auto
  obtain c2 where e2: "client_exec mock_ops pf (Poll t1) c1 = (Inr None, c2)"
      and b2: "between h WaitCapabilities [?m2, ?m3, ?m4, ?m5, ?m6] c2" "last_state c2 = None"
    using poll_device_info [OF b1(1) _ s(1) p1, of pf t1] b1(2) by auto
  obtain c3 where e3: "client_exec mock_ops pf (Poll t2) c2 = (Inr None, c3)"
      and b3: "between h WaitCapabilitiesAck [?m3, ?m4, ?m5, ?m6] c3" "last_state c3 = None"
    using poll_configuration [OF b2(1) _ s(2), of pf t2] b2(2) by auto
  obtain c4 where e4: "client_exec mock_ops pf (Poll t3) c3 = (Inr (Some HandshakeComplete), c4)"
      and b4: "between h Subscribing [?m4, ?m5, ?m6] c4" "last_state c4 = None"
    using poll_configuration_ack [of h rest "[?m4, ?m5, ?m6]" c3 pf t3] b3 s(3) p3 by auto
  obtain c5 where e5: "client_exec mock_ops pf (Poll t4) c4 = (Inr (Some (Subscribed ok)), c5)"
      and b5: "between h WakingUp [?m5, ?m6] c5" "last_state c5 = None"
    using poll_response [OF b4(1) _ s(4) p4 _ event_subscribed, where now = t4] b4(2) by auto
  obtain c6 where e6: "client_exec mock_ops pf (Poll t5) c5 = (Inr (Some (Woken 0)), c6)"
      and b6: "between h Active [?m6] c6" "last_state c6 = None"
    using poll_response [OF b5(1) _ s(5) p5 _ event_woken, where now = t5] b5(2) by auto
  have "\<exists>d. client_exec mock_ops pf (Poll t6) c6 = (Inr (Some Ready), d) \<and>
      between h Active [] d \<and> last_state d = Some Waiting"
    by (rule poll_response [OF b6(1) _ s(6) p6]) (simp, simp, rule event_waiting [OF b6(2)])
  then obtain c7 where e7: "client_exec mock_ops pf (Poll t6) c6 = (Inr (Some Ready), c7)"
      and b7: "between h Active [] c7"
    by blast
  have ph: "phase c0 = Registering" "phase c1 = WaitDeviceInfo" "phase c2 = WaitCapabilities"
    "phase c3 = WaitCapabilitiesAck" "phase c4 = Subscribing" "phase c5 = WakingUp" "phase c6 = Active"
    "phase c7 = Active"
    using c0 b1(1) b2(1) b3(1) b4(1) b5(1) b6(1) b7 by (simp_all add: between_def)
  note steps = client_run_step [OF e0] client_run_step [OF e1] client_run_step [OF e2] client_run_step [OF e3]
    client_run_step [OF e4] client_run_step [OF e5] client_run_step [OF e6] client_run_step [OF e7]
  show ?thesis
    by (simp only: list.map steps client_run.simps(1) split_conv ph c0 [THEN conjunct1])
qed

subsection \<open>Repeated shots\<close>

lemma handle_shot_cong:
  assumes "recent_shots c = recent_shots d"
  shows "fst (handle_shot now s c) = fst (handle_shot now s d)"
    and "recent_shots (snd (handle_shot now s c)) = recent_shots (snd (handle_shot now s d))"
  using assms by (simp_all add: handle_shot_def Let_def)

lemma poll_shot:
  assumes "between h ph (notification_of h (mt, p) # rx) c" "ph \<noteq> Registering"
    "sendable (mt, p)" "parse_frag_header p = Inr (hdr, pb)" "decode_envelope pf pb = Inr (ShotEvent s)"
    "mt \<in> {MSG_PROTOBUF_REQUEST, MSG_PROTOBUF_RESPONSE}"
  shows "\<exists>d. client_exec mock_ops pf (Poll now) c = (Inr (fst (handle_shot now s c)), d) \<and> between h ph rx d \<and>
    recent_shots d = recent_shots (snd (handle_shot now s c))"
proof (rule poll_protobuf [OF assms])
  fix c' :: "mock_transport client"
  assume "between h ph rx c'" "recent_shots c' = recent_shots c"
  then show "\<exists>d. handle_envelope_event mock_ops pf now (ShotEvent s) c' = (Inr (fst (handle_shot now s c)), d) \<and>
    between h ph rx d \<and> recent_shots d = recent_shots (snd (handle_shot now s c))"
    using event_shot [of h ph rx c' pf now s] handle_shot_cong [of c' c] by simp
qed simp_all

lemma shot_run:
  assumes reg: "parse_register_response reg = Some (Success, h, fl)" "length reg \<le> 512"
    and mt: "mt \<in> {MSG_PROTOBUF_REQUEST, MSG_PROTOBUF_RESPONSE}"
    and p: "sendable (mt, p)" "parse_frag_header p = Inr (hdr, pb)" "decode_envelope pf pb = Inr (ShotEvent s)"
    and rx: "rx = [reg, notification_of h (mt, p), notification_of h (mt, p)]"
  shows "map (\<lambda>(op, r, c). r)
      (client_run mock_ops pf [Start, Poll t0, Poll t1, Poll t2]
        (client_new \<lparr>mock_rx = rx, mock_tx = [], mock_reg_tx = []\<rparr> m)) =
    [Inr None, Inr (Some (Registered h)), Inr (Some (Shot s)),
     Inr (if secs_since t2 t1 < SHOT_DEDUP_WINDOW_SECS then None else Some (Shot s))]"
proof -
  let ?c = "client_new \<lparr>mock_rx = rx, mock_tx = [], mock_reg_tx = []\<rparr> m"
  obtain r0 c0 where e0: "client_exec mock_ops pf Start ?c = (r0, c0)" by fastforce
  note c0 = start_mock [OF e0]
  obtain c1 where e1: "client_exec mock_ops pf (Poll t0) c0 = (Inr (Some (Registered h)), c1)"
      and b1: "between h WaitDeviceInfo (tl rx) c1" "recent_shots c1 = []"
    using poll_registers [OF c0 [THEN conjunct2, THEN conjunct1, unfolded rx] reg, of pf t0] c0 rx by auto
  have s1: "handle_shot t1 s c1 = (Some (Shot s), c1\<lparr>recent_shots := [(shot_id s, t1)]\<rparr>)"
    using b1(2) by (simp add: handle_shot_def)
  obtain c2 where e2: "client_exec mock_ops pf (Poll t1) c1 = (Inr (Some (Shot s)), c2)"
      and b2: "between h WaitDeviceInfo (tl (tl rx)) c2" "recent_shots c2 = [(shot_id s, t1)]"
    using poll_shot [of h WaitDeviceInfo mt p "tl (tl rx)" c1 hdr pb pf s t1] b1(1) mt p rx s1 by auto
  have s2: "fst (handle_shot t2 s c2) = (if secs_since t2 t1 < SHOT_DEDUP_WINDOW_SECS then None else Some (Shot s))"
    using b2(2) by (simp add: handle_shot_def)
  obtain c3 where e3: "client_exec mock_ops pf (Poll t2) c2 = (Inr (fst (handle_shot t2 s c2)), c3)"
    using poll_shot [of h WaitDeviceInfo mt p "[]" c2 hdr pb pf s t2] b2(1) mt p rx by auto
  show ?thesis
    by (simp only: list.map client_run_step [OF e0] client_run_step [OF e1] client_run_step [OF e2]
        client_run_step [OF e3] client_run.simps(1) split_conv c0 [THEN conjunct1] s2)
qed

subsection \<open>What a sent frame is on the wire\<close>

lemma frame_on_wire:
  assumes "2 \<le> mtu c"
  shows "concat (map tl (frame_chunks c f)) = wrap_cobs f"
  using assms by (simp add: frame_chunks_def chunk_with_handle_concat)

lemma map_tl_strip: "list_all (\<lambda>x. hd x = h \<and> 2 \<le> length x) cs \<Longrightarrow> map (\<lambda>x. the (strip_handle x h)) cs = map tl cs"
  by (induction cs) (auto simp: strip_handle_def split: list.splits)

lemma frame_chunks_shape:
  "list_all (\<lambda>x. hd x = handle c \<and> 2 \<le> length x \<and> length x \<le> mtu c) (frame_chunks c f)"
  using chunk_with_handle_lengths by (fastforce simp: frame_chunks_def list_all_iff)

lemma frame_on_wire_strip:
  assumes "2 \<le> mtu c"
  shows "concat (map (\<lambda>x. the (strip_handle x (handle c))) (frame_chunks c f)) = wrap_cobs f"
proof -
  have "list_all (\<lambda>x. hd x = handle c \<and> 2 \<le> length x) (frame_chunks c f)"
    using frame_chunks_shape [of c f] by (auto simp: list_all_iff)
  then show ?thesis using frame_on_wire [OF assms] by (simp add: map_tl_strip)
qed

lemma frame_chunks_small: "mtu c \<le> 1 \<Longrightarrow> frame_chunks c f = []"
  by (simp add: frame_chunks_def chunk_with_handle_small_mtu)

lemma sent_frame_received:
  assumes "sendable (mt, p)"
  shows "next_frame \<lparr>buf = wrap_cobs (build_frame mt p)\<rparr> =
    (Some (Inr \<lparr>msg_type = mt, txn_id = None, payload = p\<rparr>), \<lparr>buf = []\<rparr>)"
  using host_link [of mt p] assms less_8000_bit [of mt]
  by (subst next_frame_wrapped) (simp_all add: sendable_def crc_zeros_def cut_result_def)

end
