(* ===== verification/Session_Properties.thy ===== *)
theory Session_Properties
  imports Client_Session
begin

text \<open>
  The properties of the client of \<open>src/client.rs\<close> that need a partner: a whole session with a device that
  answers in order, repeated and lost shots, what is acknowledged, and what a request looks like on the
  wire. The witnesses run the client on the mock transport with a small concrete platform.
\<close>

subsection \<open>A device to talk to in the witnesses\<close>

text \<open>A platform whose messages are one byte, and the messages of a device: its information, its
  capabilities, the acknowledgment of the host's, three replies and a shot.\<close>

definition demo_platform :: platform where
  "demo_platform =
     \<lparr>pb_encode = (\<lambda>_. [0x2A]),
      pb_decode = (\<lambda>p.
        if p = [1] then Inr \<lparr>env_alerts = Some (alert_channel_default
             \<lparr>channel_result := Some \<lparr>outcomes = [\<lparr>outcome_code = 0, outcome_topic = None\<rparr>]\<rparr>\<rparr>), env_monitor = None\<rparr>
        else if p = [2] then Inr \<lparr>env_alerts = None, env_monitor = Some (monitor_channel_default
             \<lparr>wake_result := Some (Some 0)\<rparr>)\<rparr>
        else if p = [3] then Inr \<lparr>env_alerts = Some (alert_channel_default
             \<lparr>channel_notification := Some \<lparr>notification_topics = [8], notification_monitor = Some
               \<lparr>report_status = Some \<lparr>status_phase = Some 2\<rparr>, report_shot = None, report_fault = None, report_level = None\<rparr>\<rparr>\<rparr>),
               env_monitor = None\<rparr>
        else if p = [4] then Inr \<lparr>env_alerts = Some (alert_channel_default
             \<lparr>channel_notification := Some \<lparr>notification_topics = [8], notification_monitor = Some
               \<lparr>report_status = None, report_shot = Some \<lparr>shot_number = Some 7, shot_kind_code = Some 1, readout_ball = None,
                  readout_club = None, readout_timing = None\<rparr>, report_fault = None, report_level = None\<rparr>\<rparr>\<rparr>),
               env_monitor = None\<rparr>
        else Inl (PbError ''invalid tag'')),
      outcome_get = (\<lambda>o'. if outcome_code o' = 0 then OutcomeAccepted else OutcomeRejected),
      cosf = (\<lambda>x. x), sinf = (\<lambda>x. x)\<rparr>"

definition demo_shot :: shot_data where
  "demo_shot = \<lparr>shot_id = 7, kind = Regular, ball = None, club = None, swing = None\<rparr>"

definition demo_register :: bytes where
  "demo_register = [0, 1, 1, 0, 0, 0, 0, 0, 0, 0, 1, 0, 0, 6, 0]"

definition demo_message :: "nat \<Rightarrow> u16 \<times> bytes" where
  "demo_message i =
     [(MSG_DEVICE_INFO, replicate 12 0), (MSG_CONFIGURATION, [4, 0, 0, 0, 64]), (MSG_ACK, le16 MSG_CONFIGURATION @ [0]),
      (MSG_PROTOBUF_RESPONSE, protobuf_payload 1 [1]), (MSG_PROTOBUF_RESPONSE, protobuf_payload 2 [2]),
      (MSG_PROTOBUF_REQUEST, protobuf_payload 3 [3]), (MSG_PROTOBUF_REQUEST, protobuf_payload 4 [4])] ! i"

lemma demo_decodes:
  "decode_envelope demo_platform [1] = Inr (SubscribeResult True)"
  "decode_envelope demo_platform [2] = Inr (WakeResult 0)"
  "decode_envelope demo_platform [3] = Inr (StateChange Waiting)"
  "decode_envelope demo_platform [4] = Inr (ShotEvent demo_shot)"
  "decode_envelope demo_platform [5] = Inl (PbError ''invalid tag'')"
  by (simp_all add: demo_platform_def decode_envelope_def envelope_to_event_def decode_notification_def
      alert_channel_default_def monitor_channel_default_def device_state_from_proto_def decode_metrics_def
      demo_shot_def unwrap_or_def)

lemma demo_payload:
  "parse_frag_header (protobuf_payload i [b]) = Inr (\<lparr>req_id = i, offset = 0, total_len = 1, chunk_size = 1\<rparr>, [b])"
  using parse_protobuf_payload [of "[b]" i] by simp

lemma demo_sendable:
  "sendable (demo_message 0)" "sendable (demo_message 1)" "sendable (demo_message 2)" "sendable (demo_message 3)"
  "sendable (demo_message 4)" "sendable (demo_message 5)" "sendable (demo_message 6)"
  by code_simp+

lemma demo_registered: "parse_register_response demo_register = Some (Success, 6, 0)" "length demo_register \<le> 512"
  by code_simp+

definition demo_session :: "mock_transport client" where
  "demo_session = client_new
     \<lparr>mock_rx = demo_register # map (notification_of 6)
        [(MSG_DEVICE_INFO, replicate 12 0), (MSG_CONFIGURATION, [4, 0, 0, 0, 64]), (MSG_ACK, le16 MSG_CONFIGURATION @ 0 # []),
         (MSG_PROTOBUF_RESPONSE, protobuf_payload 1 [1]), (MSG_PROTOBUF_RESPONSE, protobuf_payload 2 [2]),
         (MSG_PROTOBUF_REQUEST, protobuf_payload 3 [3])],
      mock_tx = [], mock_reg_tx = []\<rparr> 20"

lemmas demo_facts = demo_registered demo_payload demo_decodes demo_sendable [unfolded demo_message_def, simplified]

subsection \<open>Properties\<close>

text \<open>C8: the client becomes ready: on the mock transport and with a device that answers in order, each message in one
  frame that arrives whole (\<open>sendable\<close>), whatever its messages hold beyond what each must say, eight calls take a new client from registration to \<open>Ready\<close>, with these results
  and these phase names after each call.\<close>

theorem session_reaches_ready:
  assumes "parse_register_response reg = Some (Success, h, fl)" "length reg \<le> 512"
    and "list_all sendable [(MSG_DEVICE_INFO, p1), (MSG_CONFIGURATION, p2), (MSG_ACK, le16 MSG_CONFIGURATION @ 0 # rest),
       (MSG_PROTOBUF_RESPONSE, p4), (MSG_PROTOBUF_RESPONSE, p5), (MSG_PROTOBUF_REQUEST, p6)]"
    and "12 \<le> length p1"
    and "parse_frag_header p4 = Inr (h4, pb4)" "decode_envelope pf pb4 = Inr (SubscribeResult ok)"
    and "parse_frag_header p5 = Inr (h5, pb5)" "decode_envelope pf pb5 = Inr (WakeResult 0)"
    and "parse_frag_header p6 = Inr (h6, pb6)" "decode_envelope pf pb6 = Inr (StateChange Waiting)"
  shows "map (\<lambda>(op, r, c). (r, phase_name (phase c)))
      (client_run mock_ops pf (Start # map Poll [t0, t1, t2, t3, t4, t5, t6])
        (client_new \<lparr>mock_rx = reg # map (notification_of h) [(MSG_DEVICE_INFO, p1), (MSG_CONFIGURATION, p2),
            (MSG_ACK, le16 MSG_CONFIGURATION @ 0 # rest), (MSG_PROTOBUF_RESPONSE, p4), (MSG_PROTOBUF_RESPONSE, p5),
            (MSG_PROTOBUF_REQUEST, p6)],
           mock_tx = [], mock_reg_tx = []\<rparr> m)) =
    [(Inr None, ''registering''), (Inr (Some (Registered h)), ''wait_device_info''), (Inr None, ''wait_capabilities''),
     (Inr None, ''wait_capabilities_ack''), (Inr (Some HandshakeComplete), ''subscribing''),
     (Inr (Some (Subscribed ok)), ''waking_up''), (Inr (Some (Woken 0)), ''active''), (Inr (Some Ready), ''active'')]"
  (is "map ?f ?run = _")
proof -
  have "map ?f ?run = map (\<lambda>(r, p). (r, phase_name p)) (map (\<lambda>(op, r, c). (r, phase c)) ?run)"
    by (simp add: comp_def split_beta del: client_run.simps list.map(2))
  then show ?thesis
    by (simp only: session_run [OF assms(1-4) refl assms(5-)]) simp
qed

theorem session_reaches_ready_witness:
  "map (\<lambda>(op, r, c). (r, phase_name (phase c)))
     (client_run mock_ops demo_platform (Start # map Poll [0, 1, 2, 3, 4, 5, 6]) demo_session) =
   [(Inr None, ''registering''), (Inr (Some (Registered 6)), ''wait_device_info''), (Inr None, ''wait_capabilities''),
    (Inr None, ''wait_capabilities_ack''), (Inr (Some HandshakeComplete), ''subscribing''),
    (Inr (Some (Subscribed True)), ''waking_up''), (Inr (Some (Woken 0)), ''active''), (Inr (Some Ready), ''active'')]"
  unfolding demo_session_def
  by (rule session_reaches_ready [OF demo_registered]) (simp_all add: demo_facts, simp_all add: demo_facts)

lemma demo_run:
  "map (\<lambda>(op, r, c). (r, phase c))
     (client_run mock_ops demo_platform (Start # map Poll [0, 1, 2, 3, 4, 5, 6]) demo_session) =
   [(Inr None, Registering), (Inr (Some (Registered 6)), WaitDeviceInfo), (Inr None, WaitCapabilities),
    (Inr None, WaitCapabilitiesAck), (Inr (Some HandshakeComplete), Subscribing),
    (Inr (Some (Subscribed True)), WakingUp), (Inr (Some (Woken 0)), Active), (Inr (Some Ready), Active)]"
  unfolding demo_session_def
  by (rule session_run [OF demo_registered]) (simp_all add: demo_facts, simp_all add: demo_facts)

theorem active_only_after_handshake_witness:
  "subseq [WaitCapabilitiesAck, Subscribing, WakingUp, Active]
     (run_phases (client_run mock_ops demo_platform (Start # map Poll [0, 1, 2, 3, 4, 5, 6]) demo_session))"
proof -
  let ?run = "client_run mock_ops demo_platform (Start # map Poll [0, 1, 2, 3, 4, 5, 6]) demo_session"
  have "(Inr (Some Ready), Active) \<in> set (map (\<lambda>(op, r, c). (r, phase c)) ?run)"
    by (simp only: demo_run) simp
  then obtain op r c where "(op, r, c) \<in> set ?run" "phase c = Active"
    by (auto simp only: set_map image_iff split_beta prod.sel)
  then show ?thesis
    unfolding demo_session_def
    by (rule active_only_after_handshake [OF mock.transport_contract_axioms])
qed

text \<open>C35: a repeated shot: when the device of a new client on the mock transport sends the same shot twice, each time in
  one frame that arrives whole (\<open>sendable\<close>), the first comes out as an event, and
  the second is swallowed exactly when less than 60 whole seconds have passed.\<close>

theorem repeated_shot_swallowed_for_a_minute:
  assumes "parse_register_response reg = Some (Success, h, fl)" "length reg \<le> 512"
    and "mt \<in> {MSG_PROTOBUF_REQUEST, MSG_PROTOBUF_RESPONSE}" "sendable (mt, p)"
    and "parse_frag_header p = Inr (hdr, pb)" "decode_envelope pf pb = Inr (ShotEvent s)"
  shows "map (\<lambda>(op, r, c). r)
      (client_run mock_ops pf [Start, Poll t0, Poll t1, Poll t2]
        (client_new \<lparr>mock_rx = [reg, notification_of h (mt, p), notification_of h (mt, p)],
           mock_tx = [], mock_reg_tx = []\<rparr> m)) =
    [Inr None, Inr (Some (Registered h)), Inr (Some (Shot s)),
     Inr (if (t2 - t1) div 1000000000 < 60 then None else Some (Shot s))]"
  using shot_run [OF assms refl] unfolding secs_since_def SHOT_DEDUP_WINDOW_SECS_def .

definition demo_shots :: "mock_transport client" where
  "demo_shots = client_new
     \<lparr>mock_rx = [demo_register, notification_of 6 (MSG_PROTOBUF_REQUEST, protobuf_payload 4 [4]),
        notification_of 6 (MSG_PROTOBUF_REQUEST, protobuf_payload 4 [4])], mock_tx = [], mock_reg_tx = []\<rparr> 20"

theorem repeated_shot_swallowed_for_a_minute_witness:
  "map (\<lambda>(op, r, c). r) (client_run mock_ops demo_platform [Start, Poll 0, Poll 1, Poll 60000000000] demo_shots) =
    [Inr None, Inr (Some (Registered 6)), Inr (Some (Shot demo_shot)), Inr None]"
  unfolding demo_shots_def
  by (subst repeated_shot_swallowed_for_a_minute [OF demo_registered, where pb = "[4]"]) (simp_all add: demo_facts)

theorem shots_come_out_once_witness:
  "run_shots (client_run mock_ops demo_platform [Start, Poll 0, Poll 1, Poll 60000000001] demo_shots) =
     [(1, 7), (60000000001, 7)] \<and>
   sorted_wrt (\<lambda>(t, i) (t', i'). if i = i' then 60 \<le> (t' - t) div 1000000000 else True)
     (run_shots (client_run mock_ops demo_platform [Start, Poll 0, Poll 1, Poll 60000000001] demo_shots))"
proof
  let ?ops = "[Start, Poll 0, Poll 1, Poll 60000000001]"
  have "map (\<lambda>(op, r, c). r) (client_run mock_ops demo_platform ?ops demo_shots) =
    [Inr None, Inr (Some (Registered 6)), Inr (Some (Shot demo_shot)), Inr (Some (Shot demo_shot))]"
    unfolding demo_shots_def
    by (subst shot_run [OF demo_registered, where s = demo_shot and pb = "[4]"])
       (simp_all add: demo_facts secs_since_def SHOT_DEDUP_WINDOW_SECS_def)
  then show "run_shots (client_run mock_ops demo_platform ?ops demo_shots) = [(1, 7), (60000000001, 7)]"
    by (auto simp: run_shots_Cons Let_def demo_shot_def split: prod.splits simp del: client_exec.simps)
  show "sorted_wrt (\<lambda>(t, i) (t', i'). if i = i' then 60 \<le> (t' - t) div 1000000000 else True)
     (run_shots (client_run mock_ops demo_platform ?ops demo_shots))"
    unfolding demo_shots_def by (rule shots_come_out_once [OF mock.transport_contract_axioms]) simp
qed



text \<open>C22: a shot whose acknowledgment cannot be written is lost: the poll that reads it returns the write
  error, and when the device repeats the shot within a minute, over whatever transport, no event comes out.\<close>

theorem shot_lost_when_ack_fails:
  assumes "msg_type f \<in> {MSG_PROTOBUF_REQUEST, MSG_PROTOBUF_RESPONSE}"
    and "parse_frag_header (payload f) = Inr (h, pb)" "decode_envelope pf pb = Inr (ShotEvent s)"
    and "list_all (\<lambda>(i, t). i \<noteq> shot_id s) (recent_shots c)"
    and "dispatch_frame tp pf now f c = (Inl e, c1)"
    and "(now' - now) div 1000000000 < 60"
  shows "fst (dispatch_frame tp' pf now' f (c1\<lparr>transport := t\<rparr>)) \<noteq> Inr (Some ev)"
  using assms(4,6)
  by (intro lost_shot [OF assms(1-3) _ assms(5)])
     (auto simp: list_all_iff secs_since_def SHOT_DEDUP_WINDOW_SECS_def)

definition deaf_ops :: "mock_transport transport_ops" where
  "deaf_ops = mock_ops\<lparr>t_write := \<lambda>data t. (Inl (WriteError (IoError BrokenPipe)), t)\<rparr>"

lemma first_chunk: "chunk_with_handle (wrap_cobs x) 0 20 =
    (0 # take 19 (wrap_cobs x)) # map ((#) 0) (chunks_of 19 (drop 19 (wrap_cobs x)))"
  by (simp add: chunk_with_handle_def wrap_cobs_def chunks_of.simps)

theorem shot_lost_when_ack_fails_witness:
  "\<exists>e c1. dispatch_frame deaf_ops demo_platform 0
       \<lparr>msg_type = MSG_PROTOBUF_REQUEST, txn_id = None, payload = protobuf_payload 4 [4]\<rparr> (client_new mock_new 20) =
       (Inl e, c1) \<and>
     fst (dispatch_frame mock_ops demo_platform 5000000000
       \<lparr>msg_type = MSG_PROTOBUF_REQUEST, txn_id = None, payload = protobuf_payload 4 [4]\<rparr> (c1\<lparr>transport := mock_new\<rparr>)) \<noteq>
       Inr (Some (Shot demo_shot))"
proof -
  let ?f = "\<lparr>msg_type = MSG_PROTOBUF_REQUEST, txn_id = None, payload = protobuf_payload 4 [4]\<rparr>"
  have first: "dispatch_frame deaf_ops demo_platform 0 ?f (client_new mock_new 20) =
    (let (ev, c) = handle_shot 0 demo_shot (client_new mock_new 20)
     in and_then (send_ack deaf_ops MSG_PROTOBUF_REQUEST 0 [] c) (\<lambda>_ c. (Inr ev, c)))"
    by (subst shot_dispatch [of _ _ "[4]"]) (simp_all add: demo_payload demo_decodes)
  obtain e c1 where e: "dispatch_frame deaf_ops demo_platform 0 ?f (client_new mock_new 20) = (Inl e, c1)"
    unfolding first by (simp add: handle_shot_def client_new_def send_ack_def send_frame_def first_chunk deaf_ops_def)
  then have "fst (dispatch_frame mock_ops demo_platform 5000000000 ?f (c1\<lparr>transport := mock_new\<rparr>)) \<noteq>
       Inr (Some (Shot demo_shot))"
    by (intro shot_lost_when_ack_fails [of ?f _ "[4]" demo_platform demo_shot])
       (simp_all add: demo_payload demo_decodes client_new_def)
  with e show ?thesis by blast
qed

lemma dispatch_ack:
  "dispatch_frame tp pf now \<lparr>msg_type = MSG_ACK, txn_id = t, payload = le16 m @ 0 # p\<rparr> c =
     (if m = MSG_CONFIGURATION \<and> phase c = WaitCapabilitiesAck
      then and_then (send_subscribe tp pf (c\<lparr>phase := Subscribing\<rparr>)) (\<lambda>_ c. (Inr (Some HandshakeComplete), c))
      else (Inr None, c))"
  by (simp add: dispatch_frame_def msg_defs handle_ack_def Let_def le16_def of_le16_ucast)

text \<open>C36: a failed subscription is not retried: when its write fails, the poll that read the handshake's
  acknowledgment returns the error with the client already in \<open>Subscribing\<close>, and from there every
  later acknowledgment of status 0, of whatever message, changes nothing and sends nothing.\<close>

theorem failed_subscribe_is_not_retried:
  assumes "phase c = WaitCapabilitiesAck"
    and "dispatch_frame tp pf now \<lparr>msg_type = MSG_ACK, txn_id = t, payload = le16 MSG_CONFIGURATION @ 0 # p\<rparr> c = (Inl e, c1)"
  shows "phase c1 = Subscribing \<and>
    dispatch_frame tp' pf now' \<lparr>msg_type = MSG_ACK, txn_id = t', payload = le16 mt @ 0 # p'\<rparr> (c1\<lparr>transport := tr\<rparr>) =
      (Inr None, c1\<lparr>transport := tr\<rparr>)"
proof -
  have phase: "phase c1 = Subscribing"
    using assms by (cases rule: send_request_cases [of tp "build_subscribe_request pf" "c\<lparr>phase := Subscribing\<rparr>"])
      (auto simp: dispatch_ack send_subscribe_def)
  then show ?thesis by (simp add: dispatch_ack)
qed

theorem failed_subscribe_is_not_retried_witness:
  "\<exists>e c1. dispatch_frame deaf_ops demo_platform 0
       \<lparr>msg_type = MSG_ACK, txn_id = None, payload = le16 MSG_CONFIGURATION @ 0 # []\<rparr>
       ((client_new mock_new 20)\<lparr>phase := WaitCapabilitiesAck\<rparr>) = (Inl e, c1) \<and>
     phase c1 = Subscribing \<and>
     dispatch_frame mock_ops demo_platform 1
       \<lparr>msg_type = MSG_ACK, txn_id = None, payload = le16 MSG_CONFIGURATION @ 0 # []\<rparr> (c1\<lparr>transport := mock_new\<rparr>) =
       (Inr None, c1\<lparr>transport := mock_new\<rparr>)"
proof -
  let ?f = "\<lparr>msg_type = MSG_ACK, txn_id = None, payload = le16 MSG_CONFIGURATION @ 0 # []\<rparr>"
  let ?c = "(client_new mock_new 20)\<lparr>phase := WaitCapabilitiesAck\<rparr>"
  obtain e c1 where e: "dispatch_frame deaf_ops demo_platform 0 ?f ?c = (Inl e, c1)"
    unfolding dispatch_ack
    by (simp add: client_new_def send_subscribe_def send_request_def next_req_id_def send_frame_def first_chunk deaf_ops_def)
  have "phase ?c = WaitCapabilitiesAck" by simp
  from failed_subscribe_is_not_retried [OF this e] e show ?thesis by blast
qed

text \<open>C23: a request on the wire: with an MTU of at least 2 and a request that arrives whole in one frame (\<open>sendable\<close>), sending
  an environment on the mock transport writes, in order and none longer than the MTU, chunks
  that start with the handle and that, stripped and joined, are one delimited frame a receiver reads
  back as a protobuf request with the next request id and the encoded message.\<close>

theorem environment_request_on_wire:
  assumes "2 \<le> mtu c"
    and "sendable (MSG_PROTOBUF_REQUEST, protobuf_payload (req_id_counter c) (build_environment_request pf cfg))"
  shows "\<exists>chunks. client_exec mock_ops pf (SendEnvironment cfg) c =
      (Inr None, c\<lparr>req_id_counter := req_id_counter c + 1,
         transport := (transport c)\<lparr>mock_tx := mock_tx (transport c) @ chunks\<rparr>\<rparr>) \<and>
    list_all (\<lambda>x. hd x = handle c \<and> 2 \<le> length x \<and> length x \<le> mtu c) chunks \<and>
    next_frame \<lparr>buf = concat (map (\<lambda>x. the (strip_handle x (handle c))) chunks)\<rparr> =
      (Some (Inr \<lparr>msg_type = MSG_PROTOBUF_REQUEST, txn_id = None,
         payload = protobuf_payload (req_id_counter c) (build_environment_request pf cfg)\<rparr>), \<lparr>buf = []\<rparr>)"
proof -
  let ?f = "build_protobuf_request (req_id_counter c) (build_environment_request pf cfg)"
  have "client_exec mock_ops pf (SendEnvironment cfg) c =
      (Inr None, c\<lparr>req_id_counter := req_id_counter c + 1,
         transport := (transport c)\<lparr>mock_tx := mock_tx (transport c) @ frame_chunks c ?f\<rparr>\<rparr>)"
    by (simp add: send_environment_def mock_send_request logged_def)
  moreover note frame_chunks_shape [of c ?f]
  moreover have "next_frame \<lparr>buf = concat (map (\<lambda>x. the (strip_handle x (handle c))) (frame_chunks c ?f))\<rparr> =
      (Some (Inr \<lparr>msg_type = MSG_PROTOBUF_REQUEST, txn_id = None,
         payload = protobuf_payload (req_id_counter c) (build_environment_request pf cfg)\<rparr>), \<lparr>buf = []\<rparr>)"
    unfolding frame_on_wire_strip [OF assms(1)] build_protobuf_request_def by (rule sent_frame_received [OF assms(2)])
  ultimately show ?thesis by blast
qed

definition no_environment :: environment_config where
  "no_environment = \<lparr>temperature = None, humidity = None, altitude = None, air_density = None, tee_distance_yd = None\<rparr>"

theorem environment_request_on_wire_witness:
  "\<exists>chunks. client_exec mock_ops demo_platform (SendEnvironment no_environment) (client_new mock_new 20) =
      (Inr None, (client_new mock_new 20)\<lparr>req_id_counter := 2, transport := mock_new\<lparr>mock_tx := chunks\<rparr>\<rparr>) \<and>
    next_frame \<lparr>buf = concat (map (\<lambda>x. the (strip_handle x 0)) chunks)\<rparr> =
      (Some (Inr \<lparr>msg_type = MSG_PROTOBUF_REQUEST, txn_id = None, payload = protobuf_payload 1 [0x2A]\<rparr>), \<lparr>buf = []\<rparr>)"
proof -
  have req: "build_environment_request demo_platform no_environment = [0x2A]"
    by (simp add: build_environment_request_def monitor_envelope_def demo_platform_def)
  have "sendable (MSG_PROTOBUF_REQUEST, protobuf_payload 1 [0x2A])" by code_simp
  then show ?thesis
    using environment_request_on_wire [of "client_new mock_new 20" demo_platform no_environment]
    by (auto simp: req client_new_def mock_new_def)
qed

text \<open>A client made with an MTU of 0 or 1 reports success and writes nothing: over any transport its requests
  return \<open>Ok\<close> with the transport untouched, and so does the acknowledgment of any message.\<close>

theorem tiny_mtu_drops_writes:
  assumes "m \<le> 1"
  shows "client_exec tp pf (SendEnvironment cfg) (client_new t m) = (Inr None, (client_new t m)\<lparr>req_id_counter := 2\<rparr>) \<and>
    send_ack tp mt st p (client_new t m) = (Inr (), client_new t m)"
  using assms
  by (simp add: send_environment_def send_request_def next_req_id_def send_ack_def send_frame_def client_new_def
      chunk_with_handle_small_mtu)

theorem tiny_mtu_drops_writes_witness:
  "client_exec deaf_ops demo_platform (SendEnvironment no_environment) (client_new mock_new 1) =
     (Inr None, (client_new mock_new 1)\<lparr>req_id_counter := 2\<rparr>)"
  by (rule tiny_mtu_drops_writes [THEN conjunct1]) simp

end
