(* ===== verification/Golden_Client.thy ===== *)
theory Golden_Client
  imports Wire_Golden Session_Properties
begin

text \<open>
  The tests of \<open>src/wire_golden.rs\<close> through the client: fixture frames behind GFDI, COBS and the handle byte, and
  the bytes a request leaves on the wire. The file's own mock transport is the one of \<open>Transport\<close> (it
  only does not keep what is written to the register characteristic, which no test reads). The shared
  queue into which a test pushes is the client's transport, and each poll has its clock.
\<close>

subsection \<open>Tests\<close>

definition response_chunk :: "bytes \<Rightarrow> bytes" where
  "response_chunk env =
     (let len = word_of_nat (length env) :: u32;
          p = le16 1 @ le32 0 @ le32 len @ le32 len @ env;
          frame = build_frame MSG_PROTOBUF_RESPONSE p
      in [1] @ [0] @ cobs_encode frame @ [0])"

definition push_back :: "bytes \<Rightarrow> mock_transport client \<Rightarrow> mock_transport client" where
  "push_back x c = c\<lparr>transport := (transport c)\<lparr>mock_rx := mock_rx (transport c) @ [x]\<rparr>\<rparr>"

definition registered_client :: "platform \<Rightarrow> nat \<Rightarrow> mock_transport client option" where
  "registered_client pf now =
     (case client_start mock_ops (client_new mock_new 20) of
        (Inl _, _) \<Rightarrow> None
      | (Inr _, c) \<Rightarrow>
          (case client_poll mock_ops pf now (push_back [0, 1, 1, 0, 0, 0, 0, 0, 0, 0, 1, 0, 0, 1, 0, 0] c) of
             (Inr (Some (Registered h)), c) \<Rightarrow> if h = 1 then Some c else None
           | _ \<Rightarrow> None))"

definition feed ::
  "platform \<Rightarrow> nat \<Rightarrow> bytes \<Rightarrow> mock_transport client \<Rightarrow> (failure + event option) \<times> mock_transport client" where
  "feed pf now env c = client_poll mock_ops pf now (push_back (response_chunk env) c)"

definition client_decodes_fixture_frames :: "platform \<Rightarrow> nat \<Rightarrow> nat \<Rightarrow> nat \<Rightarrow> nat \<Rightarrow> nat \<Rightarrow> bool" where
  "client_decodes_fixture_frames pf t0 t1 t2 t3 t4 \<longleftrightarrow>
     expect (registered_client pf t0) (\<lambda>c.
       let (r1, c) = feed pf t1 SHOT_FULL c;
           (r2, c) = feed pf t2 ENVIRONMENT_REJECTED c;
           (r3, c) = feed pf t3 (state_frame 2) c;
           (r4, c) = feed pf t4 ERROR_NOT_LEVEL c
       in (case r1 of Inr (Some (Shot s)) \<Rightarrow>
             shot_id s = 42 \<and> expect (ball s) (\<lambda>b. close (ball_speed b) 0x42860000) \<and>
             expect (club s) (\<lambda>b. close (club_head_speed b) 0x42300000) | _ \<Rightarrow> False) \<and>
          r2 = Inr (Some (EnvironmentReply False)) \<and> r3 = Inr (Some Ready) \<and>
          (case r4 of Inr (Some (DeviceError e)) \<Rightarrow> code e = NotLevel | _ \<Rightarrow> False))"

definition client_sends_builder_bytes :: "platform \<Rightarrow> nat \<Rightarrow> bool" where
  "client_sends_builder_bytes pf t0 \<longleftrightarrow>
     expect (registered_client pf t0) (\<lambda>c.
       case send_environment mock_ops pf (environment_default\<lparr>tee_distance_yd := Some 0x40133333\<rparr>) c of
         (Inl _, _) \<Rightarrow> False
       | (Inr _, c) \<Rightarrow>
           (let chunks = mock_tx (transport c); wire = concat (map tl chunks)
            in list_all (\<lambda>x. x \<noteq> [] \<and> hd x = 1) chunks \<and> 2 \<le> length wire \<and>
               (case cobs_decode (subrange wire 1 (length wire - 1)) of
                  Inl _ \<Rightarrow> False
                | Inr frame \<Rightarrow>
                    (case parse_frame frame of
                       Inl _ \<Rightarrow> False
                     | Inr parsed \<Rightarrow>
                         msg_type parsed = MSG_PROTOBUF_REQUEST \<and>
                         (case parse_frag_header (payload parsed) of
                            Inl _ \<Rightarrow> False | Inr (_, pb) \<Rightarrow> pb = ENVIRONMENT_TEE)))))"

subsection \<open>The registered client\<close>

lemma response_chunk_notification:
  "response_chunk env = notification_of 1 (MSG_PROTOBUF_RESPONSE, protobuf_payload 1 env)"
  by (simp add: response_chunk_def notification_of_def wrap_cobs_def protobuf_payload_def Let_def)

lemma push_between: "between h ph [] c \<Longrightarrow> between h ph [x] (push_back x c)"
  "last_state (push_back x c) = last_state c" "recent_shots (push_back x c) = recent_shots c"
  by (simp_all add: between_def push_back_def)

lemma golden_register:
  "parse_register_response [0, 1, 1, 0, 0, 0, 0, 0, 0, 0, 1, 0, 0, 1, 0, 0] = Some (Success, 1, 0)"
  by code_simp

lemma registered:
  obtains c where "registered_client pf now = Some c" "between 1 WaitDeviceInfo [] c" "last_state c = None"
    "recent_shots c = []" "handle c = 1" "mtu c = 20" "mock_tx (transport c) = []" "req_id_counter c = 1"
proof -
  let ?reg = "[0, 1, 1, 0, 0, 0, 0, 0, 0, 0, 1, 0, 0, 1, 0, 0] :: bytes"
  obtain c0 where c0: "client_start mock_ops (client_new mock_new 20) = (Inr (), c0)"
      "between 0 Registering [] c0" "last_state c0 = None" "recent_shots c0 = []"
      "mtu c0 = 20" "mock_tx (transport c0) = []" "req_id_counter c0 = 1"
    by (simp add: client_start_def mock_ops_def client_new_def mock_new_def between_def stream_new_def)
  obtain n b where copy: "copy_into ?reg (read_buf c0) = (n, b)" by fastforce
  have chunk: "take n b = ?reg"
    using copy_into_read [OF copy] c0(2) by (simp add: between_def)
  then have n: "n \<noteq> 0" by (cases n) auto
  have len: "length b = 512" "n \<le> length b"
    using copy_into_bounds [OF copy] c0(2) by (simp_all add: between_def)
  let ?c = "c0\<lparr>transport := (transport c0)\<lparr>mock_rx := []\<rparr>, read_buf := b, handle := 1, phase := WaitDeviceInfo\<rparr>"
  have "client_poll mock_ops pf now (push_back ?reg c0) = (Inr (Some (Registered 1)), ?c)"
    using c0(2) copy chunk n len golden_register
    by (simp add: client_poll_def between_def mock_ops_def handle_register_response_def push_back_def)
  then have "registered_client pf now = Some ?c" using c0(1) by (simp add: registered_client_def)
  moreover have "between 1 WaitDeviceInfo [] ?c" using c0(2) len by (simp add: between_def)
  ultimately show thesis using that [of ?c] c0 by simp
qed

subsection \<open>Fixture frames through the client\<close>

lemma golden_sendable:
  "sendable (MSG_PROTOBUF_RESPONSE, protobuf_payload 1 SHOT_FULL)"
  "sendable (MSG_PROTOBUF_RESPONSE, protobuf_payload 1 ENVIRONMENT_REJECTED)"
  "sendable (MSG_PROTOBUF_RESPONSE, protobuf_payload 1 (state_frame 2))"
  "sendable (MSG_PROTOBUF_RESPONSE, protobuf_payload 1 ERROR_NOT_LEVEL)"
  "sendable (MSG_PROTOBUF_REQUEST, protobuf_payload 1 ENVIRONMENT_TEE)"
proof -
  have last: "last (build_frame MSG_PROTOBUF_RESPONSE (protobuf_payload 1 SHOT_FULL)) = 0x25"
    "last (build_frame MSG_PROTOBUF_RESPONSE (protobuf_payload 1 ENVIRONMENT_REJECTED)) = 0x3A"
    "last (build_frame MSG_PROTOBUF_RESPONSE (protobuf_payload 1 (state_frame 2))) = 0x13"
    "last (build_frame MSG_PROTOBUF_RESPONSE (protobuf_payload 1 ERROR_NOT_LEVEL)) = 0x69"
    "last (build_frame MSG_PROTOBUF_REQUEST (protobuf_payload 1 ENVIRONMENT_TEE)) = 0x61"
    by (simp_all add: build_frame_def Let_def crc16_def protobuf_payload_def le16_def le32_def SHOT_FULL_def
        ENVIRONMENT_REJECTED_def state_frame_def ERROR_NOT_LEVEL_def ENVIRONMENT_TEE_def msg_defs,
        simp_all add: crc_byte_def crc_table_def)
  show "sendable (MSG_PROTOBUF_RESPONSE, protobuf_payload 1 SHOT_FULL)"
    "sendable (MSG_PROTOBUF_RESPONSE, protobuf_payload 1 ENVIRONMENT_REJECTED)"
    "sendable (MSG_PROTOBUF_RESPONSE, protobuf_payload 1 (state_frame 2))"
    "sendable (MSG_PROTOBUF_RESPONSE, protobuf_payload 1 ERROR_NOT_LEVEL)"
    "sendable (MSG_PROTOBUF_REQUEST, protobuf_payload 1 ENVIRONMENT_TEE)"
    unfolding sendable_def prod.case last
    by (simp_all add: protobuf_payload_def Let_def SHOT_FULL_def
        ENVIRONMENT_REJECTED_def state_frame_def ERROR_NOT_LEVEL_def ENVIRONMENT_TEE_def msg_defs)
qed

lemma feed_event:
  assumes c: "between 1 ph [] c" "ph \<noteq> Registering"
    and env: "sendable (MSG_PROTOBUF_RESPONSE, protobuf_payload 1 env)" "decode pf env = Some ev"
    and step: "\<And>c'. between 1 ph [] c' \<Longrightarrow> last_state c' = last_state c \<Longrightarrow> recent_shots c' = recent_shots c \<Longrightarrow>
      \<exists>d. handle_envelope_event mock_ops pf now ev c' = (Inr r, d) \<and> between 1 ph [] d \<and> last_state d = ls"
  obtains d where "feed pf now env c = (Inr r, d)" "between 1 ph [] d" "last_state d = ls"
proof -
  have "length env < 2 ^ 32" using env(1) by (simp add: sendable_def protobuf_payload_def Let_def)
  then have "\<exists>d. client_exec mock_ops pf (Poll now) (push_back (response_chunk env) c) = (Inr r, d) \<and>
      between 1 ph [] d \<and> last_state d = ls"
    using push_between(1) [OF c(1), of "response_chunk env"] push_between(2,3) [of "response_chunk env" c] c(2) env(2) step
    by (intro poll_protobuf [OF _ _ env(1) parse_protobuf_payload, where h = 1 and ev = ev])
       (simp_all add: response_chunk_notification decode_def split: sum.splits)
  then show thesis using that by (auto simp: feed_def)
qed

lemma fixtures_decode:
  assumes "speaks_protobuf pf"
  shows "decode pf SHOT_FULL = Some (ShotEvent (decode_metrics pf shot_full_readout))"
    "decode pf ENVIRONMENT_REJECTED = Some (EnvironmentResult False)"
    "decode pf (state_frame 2) = Some (StateChange Waiting)"
    "decode pf ERROR_NOT_LEVEL = Some (ErrorEvent
       \<lparr>code = NotLevel, severity = Fatal, tilt = Some (0x40900000, 0xC0C80000)\<rparr>)"
  using shots_written(1) [THEN fixture_decodes [OF assms]] replies_pass(3) [OF assms] states_decode [OF assms, of 2]
    reports_written(1) [THEN fixture_decodes [OF assms]]
  by (simp_all add: notified_event decode_environment_results_def device_state_from_proto_def decode_error_report_def
      SHOT_FULL_def ERROR_NOT_LEVEL_def)

lemma fixtures_through_client:
  assumes pf: "speaks_protobuf pf"
  shows "client_decodes_fixture_frames pf t0 t1 t2 t3 t4"
proof -
  let ?shot = "decode_metrics pf shot_full_readout"
  obtain c0 where c0: "registered_client pf t0 = Some c0" "between 1 WaitDeviceInfo [] c0" "last_state c0 = None"
      "recent_shots c0 = []"
    using registered by metis
  obtain c1 where c1: "feed pf t1 SHOT_FULL c0 = (Inr (Some (Shot ?shot)), c1)" "between 1 WaitDeviceInfo [] c1"
      "last_state c1 = None"
    by (rule feed_event [OF c0(2) _ golden_sendable(1) fixtures_decode(1) [OF pf], where r = "Some (Shot ?shot)" and ls = None])
       (use c0 in \<open>auto simp: handle_envelope_event_def handle_shot_def Let_def between_def\<close>)
  obtain c2 where c2: "feed pf t2 ENVIRONMENT_REJECTED c1 = (Inr (Some (EnvironmentReply False)), c2)"
      "between 1 WaitDeviceInfo [] c2" "last_state c2 = None"
    by (rule feed_event [OF c1(2) _ golden_sendable(2) fixtures_decode(2) [OF pf], where r = "Some (EnvironmentReply False)" and ls = None])
       (use c1 in \<open>auto simp: handle_envelope_event_def\<close>)
  obtain c3 where c3: "feed pf t3 (state_frame 2) c2 = (Inr (Some Ready), c3)"
      "between 1 WaitDeviceInfo [] c3"
    by (rule feed_event [OF c2(2) _ golden_sendable(3) fixtures_decode(3) [OF pf], where r = "Some Ready" and ls = "Some Waiting"])
       (use c2 in \<open>auto simp: handle_envelope_event_def handle_state_change_def Let_def between_def\<close>)
  obtain c4 where c4: "feed pf t4 ERROR_NOT_LEVEL c3 = (Inr (Some (DeviceError
      \<lparr>code = NotLevel, severity = Fatal, tilt = Some (0x40900000, 0xC0C80000)\<rparr>)), c4)"
    by (rule feed_event [OF c3(2) _ golden_sendable(4) fixtures_decode(4) [OF pf], where ls = "last_state c3"])
       (auto simp: handle_envelope_event_def)
  show ?thesis
    by (simp add: client_decodes_fixture_frames_def c0(1) c1(1) c2(1) c3(1) c4 expect_def decode_metrics_def
        decode_ball_def shot_full_readout_def Let_def golden_close)
qed

lemma environment_frame_sent:
  fixes c :: "mock_transport client"
  defines "p \<equiv> protobuf_payload 1 ENVIRONMENT_TEE"
  defines "sent \<equiv> frame_chunks c (build_frame MSG_PROTOBUF_REQUEST p)"
  assumes "mtu c = 20"
  obtains fr where "list_all (\<lambda>x. x \<noteq> [] \<and> hd x = handle c) sent" "sent \<noteq> []" "2 \<le> length (concat (map tl sent))"
    "cobs_decode (subrange (concat (map tl sent)) 1 (length (concat (map tl sent)) - 1)) = Inr fr"
    "parse_frame fr = Inr \<lparr>msg_type = MSG_PROTOBUF_REQUEST, txn_id = None, payload = p\<rparr>"
    "parse_frag_header p = Inr (\<lparr>req_id = 1, offset = 0, total_len = word_of_nat (length ENVIRONMENT_TEE),
       chunk_size = word_of_nat (length ENVIRONMENT_TEE)\<rparr>, ENVIRONMENT_TEE)"
proof -
  let ?f = "build_frame MSG_PROTOBUF_REQUEST p"
  have shape: "list_all (\<lambda>x. x \<noteq> [] \<and> hd x = handle c) sent"
    using frame_chunks_shape [of c ?f] by (auto simp: list_all_iff sent_def)
  have wire: "concat (map tl sent) = 0 # cobs_encode ?f @ [0]"
    using frame_on_wire [of c ?f] assms(3) by (simp add: wrap_cobs_def sent_def)
  then have ne: "sent \<noteq> []" by auto
  have mid: "subrange (0 # cobs_encode ?f @ [0]) 1 (length (0 # cobs_encode ?f @ [0]) - 1) = cobs_encode ?f"
    by (simp add: subrange_def)
  have "parse_cobs_frame (cobs_encode ?f) = Inr \<lparr>msg_type = MSG_PROTOBUF_REQUEST, txn_id = None, payload = p\<rparr>"
    using host_link [of MSG_PROTOBUF_REQUEST p] golden_sendable(5) less_8000_bit [of MSG_PROTOBUF_REQUEST]
    by (simp add: sendable_def crc_zeros_def cut_result_def p_def)
  then obtain fr where fr: "cobs_decode (cobs_encode ?f) = Inr fr"
      "parse_frame fr = Inr \<lparr>msg_type = MSG_PROTOBUF_REQUEST, txn_id = None, payload = p\<rparr>"
    by (auto simp: parse_cobs_frame_def split: sum.splits)
  have header: "parse_frag_header p = Inr (\<lparr>req_id = 1, offset = 0, total_len = word_of_nat (length ENVIRONMENT_TEE),
      chunk_size = word_of_nat (length ENVIRONMENT_TEE)\<rparr>, ENVIRONMENT_TEE)"
    unfolding p_def by (rule parse_protobuf_payload) (simp add: ENVIRONMENT_TEE_def)
  have "2 \<le> length (concat (map tl sent))" by (simp add: wire)
  then show thesis by (rule that [OF shape ne _ _ fr(2) header]) (simp only: wire mid fr(1))
qed

lemma request_through_client:
  assumes pf: "speaks_protobuf pf"
  shows "client_sends_builder_bytes pf t0"
proof -
  let ?env = "environment_default\<lparr>tee_distance_yd := Some 0x40133333\<rparr>"
  obtain c where c: "registered_client pf t0 = Some c" "handle c = 1" "mtu c = 20" "mock_tx (transport c) = []"
      "req_id_counter c = 1"
    using registered by metis
  have pbr: "parse_frag_header (payload \<lparr>msg_type = MSG_PROTOBUF_REQUEST, txn_id = None, payload = protobuf_payload 1 ENVIRONMENT_TEE\<rparr>) =
      Inr (\<lparr>req_id = 1, offset = 0, total_len = word_of_nat (length ENVIRONMENT_TEE),
        chunk_size = word_of_nat (length ENVIRONMENT_TEE)\<rparr>, ENVIRONMENT_TEE)"
    using environment_frame_sent [OF c(3)] by (metis gfdi_frame.select_convs(3))
  have "build_environment_request pf ?env = ENVIRONMENT_TEE"
    using builders_pass(3) [OF pf] by (simp add: environment_request_bytes_def)
  then obtain d where d: "send_environment mock_ops pf ?env c = (Inr (), d)"
      "mock_tx (transport d) = frame_chunks c (build_frame MSG_PROTOBUF_REQUEST (protobuf_payload 1 ENVIRONMENT_TEE))"
    using c by (simp add: send_environment_def mock_send_request logged_def build_protobuf_request_def)
  obtain fr where fr: "list_all (\<lambda>x. x \<noteq> [] \<and> hd x = 1) (mock_tx (transport d))"
      "2 \<le> length (concat (map tl (mock_tx (transport d))))"
      "cobs_decode (subrange (concat (map tl (mock_tx (transport d)))) 1 (length (concat (map tl (mock_tx (transport d)))) - 1)) = Inr fr"
      "parse_frame fr = Inr \<lparr>msg_type = MSG_PROTOBUF_REQUEST, txn_id = None, payload = protobuf_payload 1 ENVIRONMENT_TEE\<rparr>"
    using environment_frame_sent [OF c(3)] unfolding c(2) d(2) by blast
  show ?thesis
    unfolding client_sends_builder_bytes_def c(1) expect_simps d(1) prod.case sum.case Let_def fr(3,4) pbr
    using fr(1,2) by simp
qed

subsection \<open>Properties\<close>

text \<open>The golden tests through the client pass: whatever the clocks, a registered client turns the fixture frames
  into a shot with the recorded metrics, a rejected environment, ready and a device error in this order,
  and an environment request leaves as chunks that hold, behind handle, COBS and GFDI, the golden bytes.\<close>

theorem golden_client_tests_pass:
  assumes "speaks_protobuf pf"
  shows "client_decodes_fixture_frames pf t0 t1 t2 t3 t4 \<and> client_sends_builder_bytes pf t0"
  using fixtures_through_client [OF assms] request_through_client [OF assms] by blast

theorem golden_client_tests_pass_witness:
  "client_decodes_fixture_frames golden_platform 0 1 2 3 4 \<and> client_sends_builder_bytes golden_platform 0"
  by (rule golden_client_tests_pass [OF golden_platform_ok(1)])

text \<open>C7: a shot from bytes to event: for every protobuf library that speaks the format, when the device notifies the
  report of any shot in one frame (small enough for one, and with a CRC that does not end in a zero byte), and a
  registered client with nothing queued or buffered does not remember the shot's number, the next poll on the mock
  transport returns it, with the spin components computed from total spin and axis.\<close>

theorem shot_from_wire_to_event:
  assumes "speaks_protobuf pf"
    and "env = envelope_bytes (notified (Some (no_report\<lparr>report_shot := Some (readout_of s)\<rparr>)))"
    and "mt \<in> {MSG_PROTOBUF_REQUEST, MSG_PROTOBUF_RESPONSE}" "sendable (mt, protobuf_payload rid env)"
    and "between h ph (notification_of h (mt, protobuf_payload rid env) # rx) c" "ph \<noteq> Registering"
    and "list_all (\<lambda>(i, t). i \<noteq> shot_id s) (recent_shots c)"
  shows "\<exists>c'. client_poll mock_ops pf now c =
    (Inr (Some (Shot (s\<lparr>ball := map_option (\<lambda>b. b\<lparr>
        backspin := f32_mul (total_spin b) (cosf pf (f32_to_radians (spin_axis b))),
        sidespin := f32_mul (total_spin b) (sinf pf (f32_to_radians (spin_axis b)))\<rparr>) (ball s)\<rparr>))), c')"
proof -
  let ?s = "s\<lparr>ball := map_option (with_spin_components pf) (ball s)\<rparr>"
  have small: "length env < 2 ^ 32" using assms(4) by (simp add: sendable_def protobuf_payload_def Let_def)
  then have "decode_envelope pf env = Inr (ShotEvent ?s)"
    using speaks_protobuf.decode_written [OF assms(1) assms(2) [symmetric]]
    by (simp add: notified_event decode_metrics_readout)
  then obtain d where "client_exec mock_ops pf (Poll now) c = (Inr (fst (handle_shot now ?s c)), d)"
    using poll_shot [OF assms(5,6,4) parse_protobuf_payload [OF small] _ assms(3)] by blast
  moreover have "fst (handle_shot now ?s c) = Some (Shot ?s)"
    using assms(7) by (auto simp: handle_shot_def Let_def list_ex_iff list_all_iff)
  moreover have "with_spin_components pf = (\<lambda>b. b\<lparr>
      backspin := f32_mul (total_spin b) (cosf pf (f32_to_radians (spin_axis b))),
      sidespin := f32_mul (total_spin b) (sinf pf (f32_to_radians (spin_axis b)))\<rparr>)"
    by (simp add: fun_eq_iff with_spin_components_def)
  ultimately show ?thesis by simp
qed

definition demo_push :: bytes where
  "demo_push = envelope_bytes (notified (Some (no_report\<lparr>report_shot := Some (readout_of demo_shot)\<rparr>)))"

lemma demo_push_bytes:
  "demo_push = [0xF2, 1, 0x0D, 0x1A, 0x0B, 8, 8, 0xCA, 0x3E, 6, 0x12, 4, 8, 7, 0x10, 1]"
  by (simp add: demo_push_def demo_shot_def readout_of_def writing unset)

lemma demo_push_sendable: "sendable (MSG_PROTOBUF_REQUEST, protobuf_payload 4 demo_push)"
proof -
  have "last (build_frame MSG_PROTOBUF_REQUEST (protobuf_payload 4 demo_push)) \<noteq> 0"
    by (simp add: build_frame_def Let_def crc16_def protobuf_payload_def le16_def le32_def demo_push_bytes msg_defs,
        simp add: crc_byte_def crc_table_def)
  then show ?thesis by (simp add: sendable_def protobuf_payload_def Let_def demo_push_bytes msg_defs)
qed

theorem shot_from_wire_to_event_witness:
  "\<exists>c'. client_poll mock_ops golden_platform 9
     ((client_new \<lparr>mock_rx = [notification_of 6 (MSG_PROTOBUF_REQUEST, protobuf_payload 4 demo_push)], mock_tx = [],
        mock_reg_tx = []\<rparr> 20)\<lparr>phase := Active, handle := 6\<rparr>) = (Inr (Some (Shot demo_shot)), c')"
proof -
  let ?c = "(client_new \<lparr>mock_rx = [notification_of 6 (MSG_PROTOBUF_REQUEST, protobuf_payload 4 demo_push)], mock_tx = [],
      mock_reg_tx = []\<rparr> 20)\<lparr>phase := Active, handle := 6\<rparr> :: mock_transport client"
  have "between 6 Active [notification_of 6 (MSG_PROTOBUF_REQUEST, protobuf_payload 4 demo_push)] ?c"
    by (simp add: between_def client_new_def stream_new_def)
  from shot_from_wire_to_event [OF golden_platform_ok(1) demo_push_def _ demo_push_sendable this, of 9]
  show ?thesis by (simp add: demo_shot_def client_new_def)
qed

end
