(* ===== verification/Frp_Convert.thy ===== *)
theory Frp_Convert
  imports Proto
begin

text \<open>
  \<open>src/frp/convert.rs\<close>: shot data as the Flight Relay Protocol's types. Of the protocol crate's structs the
  records hold the fields the code sets; the fields it leaves to \<open>default()\<close> are \<open>None\<close> and not written
  out. \<open>f64::from\<close> is the exact widening of the bit pattern.
\<close>

type_synonym f64 = "64 word"

subsection \<open>Widening to double precision\<close>

definition f64_pack :: "bool \<Rightarrow> nat \<Rightarrow> nat \<Rightarrow> f64" where
  "f64_pack s e f = word_of_nat ((if s then 2 ^ 63 else 0) + e * 2 ^ 52 + f)"

definition f64_exp :: "f64 \<Rightarrow> nat" where
  "f64_exp x = unat x div 2 ^ 52 mod 2048"

definition f64_frac :: "f64 \<Rightarrow> nat" where
  "f64_frac x = unat x mod 2 ^ 52"

definition f64_neg :: "f64 \<Rightarrow> bool" where
  "f64_neg x \<longleftrightarrow> 2 ^ 63 \<le> unat x"

definition f64_of_f32 :: "f32 \<Rightarrow> f64" where
  "f64_of_f32 x =
     (if f32_is_nan x then f64_pack (f32_neg x) 2047 (f32_frac x mod 2 ^ 22 * 2 ^ 29 + 2 ^ 51)
      else if f32_is_inf x then f64_pack (f32_neg x) 2047 0
      else if f32_mant x = 0 then f64_pack (f32_neg x) 0 0
      else let l = bit_length (f32_mant x)
           in f64_pack (f32_neg x) (nat (f32_power x + int l + 1022)) ((f32_mant x - 2 ^ (l - 1)) * 2 ^ (53 - l)))"

subsection \<open>Conversion\<close>

datatype velocity = MetersPerSecond f64

record frp_ball_flight =
  launch_speed :: "velocity option"
  launch_azimuth :: "f64 option"
  launch_elevation :: "f64 option"
  backspin_rpm :: "i32 option"
  sidespin_rpm :: "i32 option"
  total_spin_rpm :: "i32 option"
  frp_spin_axis :: "f64 option"

record frp_club_data =
  club_speed :: "velocity option"
  frp_path :: "f64 option"
  frp_attack_angle :: "f64 option"
  frp_face_angle :: "f64 option"

definition then_some :: "bool \<Rightarrow> 'a \<Rightarrow> 'a option" where
  "then_some b x = (if b then Some x else None)"

definition frp_ball :: "ball_data \<Rightarrow> frp_ball_flight" where
  "frp_ball b =
     (let total = f32_to_i32 (f32_round (total_spin b)); spin_measured = 0 < sint total
      in \<lparr>launch_speed = Some (MetersPerSecond (f64_of_f32 (ball_speed b))),
          launch_azimuth = Some (f64_of_f32 (launch_direction b)),
          launch_elevation = Some (f64_of_f32 (launch_angle b)),
          backspin_rpm = Some (f32_to_i32 (f32_round (backspin b))),
          sidespin_rpm = Some (f32_to_i32 (f32_round (sidespin b))),
          total_spin_rpm = then_some spin_measured total,
          frp_spin_axis = then_some spin_measured (f64_of_f32 (spin_axis b))\<rparr>)"

definition frp_club :: "club_data \<Rightarrow> frp_club_data" where
  "frp_club c =
     \<lparr>club_speed = Some (MetersPerSecond (f64_of_f32 (club_head_speed c))),
      frp_path = Some (f64_of_f32 (path_angle c)),
      frp_attack_angle = Some (f64_of_f32 (attack_angle c)),
      frp_face_angle = Some (f64_of_f32 (face_angle c))\<rparr>"

subsection \<open>Widening keeps the value\<close>

lemma f64_fields:
  assumes "e < 2048" "f < 2 ^ 52"
  shows "f64_exp (f64_pack s e f) = e" "f64_frac (f64_pack s e f) = f" "f64_neg (f64_pack s e f) = s"
proof -
  let ?n = "(if s then 2 ^ 63 else 0) + e * 2 ^ 52 + f"
  have low: "e * 2 ^ 52 + f < 2 ^ 63"
  proof -
    have "e * 2 ^ 52 + f < (e + 1) * 2 ^ 52" using assms(2) by simp
    also have "\<dots> \<le> 2048 * 2 ^ 52" using assms(1) by (intro mult_right_mono) simp_all
    finally show ?thesis by simp
  qed
  then have "?n < 2 ^ 64" by simp
  then have n: "unat (f64_pack s e f) = ?n"
    unfolding f64_pack_def unat_of_nat by (intro mod_less) simp
  have n2: "?n = ((if s then 2048 else 0) + e) * 2 ^ 52 + f" by simp
  show "f64_frac (f64_pack s e f) = f"
    unfolding f64_frac_def n n2 using assms(2) by (subst mod_mult_self3) simp
  have "?n div 2 ^ 52 = (if s then 2048 else 0) + e"
    unfolding n2 using assms(2) by (subst div_mult_self3) simp_all
  then show "f64_exp (f64_pack s e f) = e" using assms(1) by (simp add: f64_exp_def n)
  show "f64_neg (f64_pack s e f) = s" using low by (simp add: f64_neg_def n)
qed

lemma bit_length_bounds: "0 < m \<Longrightarrow> 2 ^ (bit_length m - 1) \<le> m \<and> m < 2 ^ bit_length m \<and> 0 < bit_length m"
proof (induction m rule: bit_length.induct)
  case (1 m)
  show ?case
  proof (cases "m div 2 = 0")
    case True
    then have "m = 1" using "1.prems" by simp
    then show ?thesis by (simp add: bit_length.simps)
  next
    case False
    have eq: "bit_length m = Suc (bit_length (m div 2))" using "1.prems" by (simp add: bit_length.simps [of m])
    have IH: "2 ^ (bit_length (m div 2) - 1) \<le> m div 2" "m div 2 < 2 ^ bit_length (m div 2)" "0 < bit_length (m div 2)"
      using "1.IH" "1.prems" False by auto
    define k where "k = bit_length (m div 2) - 1"
    have k: "bit_length (m div 2) = Suc k" using IH(3) by (simp add: k_def)
    have "2 ^ k \<le> m div 2" "m div 2 < 2 * 2 ^ k" using IH k by simp_all
    then have "2 * 2 ^ k \<le> m" "m < 2 * (2 * 2 ^ k)" by presburger+
    then show ?thesis by (simp add: eq k)
  qed
qed

lemma f64_of_f32_normal:
  assumes "f32_exp x < 255" "f32_mant x \<noteq> 0"
  shows "let l = bit_length (f32_mant x); y = f64_of_f32 x
    in f64_neg y = f32_neg x \<and> 0 < f64_exp y \<and> f64_exp y < 2047 \<and>
       2 ^ 52 + f64_frac y = f32_mant x * 2 ^ (53 - l) \<and>
       int (f64_exp y) - 1075 = f32_power x - int (53 - l)"
proof -
  define l where "l = bit_length (f32_mant x)"
  have m: "f32_mant x < 2 ^ 24" using f32_frac_bound [of x] by (simp add: f32_mant_def)
  have l: "2 ^ (l - 1) \<le> f32_mant x" "f32_mant x < 2 ^ l" "0 < l" "l \<le> 24"
    using bit_length_bounds [of "f32_mant x"] assms(2) bit_length_le [OF m] by (simp_all add: l_def)
  have pow: "- 149 \<le> f32_power x" "f32_power x \<le> 104"
    using assms(1) by (auto simp: f32_power_def)
  define e where "e = nat (f32_power x + int l + 1022)"
  have e: "int e = f32_power x + int l + 1022" "0 < e" "e < 2047" using pow l by (simp_all add: e_def)
  have split: "2 ^ 52 = 2 ^ (l - 1) * (2 ^ (53 - l) :: nat)"
    using l by (simp flip: power_add)
  have f: "(f32_mant x - 2 ^ (l - 1)) * 2 ^ (53 - l) + 2 ^ 52 = f32_mant x * 2 ^ (53 - l)"
    unfolding split using l(1) by (simp flip: distrib_right)
  have "f32_mant x * 2 ^ (53 - l) < 2 ^ l * 2 ^ (53 - l)" using l(2) by simp
  also have "\<dots> = (2 ^ 53 :: nat)" using l by (simp flip: power_add)
  finally have small: "(f32_mant x - 2 ^ (l - 1)) * 2 ^ (53 - l) < 2 ^ 52" using f by simp
  have y: "f64_of_f32 x = f64_pack (f32_neg x) e ((f32_mant x - 2 ^ (l - 1)) * 2 ^ (53 - l))"
    using assms by (simp add: f64_of_f32_def f32_is_nan_def f32_is_inf_def l_def e_def Let_def)
  show ?thesis
    using e f l small unfolding Let_def l_def [symmetric] y
    by (simp add: f64_fields)
qed

subsection \<open>Properties\<close>

text \<open>Speeds and angles reach the protocol unrounded: the double a finite non-zero single is widened to has
  its sign and exactly its value, as \<open>significand * 2 ^ exponent\<close>, for the ball's speed here and the same
  function for every other field.\<close>

theorem ball_speed_widened_exactly:
  assumes "f32_exp (ball_speed b) < 255" "f32_mant (ball_speed b) \<noteq> 0"
  shows "\<exists>y k. launch_speed (frp_ball b) = Some (MetersPerSecond y) \<and> f64_neg y = f32_neg (ball_speed b) \<and>
    0 < f64_exp y \<and> f64_exp y < 2047 \<and>
    2 ^ 52 + f64_frac y = f32_mant (ball_speed b) * 2 ^ k \<and>
    int (f64_exp y) - 1075 = f32_power (ball_speed b) - int k"
  using f64_of_f32_normal [OF assms] unfolding Let_def by (auto simp: frp_ball_def Let_def)

definition demo_ball :: ball_data where
  "demo_ball =
     \<lparr>launch_angle = 0x41633333, launch_direction = 0, ball_speed = 0x42866666, spin_axis = 0x40A00000,
      total_spin = 0x452F0000, backspin = 0x452E5000, sidespin = 0x43740000, spin_calc = Estimated\<rparr>"

theorem ball_speed_widened_exactly_witness:
  "\<exists>y k. launch_speed (frp_ball demo_ball) = Some (MetersPerSecond y) \<and> \<not> f64_neg y \<and>
     2 ^ 52 + f64_frac y = 8808038 * 2 ^ k \<and> int (f64_exp y) - 1075 = - 17 - int k"
proof -
  have "f32_exp (ball_speed demo_ball) = 133" "f32_mant (ball_speed demo_ball) = 8808038"
    "f32_power (ball_speed demo_ball) = - 17" "\<not> f32_neg (ball_speed demo_ball)"
    by (simp_all add: demo_ball_def f32_exp_def f32_mant_def f32_frac_def f32_power_def f32_neg_def)
  then show ?thesis using ball_speed_widened_exactly [of demo_ball] by auto
qed

text \<open>Total spin and spin axis are sent together or not at all: they are sent exactly when the total spin,
  rounded to a whole number of revolutions and saturated to 32 bits, is positive, so a sent total spin is
  never zero or negative; backspin and sidespin are always sent.\<close>

theorem spin_sent_when_positive:
  "(total_spin_rpm (frp_ball b) = Some n \<longleftrightarrow> n = f32_to_i32 (f32_round (total_spin b)) \<and> 0 < sint n) \<and>
   (frp_spin_axis (frp_ball b) = None \<longleftrightarrow> sint (f32_to_i32 (f32_round (total_spin b))) \<le> 0) \<and>
   backspin_rpm (frp_ball b) = Some (f32_to_i32 (f32_round (backspin b))) \<and>
   sidespin_rpm (frp_ball b) = Some (f32_to_i32 (f32_round (sidespin b)))"
  by (auto simp: frp_ball_def then_some_def Let_def)

end
