(* ===== verification/Client_Tests.thy ===== *)
theory Client_Tests
  imports Golden_Client Frp_Convert
begin

text \<open>
  The unit tests inside \<open>src/proto.rs\<close>, \<open>src/client.rs\<close> and \<open>src/frp/convert.rs\<close>, each as a predicate on the
  platform, and that they hold for every protobuf library that speaks the wire format. Names are those of the
  test functions, with a suffix where one is taken. A getter of an enum field that the protobuf library
  generates is written as the field with the number of the enum's value. \<open>spin_pairs_agree\<close> runs the
  protocol crate's own code and is left out, as are assertions that fields left to \<open>default()\<close> are unset.
\<close>

subsection \<open>\<open>proto.rs\<close>\<close>

definition subscribe_request_encodes :: "platform \<Rightarrow> bool" where
  "subscribe_request_encodes pf \<longleftrightarrow>
     (let data = build_subscribe_request pf
      in data \<noteq> [] \<and>
         expect_ok (pb_decode pf data) (\<lambda>env.
           expect (env_alerts env) (\<lambda>a. expect (subscribe a) (\<lambda>req.
             length (topics req) = 1 \<and> topic (topics req ! 0) = Some TOPIC_SHOT_DATA))))"

definition wakeup_request_encodes :: "platform \<Rightarrow> bool" where
  "wakeup_request_encodes pf \<longleftrightarrow>
     (let data = build_wakeup_request pf
      in data \<noteq> [] \<and> expect_ok (pb_decode pf data) (\<lambda>env. expect (env_monitor env) (\<lambda>m. wake m \<noteq> None)))"

definition environment_request_encodes_tee_distance :: "platform \<Rightarrow> bool" where
  "environment_request_encodes_tee_distance pf \<longleftrightarrow>
     (let config = environment_default\<lparr>tee_distance_yd := Some 0x40133333\<rparr>;
          data = build_environment_request pf config
      in expect_ok (pb_decode pf data) (\<lambda>env.
           expect (env_monitor env) (\<lambda>m. expect (environment m) (\<lambda>req.
             settings_tee_distance_yd req = Some 0x40133333 \<and> air_temperature_c req = None \<and>
             relative_humidity req = None \<and> elevation_m req = None \<and> air_density_kg_m3 req = None))))"

definition environment_request_encodes_all_fields :: "platform \<Rightarrow> bool" where
  "environment_request_encodes_all_fields pf \<longleftrightarrow>
     (let config = \<lparr>temperature = Some 0x41A80000, humidity = Some 0x3EE66666, altitude = Some 0x42F00000,
                    air_density = Some 0x3F99999A, tee_distance_yd = Some 0x40C00000\<rparr>;
          data = build_environment_request pf config
      in expect_ok (pb_decode pf data) (\<lambda>env.
           expect (env_monitor env) (\<lambda>m. expect (environment m) (\<lambda>req.
             air_temperature_c req = Some 0x41A80000 \<and> relative_humidity req = Some 0x3EE66666 \<and>
             elevation_m req = Some 0x42F00000 \<and> air_density_kg_m3 req = Some 0x3F99999A \<and>
             settings_tee_distance_yd req = Some 0x40C00000))))"

definition decode_environment_result :: "platform \<Rightarrow> bool" where
  "decode_environment_result pf \<longleftrightarrow>
     (let data = monitor_envelope pf (monitor_channel_default\<lparr>environment_result := Some (Some True)\<rparr>)
      in expect_ok (decode_envelope pf data) (\<lambda>event. event = EnvironmentResult True))"

definition decode_shot_metrics :: "platform \<Rightarrow> bool" where
  "decode_shot_metrics pf \<longleftrightarrow>
     (let metrics =
        \<lparr>shot_number = Some 42, shot_kind_code = Some 1,
         readout_ball = Some
           \<lparr>vertical_angle_deg = Some 0x41480000, horizontal_angle_deg = Some 0xBF99999A, speed_mps = Some 0x42860000,
            spin_tilt_deg = Some 0x40A00000, spin_rpm = Some 0x452F0000, spin_source = Some 0, marking = Some 1\<rparr>,
         readout_club = Some
           \<lparr>head_speed_mps = Some 0x42300000, face_deg = Some 0x3FC00000, path_deg = Some 0xC0000000,
            attack_deg = Some 0xC0600000\<rparr>,
         readout_timing = Some
           \<lparr>takeaway = Some 1000, transition = Some 1500, impact_time = Some 1800, finish_time = Some 2200,
            capture_end = None\<rparr>\<rparr>;
          shot = decode_metrics pf metrics
      in shot_id shot = 42 \<and> kind shot = Regular \<and>
         expect (ball shot) (\<lambda>b.
           close (ball_speed b) 0x42860000 \<and> close (total_spin b) 0x452F0000 \<and>
           f32_less (f32_abs (f32_sub (backspin b) 0x452E5666)) 0x3F800000 \<and>
           f32_less (f32_abs (f32_sub (sidespin b) 0x43740000)) 0x3F800000) \<and>
         expect (club shot) (\<lambda>c. close (club_head_speed c) 0x42300000 \<and> close (face_angle c) 0x3FC00000) \<and>
         expect (swing shot) (\<lambda>w. impact w = 1800))"

subsection \<open>\<open>client.rs\<close>\<close>

definition client_starts_registration :: bool where
  "client_starts_registration \<longleftrightarrow>
     (case client_start mock_ops (client_new mock_new 20) of
        (Inl _, _) \<Rightarrow> False
      | (Inr _, c) \<Rightarrow>
          (let sent = mock_reg_tx (transport c)
           in length sent = 1 \<and> length (sent ! 0) = 13 \<and> sent ! 0 ! 0 = 0x00 \<and> sent ! 0 ! 1 = 0x00))"

definition client_handles_register_response :: "platform \<Rightarrow> nat \<Rightarrow> bool" where
  "client_handles_register_response pf now \<longleftrightarrow>
     (case client_start mock_ops (client_new mock_new 20) of
        (Inl _, _) \<Rightarrow> False
      | (Inr _, c) \<Rightarrow>
          (let c = push_back [0, 1, 1, 0, 0, 0, 0, 0, 0, 0, 1, 0, 0, 1, 0, 0] c
           in (case client_poll mock_ops pf now c of
                 (Inr event, c) \<Rightarrow> event = Some (Registered 1) \<and> phase_name (phase c) = ''wait_device_info''
               | _ \<Rightarrow> False)))"

definition client_sends_environment :: "platform \<Rightarrow> bool" where
  "client_sends_environment pf \<longleftrightarrow>
     (case client_start mock_ops (client_new mock_new 20) of
        (Inl _, _) \<Rightarrow> False
      | (Inr _, c) \<Rightarrow>
          (case send_environment mock_ops pf (environment_default\<lparr>tee_distance_yd := Some 0x40133333\<rparr>) c of
             (Inl _, _) \<Rightarrow> False
           | (Inr _, c) \<Rightarrow>
               (let sent = mock_tx (transport c); wire = concat (map tl sent)
                in sent \<noteq> [] \<and> list_all (\<lambda>chunk. chunk \<noteq> [] \<and> hd chunk = 0x00) sent \<and> 2 \<le> length wire \<and>
                   expect_ok (cobs_decode (subrange wire 1 (length wire - 1))) (\<lambda>frame.
                     expect_ok (parse_frame frame) (\<lambda>parsed.
                       msg_type parsed = MSG_PROTOBUF_REQUEST \<and>
                       expect_ok (parse_frag_header (payload parsed)) (\<lambda>(_, pb_data).
                         expect_ok (pb_decode pf pb_data) (\<lambda>env.
                           expect (env_monitor env) (\<lambda>m. expect (environment m) (\<lambda>req.
                             settings_tee_distance_yd req = Some 0x40133333)))))))))"

definition client_handles_environment_result :: "platform \<Rightarrow> nat \<Rightarrow> nat \<Rightarrow> bool" where
  "client_handles_environment_result pf t0 t1 \<longleftrightarrow>
     expect (registered_client pf t0) (\<lambda>c.
       let envelope = pb_encode pf \<lparr>env_alerts = None,
             env_monitor = Some (monitor_channel_default\<lparr>environment_result := Some (Some False)\<rparr>)\<rparr>
       in fst (feed pf t1 envelope c) = Inr (Some (EnvironmentReply False)))"

subsection \<open>\<open>frp/convert.rs\<close>\<close>

text \<open>\<open>ball_data\<close>: launch angle 14.2, direction -1.3, speed 67.2.\<close>

definition test_ball :: "platform \<Rightarrow> f32 \<Rightarrow> f32 \<Rightarrow> ball_data" where
  "test_ball pf spin axis =
     (let axis_rad = f32_to_radians axis
      in \<lparr>launch_angle = 0x41633333, launch_direction = 0xBFA66666, ball_speed = 0x42866666,
          spin_axis = axis, total_spin = spin, backspin = f32_mul spin (cosf pf axis_rad),
          sidespin = f32_mul spin (sinf pf axis_rad), spin_calc = Estimated\<rparr>)"

definition ball_flight_conversion :: "platform \<Rightarrow> bool" where
  "ball_flight_conversion pf \<longleftrightarrow>
     (let frp = frp_ball (test_ball pf 0x452F0000 0x40A00000)
      in launch_speed frp = Some (MetersPerSecond (f64_of_f32 0x42866666)) \<and>
         launch_elevation frp = Some (f64_of_f32 0x41633333) \<and> launch_azimuth frp = Some (f64_of_f32 0xBFA66666) \<and>
         backspin_rpm frp = Some 2789 \<and> sidespin_rpm frp = Some 244 \<and> total_spin_rpm frp = Some 2800 \<and>
         frp_spin_axis frp = Some 0x4014000000000000)"

definition spin_axis_sign_matches_sidespin :: "platform \<Rightarrow> bool" where
  "spin_axis_sign_matches_sidespin pf \<longleftrightarrow>
     (let right = frp_ball (test_ball pf 0x453B8000 0x41400000); left = frp_ball (test_ball pf 0x453B8000 0xC1400000)
      in frp_spin_axis right = Some 0x4028000000000000 \<and> expect (sidespin_rpm right) (\<lambda>s. 0 < sint s) \<and>
         frp_spin_axis left = Some 0xC028000000000000 \<and> expect (sidespin_rpm left) (\<lambda>s. sint s < 0))"

definition zero_total_spin_sends_neither_total_nor_axis :: "platform \<Rightarrow> bool" where
  "zero_total_spin_sends_neither_total_nor_axis pf \<longleftrightarrow>
     (let frp = frp_ball (test_ball pf 0 0)
      in total_spin_rpm frp = None \<and> frp_spin_axis frp = None \<and> backspin_rpm frp = Some 0 \<and> sidespin_rpm frp = Some 0)"

definition club_data_conversion :: bool where
  "club_data_conversion \<longleftrightarrow>
     (let club = \<lparr>club_head_speed = 0x42300000, face_angle = 0x3FC00000, path_angle = 0xC0000000, attack_angle = 0xC0600000\<rparr>;
          frp = frp_club club
      in club_speed frp = Some (MetersPerSecond (f64_of_f32 0x42300000)) \<and> frp_face_angle frp = Some (f64_of_f32 0x3FC00000) \<and>
         frp_path frp = Some (f64_of_f32 0xC0000000) \<and> frp_attack_angle frp = Some (f64_of_f32 0xC0600000))"

subsection \<open>Messages\<close>

lemma decodes_written:
  "speaks_protobuf pf \<Longrightarrow> length (envelope_bytes e) < 2 ^ 64 \<Longrightarrow> pb_decode pf (envelope_bytes e) = Inr e"
  by (rule speaks_protobuf.decodes) (simp_all add: envelope_wire_roundtrip)

lemma proto_request_tests:
  assumes "speaks_protobuf pf"
  shows "subscribe_request_encodes pf" "wakeup_request_encodes pf"
proof -
  note bytes = requests_written [unfolded replied_def]
  have "length SUBSCRIBE < 2 ^ 64" "length WAKEUP < 2 ^ 64" "SUBSCRIBE \<noteq> []" "WAKEUP \<noteq> []"
    by (simp_all add: SUBSCRIBE_def WAKEUP_def)
  then show "subscribe_request_encodes pf" "wakeup_request_encodes pf"
    using decodes_written [OF assms, of "\<lparr>env_alerts = Some (alert_channel_default\<lparr>subscribe := Some \<lparr>topics = [\<lparr>topic = Some 8\<rparr>]\<rparr>\<rparr>),
        env_monitor = None\<rparr>"]
      decodes_written [OF assms, of "\<lparr>env_alerts = None, env_monitor = Some (monitor_channel_default\<lparr>wake := Some ()\<rparr>)\<rparr>"]
    by (simp_all add: subscribe_request_encodes_def wakeup_request_encodes_def speaks_protobuf.built_requests [OF assms]
        bytes TOPIC_SHOT_DATA_def)
qed

lemma proto_environment_tests:
  assumes "speaks_protobuf pf"
  shows "environment_request_encodes_tee_distance pf" "environment_request_encodes_all_fields pf" "decode_environment_result pf"
proof -
  show "environment_request_encodes_tee_distance pf" "environment_request_encodes_all_fields pf"
    by (simp_all add: environment_request_encodes_tee_distance_def environment_request_encodes_all_fields_def
        environment_read [OF assms] environment_default_def)
  have "monitor_envelope pf (monitor_channel_default\<lparr>environment_result := Some (Some True)\<rparr>) = ENVIRONMENT_ACCEPTED"
    by (simp add: monitor_envelope_def speaks_protobuf.encodes [OF assms] replies_written(4) [unfolded replied_def])
  then show "decode_environment_result pf"
    using replies_pass(3) [OF assms]
    by (simp add: decode_environment_result_def decode_environment_results_def decode_def split: sum.splits)
qed

lemma spin_differences:
  "f32_sub 0x452E5586 0x452E5666 = 0xBD600000" "f32_sub 0x4374093B 0x43740000 = 0x3D13B000"
  by (simp_all add: f32_sub_def f32_add_def f32_scaled_def float_fields, simp_all add: float_pack)

lemma spin_less: "f32_less (f32_abs 0xBD600000) 0x3F800000" "f32_less (f32_abs 0x3D13B000) 0x3F800000"
  by (simp_all add: f32_abs_def f32_less_def f32_scaled_def float_fields)

lemma proto_metrics_test:
  assumes "golden_trig pf"
  shows "decode_shot_metrics pf"
  using assms
  by (simp add: decode_shot_metrics_def decode_metrics_def decode_ball_def Let_def golden_axes golden_trig_def golden_spins
      spin_differences spin_less golden_close)

subsection \<open>The client\<close>

lemma client_registration_tests: "client_starts_registration" "client_handles_register_response pf now"
proof -
  show "client_starts_registration"
    by (simp add: client_starts_registration_def client_start_def mock_ops_def client_new_def mock_new_def build_register_def le64_def)
  obtain c where c: "registered_client pf now = Some c" "between 1 WaitDeviceInfo [] c"
    using registered by metis
  then show "client_handles_register_response pf now"
    by (auto simp: registered_client_def client_handles_register_response_def between_def
        split: prod.splits sum.splits option.splits event.splits if_splits)
qed

lemma environment_sent_test:
  assumes "speaks_protobuf pf"
  shows "client_sends_environment pf"
proof -
  let ?env = "environment_default\<lparr>tee_distance_yd := Some 0x40133333\<rparr>"
  let ?p = "protobuf_payload 1 ENVIRONMENT_TEE"
  let ?f = "build_frame MSG_PROTOBUF_REQUEST ?p"
  obtain c where c: "client_start mock_ops (client_new mock_new 20) = (Inr (), c)" "handle c = 0" "mtu c = 20"
      "mock_tx (transport c) = []" "req_id_counter c = 1"
    by (simp add: client_start_def mock_ops_def client_new_def mock_new_def)
  have req: "build_environment_request pf ?env = ENVIRONMENT_TEE"
    using builders_pass(3) [OF assms] by (simp add: environment_request_bytes_def)
  then obtain d where d: "send_environment mock_ops pf ?env c = (Inr (), d)" "mock_tx (transport d) = frame_chunks c ?f"
    using c by (simp add: send_environment_def mock_send_request logged_def build_protobuf_request_def)
  have "pb_decode pf ENVIRONMENT_TEE = Inr \<lparr>env_alerts = None, env_monitor = Some (monitor_channel_default\<lparr>environment := Some
      \<lparr>air_temperature_c = None, relative_humidity = None, elevation_m = None, air_density_kg_m3 = None,
       settings_tee_distance_yd = Some 0x40133333\<rparr>\<rparr>)\<rparr>"
    using environment_read [OF assms, of ?env, unfolded req] by (simp add: environment_default_def)
  note env = this
  obtain fr where fr: "list_all (\<lambda>x. x \<noteq> [] \<and> hd x = 0) (mock_tx (transport d))" "mock_tx (transport d) \<noteq> []"
      "2 \<le> length (concat (map tl (mock_tx (transport d))))"
      "cobs_decode (subrange (concat (map tl (mock_tx (transport d)))) 1 (length (concat (map tl (mock_tx (transport d)))) - 1)) = Inr fr"
      "parse_frame fr = Inr \<lparr>msg_type = MSG_PROTOBUF_REQUEST, txn_id = None, payload = ?p\<rparr>"
      "parse_frag_header ?p = Inr (\<lparr>req_id = 1, offset = 0, total_len = word_of_nat (length ENVIRONMENT_TEE),
          chunk_size = word_of_nat (length ENVIRONMENT_TEE)\<rparr>, ENVIRONMENT_TEE)"
    by (rule environment_frame_sent [OF c(3), unfolded c(2), folded d(2)])
  show ?thesis
    unfolding client_sends_environment_def c(1) prod.case sum.case d(1) Let_def fr(4,5) expect_simps gfdi_frame.select_convs fr(6) env envelope.select_convs
    using fr(1-3) by simp
qed

lemma environment_result_test:
  assumes "speaks_protobuf pf"
  shows "client_handles_environment_result pf t0 t1"
proof -
  obtain c0 where c0: "registered_client pf t0 = Some c0" "between 1 WaitDeviceInfo [] c0" "last_state c0 = None"
      "recent_shots c0 = []"
    using registered by metis
  obtain c1 where c1: "feed pf t1 ENVIRONMENT_REJECTED c0 = (Inr (Some (EnvironmentReply False)), c1)"
    by (rule feed_event [OF c0(2) _ golden_sendable(2) fixtures_decode(2) [OF assms], where r = "Some (EnvironmentReply False)" and ls = None])
       (use c0 in \<open>auto simp: handle_envelope_event_def\<close>)
  then show ?thesis
    using replies_written(5)
    by (simp add: client_handles_environment_result_def c0(1) speaks_protobuf.encodes [OF assms] replied_def)
qed

subsection \<open>Conversion\<close>

text \<open>The library's \<open>sinf\<close> at twelve degrees to either side, and both functions at zero, correctly rounded.\<close>

definition convert_trig :: "platform \<Rightarrow> bool" where
  "convert_trig pf \<longleftrightarrow>
     cosf pf 0 = 0x3F800000 \<and> sinf pf 0 = 0 \<and> sinf pf 0x3E567750 = 0x3E54E6CE \<and> sinf pf 0xBE567750 = 0xBE54E6CE"

lemma convert_axes:
  "f32_to_radians 0x41400000 = 0x3E567750" "f32_to_radians 0xC1400000 = 0xBE567750"
  "f32_mul 0x453B8000 0x3E54E6CE = 0x441BEF0C" "f32_mul 0x453B8000 0xBE54E6CE = 0xC41BEF0C"
  "f32_mul 0 0x3F800000 = 0" "f32_mul 0 0 = 0"
  by (simp_all add: f32_to_radians_def f32_mul_def float_fields, simp_all add: float_pack)

lemma convert_rounds:
  "f32_round 0x452F0000 = 0x452F0000" "f32_round 0x452E5586 = 0x452E5000" "f32_round 0x4374093B = 0x43740000"
  "f32_round 0x441BEF0C = 0x441C0000" "f32_round 0xC41BEF0C = 0xC41C0000" "f32_round 0x453B8000 = 0x453B8000" "f32_round 0 = 0"
  by (simp_all add: f32_round_def float_fields, simp_all add: float_pack)

lemma convert_ints:
  "f32_to_i32 0x452F0000 = 2800" "f32_to_i32 0x452E5000 = 2789" "f32_to_i32 0x43740000 = 244" "f32_to_i32 0 = 0"
  "f32_to_i32 0x441C0000 = 624" "f32_to_i32 0xC41C0000 = - 624" "f32_to_i32 0x453B8000 = 3000"
  by (simp_all add: f32_to_i32_def f32_trunc_def f32_is_nan_def f32_is_inf_def float_fields)

lemma convert_wide:
  "f64_of_f32 0x40A00000 = 0x4014000000000000" "f64_of_f32 0x41400000 = 0x4028000000000000"
  "f64_of_f32 0xC1400000 = 0xC028000000000000"
  by (simp_all add: f64_of_f32_def f32_is_nan_def f32_is_inf_def float_fields Let_def bit_length.simps f64_pack_def)

lemma convert_tests:
  assumes "golden_trig pf" "convert_trig pf"
  shows "ball_flight_conversion pf" "spin_axis_sign_matches_sidespin pf" "zero_total_spin_sends_neither_total_nor_axis pf"
    "club_data_conversion"
  using assms
  by (simp_all add: ball_flight_conversion_def spin_axis_sign_matches_sidespin_def
      zero_total_spin_sends_neither_total_nor_axis_def club_data_conversion_def frp_ball_def frp_club_def test_ball_def Let_def
      golden_trig_def convert_trig_def golden_axes golden_spins convert_axes convert_rounds convert_ints convert_wide then_some_def)

subsection \<open>Properties\<close>

text \<open>C21: the model passes the crate's own tests of requests, decoding, client and conversion, and the golden tests that
  go through the client: for every protobuf
  library that speaks the wire format, trigonometry that is right at the angles of the tests, and any
  clock readings.\<close>

theorem client_tests_pass:
  assumes "speaks_protobuf pf" "golden_trig pf" "convert_trig pf"
  shows "subscribe_request_encodes pf \<and> wakeup_request_encodes pf \<and> environment_request_encodes_tee_distance pf \<and>
    environment_request_encodes_all_fields pf \<and> decode_environment_result pf \<and> decode_shot_metrics pf \<and>
    client_starts_registration \<and> client_handles_register_response pf t0 \<and> client_sends_environment pf \<and>
    client_handles_environment_result pf t0 t1 \<and>
    ball_flight_conversion pf \<and> spin_axis_sign_matches_sidespin pf \<and>
    zero_total_spin_sends_neither_total_nor_axis pf \<and> club_data_conversion \<and>
    client_decodes_fixture_frames pf t0 t1 t2 t3 t4 \<and> client_sends_builder_bytes pf t0"
  using fixtures_through_client [OF assms(1)] request_through_client [OF assms(1)] proto_request_tests [OF assms(1)] proto_environment_tests [OF assms(1)] proto_metrics_test [OF assms(2)]
    client_registration_tests environment_sent_test [OF assms(1)] environment_result_test [OF assms(1)]
    convert_tests [OF assms(2,3)]
  by blast

text \<open>A platform that is right at the angles of the golden tests and of these.\<close>

definition test_platform :: platform where
  "test_platform = wire_platform
     (\<lambda>x. if x = 0 then 0x3F800000 else cosf golden_platform x)
     (\<lambda>x. if x = 0x3E567750 then 0x3E54E6CE else if x = 0xBE567750 then 0xBE54E6CE else sinf golden_platform x)"

lemma test_platform_ok: "speaks_protobuf test_platform" "golden_trig test_platform" "convert_trig test_platform"
proof -
  show "speaks_protobuf test_platform" unfolding test_platform_def by (rule wire.speaks_protobuf_axioms)
  show "golden_trig test_platform" "convert_trig test_platform"
    by (simp_all add: test_platform_def golden_platform_def golden_trig_def convert_trig_def wire_platform_def)
qed

theorem client_tests_pass_witness:
  "decode_shot_metrics test_platform \<and> client_handles_environment_result test_platform 3 7 \<and>
   ball_flight_conversion test_platform \<and> spin_axis_sign_matches_sidespin test_platform"
  using client_tests_pass [OF test_platform_ok, of 3 7 8 9 10] by blast

end
