(* ===== verification/Client_Refinement.thy ===== *)
theory Client_Refinement
  imports Client_Session
begin

text \<open>
  An abstract session for the client of \<open>src/client.rs\<close>: what one message of the device means, as a table over
  the phase, with commands in place of frames and no transport, handle, MTU, buffers or request
  numbers. The refinement says that handling a frame does what the table says, and writes the frames of
  its commands, in order, numbered and cut into chunks.
\<close>

subsection \<open>The abstract session\<close>

record session =
  ses_phase :: phase
  ses_state :: "device_state option"
  ses_shots :: "(u32 \<times> nat) list"
  ses_queued :: "event option"

datatype command = Acknowledge u16 bytes | TellDeviceInfo | TellCapabilities | AskSubscribe | AskWake

definition start_over :: "phase \<Rightarrow> session \<Rightarrow> session" where
  "start_over p s = s\<lparr>ses_phase := p\<rparr>"

text \<open>The meaning of a protobuf message.\<close>

fun react :: "nat \<Rightarrow> envelope_event \<Rightarrow> session \<Rightarrow> event option \<times> session \<times> command list" where
  "react now (SubscribeResult ok) s =
     (Some (Subscribed ok),
      if ses_phase s = Subscribing then (start_over WakingUp s, [AskWake]) else (s, []))"
| "react now (WakeResult status) s =
     (Some (Woken status),
      s\<lparr>ses_phase := if ses_phase s = WakingUp then Active else ses_phase s,
        ses_state := if status = 1 then Some Waiting else ses_state s,
        ses_queued := if status = 1 then Some Ready else ses_queued s\<rparr>, [])"
| "react now (EnvironmentResult ok) s = (Some (EnvironmentReply ok), s, [])"
| "react now (StateChange st) s =
     (if ses_state s = Some st then None else if st = Waiting then Some Ready else Some (StateChanged st),
      s\<lparr>ses_state := Some st\<rparr>,
      if ses_state s \<noteq> Some st \<and> st = Standby \<and> ses_phase s = Active then [AskWake] else [])"
| "react now (ShotEvent shot) s =
     (let recent = filter (\<lambda>(_, t). secs_since now t < 60) (ses_shots s)
      in if shot_id shot \<in> fst ` set recent then (None, s\<lparr>ses_shots := recent\<rparr>, [])
         else (Some (Shot shot), s\<lparr>ses_shots := recent @ [(shot_id shot, now)]\<rparr>, []))"
| "react now (ErrorEvent e) s = (Some (DeviceError e), s, [])"
| "react now (LevelCheck verdict attempt) s = (None, s, [])"
| "react now MonitorReply s = (None, s, [])"
| "react now UnknownEnvelope s = (None, s, [])"

text \<open>The meaning of a frame.\<close>

definition receive ::
  "platform \<Rightarrow> nat \<Rightarrow> gfdi_frame \<Rightarrow> session \<Rightarrow> error + (event option \<times> session \<times> command list)" where
  "receive pf now f s =
     (let t = msg_type f; p = payload f in
      if t = MSG_DEVICE_INFO
      then (case parse_device_info p of Inl e \<Rightarrow> Inl e | Inr _ \<Rightarrow> Inr (None, start_over WaitCapabilities s, [TellDeviceInfo]))
      else if t = MSG_CONFIGURATION
      then Inr (None, start_over WaitCapabilitiesAck s, [Acknowledge MSG_CONFIGURATION [], TellCapabilities])
      else if t = MSG_ACK
      then (if length p < 3 then Inr (None, s, [])
            else if p ! 2 \<noteq> 0 then Inl (Nak (of_le16 (p ! 0) (p ! 1)) (p ! 2))
            else if of_le16 (p ! 0) (p ! 1) = MSG_CONFIGURATION \<and> ses_phase s = WaitCapabilitiesAck
            then Inr (Some HandshakeComplete, start_over Subscribing s, [AskSubscribe])
            else Inr (None, s, []))
      else if t \<in> {MSG_FIT_DEFINITION, MSG_FIT_DATA} then Inr (None, s, [Acknowledge t [0]])
      else if t \<in> {MSG_PROTOBUF_REQUEST, MSG_PROTOBUF_RESPONSE}
      then (case parse_frag_header p of
              Inl e \<Rightarrow> Inl e
            | Inr (_, pb) \<Rightarrow>
                (case decode_envelope pf pb of
                   Inl e \<Rightarrow> Inl (Protobuf e)
                 | Inr ev \<Rightarrow> (let (out, s, cmds) = react now ev s in Inr (out, s, cmds @ [Acknowledge t []]))))
      else Inr (None, s, []))"

subsection \<open>From commands to chunks\<close>

fun command_frames :: "platform \<Rightarrow> u16 \<Rightarrow> command list \<Rightarrow> bytes list" where
  "command_frames pf i [] = []"
| "command_frames pf i (Acknowledge t p # cmds) = build_ack t 0 p # command_frames pf i cmds"
| "command_frames pf i (TellDeviceInfo # cmds) = build_device_info_response # command_frames pf i cmds"
| "command_frames pf i (TellCapabilities # cmds) = build_host_capabilities # command_frames pf i cmds"
| "command_frames pf i (AskSubscribe # cmds) =
     build_protobuf_request i (build_subscribe_request pf) # command_frames pf (i + 1) cmds"
| "command_frames pf i (AskWake # cmds) =
     build_protobuf_request i (build_wakeup_request pf) # command_frames pf (i + 1) cmds"

definition session_of :: "'t client \<Rightarrow> session" where
  "session_of c =
     \<lparr>ses_phase = phase c, ses_state = last_state c, ses_shots = recent_shots c, ses_queued = pending_event c\<rparr>"

text \<open>\<open>c'\<close> is \<open>c\<close> after the session has become \<open>s\<close> and the commands have been carried out.\<close>

definition carried_out :: "platform \<Rightarrow> command list \<Rightarrow> session \<Rightarrow> mock_transport client \<Rightarrow> mock_transport client \<Rightarrow> bool" where
  "carried_out pf cmds s c c' \<longleftrightarrow>
     session_of c' = s \<and> handle c' = handle c \<and> mtu c' = mtu c \<and> stream_buf c' = stream_buf c \<and> read_buf c' = read_buf c \<and>
     mock_rx (transport c') = mock_rx (transport c) \<and>
     mock_tx (transport c') = mock_tx (transport c) @ concat (map (frame_chunks c) (command_frames pf (req_id_counter c) cmds))"

named_theorems refine_simps "sessions of clients"

lemma session_of_simps [refine_simps]:
  "session_of (c\<lparr>transport := t\<rparr>) = session_of c" "session_of (c\<lparr>req_id_counter := i\<rparr>) = session_of c"
  "session_of (logged cs c) = session_of c"
  "session_of (c\<lparr>phase := p\<rparr>) = (session_of c)\<lparr>ses_phase := p\<rparr>"
  "ses_phase (session_of c) = phase c" "ses_state (session_of c) = last_state c" "ses_shots (session_of c) = recent_shots c"
  by (simp_all add: session_of_def logged_def)

lemma carried_event:
  "\<exists>c'. handle_envelope_event mock_ops pf now ev c = (Inr (fst (react now ev (session_of c))), c') \<and>
     carried_out pf (snd (snd (react now ev (session_of c)))) (fst (snd (react now ev (session_of c)))) c c'"
proof (cases ev)
  case (SubscribeResult ok)
  then show ?thesis
    by (auto simp: handle_envelope_event_def request_defs mock_send_request carried_out_def refine_simps start_over_def
        frame_chunks_def)
next
  case (WakeResult st)
  then show ?thesis by (simp add: handle_envelope_event_def carried_out_def session_of_def Let_def)
next
  case (StateChange st)
  then show ?thesis
    by (auto simp: handle_envelope_event_def handle_state_change_def Let_def request_defs mock_send_request carried_out_def
        session_of_def frame_chunks_def)
next
  case (ShotEvent s)
  have "list_ex (\<lambda>(i, _). i = shot_id s) xs \<longleftrightarrow> shot_id s \<in> fst ` set xs" for xs :: "(u32 \<times> nat) list"
    by (force simp: list_ex_iff)
  then show ?thesis
    using ShotEvent
    by (simp add: handle_envelope_event_def handle_shot_def Let_def carried_out_def session_of_def SHOT_DEDUP_WINDOW_SECS_def)
qed (simp_all add: handle_envelope_event_def carried_out_def session_of_def)

lemma command_frames_snoc:
  "command_frames pf i (cmds @ [Acknowledge t p]) = command_frames pf i cmds @ [build_ack t 0 p]"
  by (induction pf i cmds rule: command_frames.induct) simp_all

lemma carried_acknowledged:
  assumes "carried_out pf cmds s c c'"
  shows "carried_out pf (cmds @ [Acknowledge t p]) s c (logged (frame_chunks c' (build_ack t 0 p)) c')"
  using assms frame_chunks_cong [of c' c]
  by (simp add: carried_out_def refine_simps command_frames_snoc)

lemma dispatch_carried:
  "case receive pf now f (session_of c) of
     Inl e \<Rightarrow> dispatch_frame mock_ops pf now f c = (Inl (Err e), c)
   | Inr (ev, s, cmds) \<Rightarrow> (\<exists>c'. dispatch_frame mock_ops pf now f c = (Inr ev, c') \<and> carried_out pf cmds s c c')"
proof -
  consider (info) "msg_type f = MSG_DEVICE_INFO" | (config) "msg_type f = MSG_CONFIGURATION" | (ack) "msg_type f = MSG_ACK"
    | (fit) "msg_type f \<in> {MSG_FIT_DEFINITION, MSG_FIT_DATA}"
    | (protobuf) "msg_type f \<in> {MSG_PROTOBUF_REQUEST, MSG_PROTOBUF_RESPONSE}"
    | (other) "msg_type f \<notin> {MSG_DEVICE_INFO, MSG_CONFIGURATION, MSG_ACK, MSG_FIT_DEFINITION, MSG_FIT_DATA,
        MSG_PROTOBUF_REQUEST, MSG_PROTOBUF_RESPONSE}"
    by blast
  then show ?thesis
  proof cases
    case info
    then show ?thesis
      by (cases "parse_device_info (payload f)")
         (simp_all add: receive_def dispatch_frame_def handle_device_info_def mock_send_frame carried_out_def refine_simps
           start_over_def)
  next
    case config
    then show ?thesis
      by (simp add: receive_def dispatch_frame_def msg_defs handle_configuration_def mock_send_frame mock_send_ack
          carried_out_def refine_simps start_over_def frame_chunks_def)
  next
    case ack
    then show ?thesis
      by (auto simp: receive_def dispatch_frame_def msg_defs handle_ack_def Let_def send_subscribe_def mock_send_request
          carried_out_def refine_simps start_over_def frame_chunks_def)
  next
    case fit
    then show ?thesis
      by (auto simp: receive_def dispatch_frame_def msg_defs mock_send_ack carried_out_def refine_simps)
  next
    case protobuf
    show ?thesis
    proof (cases "\<exists>h pb ev. parse_frag_header (payload f) = Inr (h, pb) \<and> decode_envelope pf pb = Inr ev")
      case True
      then obtain h pb ev where ev: "parse_frag_header (payload f) = Inr (h, pb)" "decode_envelope pf pb = Inr ev" by blast
      obtain out s cmds where react: "react now ev (session_of c) = (out, s, cmds)" by (metis surj_pair)
      have "receive pf now f (session_of c) = Inr (out, s, cmds @ [Acknowledge (msg_type f) []])"
        using protobuf ev react by (auto simp: receive_def msg_defs)
      moreover obtain c' where "handle_envelope_event mock_ops pf now ev c = (Inr out, c')" "carried_out pf cmds s c c'"
        using carried_event [of pf now ev c] react by auto
      ultimately show ?thesis
        using carried_acknowledged [of pf cmds s c c' "msg_type f" "[]"] ev
        by (simp add: dispatch_protobuf [OF protobuf] handle_protobuf_def mock_send_ack)
    next
      case False
      then show ?thesis
        using protobuf
        by (auto simp: dispatch_protobuf [OF protobuf] handle_protobuf_def receive_def msg_defs split: sum.splits prod.splits)
    qed
  next
    case other
    then show ?thesis by (simp add: receive_def dispatch_frame_def carried_out_def)
  qed
qed

subsection \<open>Properties\<close>

text \<open>C3: the client implements the abstract session: whatever frame arrives, in whatever state, handling it
  returns the session's error and changes nothing, or returns the session's event, moves the client to the
  session's next state and writes exactly the frames of the session's commands, in order, each cut into
  chunks with the client's handle and MTU; handle, MTU and buffers stay.\<close>

theorem client_implements_session:
  "case receive pf now f (session_of c) of
     Inl e \<Rightarrow> dispatch_frame mock_ops pf now f c = (Inl (Err e), c)
   | Inr (ev, s, cmds) \<Rightarrow>
       (\<exists>c'. dispatch_frame mock_ops pf now f c = (Inr ev, c') \<and>
          session_of c' = s \<and> handle c' = handle c \<and> mtu c' = mtu c \<and> stream_buf c' = stream_buf c \<and>
          read_buf c' = read_buf c \<and> mock_rx (transport c') = mock_rx (transport c) \<and>
          mock_tx (transport c') = mock_tx (transport c) @
            concat (map (\<lambda>fr. chunk_with_handle (wrap_cobs fr) (handle c) (mtu c))
              (command_frames pf (req_id_counter c) cmds)))"
  using dispatch_carried [of pf now f c] unfolding carried_out_def frame_chunks_def .

end
