(* ===== verification/Client_Stream.thy ===== *)
theory Client_Stream
  imports Client_Refinement Session_Properties "HOL-Library.Sublist"
begin

text \<open>
  The client of \<open>src/client.rs\<close> as a function of the byte stream: what comes out of enough polls depends on the
  bytes the device sent, not on how they were cut into notifications or how the polls fell. The stream is
  cut into frames by the scanner of \<open>Stream_Buffer\<close>, and each frame means what the abstract session of
  \<open>Client_Refinement\<close> says.
\<close>

subsection \<open>Playing a stream\<close>

text \<open>What comes out: errors and events, in order. A queued event comes out right after the event that queued
  it.\<close>

definition event_list :: "event option \<Rightarrow> (error + event) list" where
  "event_list ev = (case ev of None \<Rightarrow> [] | Some e \<Rightarrow> [Inr e])"

fun play :: "platform \<Rightarrow> (nat \<times> (error + gfdi_frame)) list \<Rightarrow> session \<Rightarrow> (error + event) list" where
  "play pf [] s = []"
| "play pf ((now, Inl e) # fs) s = Inl e # play pf fs s"
| "play pf ((now, Inr f) # fs) s =
     (case receive pf now f s of
        Inl e \<Rightarrow> Inl e # play pf fs s
      | Inr (ev, s', cmds) \<Rightarrow> event_list ev @ event_list (ses_queued s') @ play pf fs (s'\<lparr>ses_queued := None\<rparr>))"

fun outputs :: "(failure + event option) list \<Rightarrow> (error + event) list" where
  "outputs [] = []"
| "outputs (Inl (Err e) # rs) = Inl e # outputs rs"
| "outputs (Inl Panicked # rs) = outputs rs"
| "outputs (Inl Blocked # rs) = outputs rs"
| "outputs (Inr ev # rs) = event_list ev @ outputs rs"

text \<open>The stream a client still has to take in, and the segments in it.\<close>

definition stream_of :: "mock_transport client \<Rightarrow> bytes" where
  "stream_of c = buf (stream_buf c) @ concat (map tl (mock_rx (transport c)))"

definition segments_of :: "mock_transport client \<Rightarrow> bytes list" where
  "segments_of c = fst (scan_stream None (stream_of c))"

definition receiving :: "mock_transport client \<Rightarrow> bool" where
  "receiving c \<longleftrightarrow>
     phase c \<noteq> Registering \<and> length (read_buf c) = 512 \<and>
     list_all (\<lambda>x. x \<noteq> [] \<and> hd x = handle c \<and> length x \<le> 512) (mock_rx (transport c)) \<and>
     length (stream_of c) \<le> STREAM_BUFFER_MAX"

definition work_left :: "mock_transport client \<Rightarrow> nat" where
  "work_left c =
     length (mock_rx (transport c)) + 2 * length (segments_of c) + (if pending_event c = None then 0 else 1)"

subsection \<open>One poll\<close>

lemma poll_reads:
  assumes "receiving c" "pending_event c = None"
  obtains c1 where "client_poll mock_ops pf now c = process_frame mock_ops pf now c1"
    "receiving c1" "stream_of c1 = stream_of c" "mock_rx (transport c1) = tl (mock_rx (transport c))"
    "session_of c1 = session_of c" "handle c1 = handle c"
    "mock_rx (transport c) = [] \<Longrightarrow> c1 = c"
proof (cases "mock_rx (transport c)")
  case Nil
  then have "client_poll mock_ops pf now c = process_frame mock_ops pf now c"
    using assms by (simp add: client_poll_def mock_ops_def)
  then show thesis using that [of c] assms(1) Nil by simp
next
  case (Cons x rx)
  then obtain d where x: "x = handle c # d" "length x \<le> 512"
    using assms(1) by (cases x) (auto simp: receiving_def)
  obtain n b where copy: "copy_into x (read_buf c) = (n, b)" by fastforce
  have chunk: "take n b = x" using copy_into_read [OF copy] assms(1) x by (simp add: receiving_def)
  have len: "length b = 512" "n \<le> length b" using copy_into_bounds [OF copy] assms(1) by (simp_all add: receiving_def)
  have n: "n \<noteq> 0" using chunk x by (cases n) auto
  have fits: "stream_extend d (stream_buf c) = (Inr (), \<lparr>buf = buf (stream_buf c) @ d\<rparr>)"
    using assms(1) Cons x by (intro stream_fits) (simp add: receiving_def stream_of_def)
  let ?c1 = "c\<lparr>transport := (transport c)\<lparr>mock_rx := rx\<rparr>, read_buf := b, stream_buf := \<lparr>buf = buf (stream_buf c) @ d\<rparr>\<rparr>"
  have "client_poll mock_ops pf now c = process_frame mock_ops pf now ?c1"
    using assms Cons copy chunk len n fits x by (simp add: client_poll_def receiving_def mock_ops_def)
  moreover have "stream_of ?c1 = stream_of c" using Cons x by (simp add: stream_of_def)
  moreover from this have "receiving ?c1" using assms(1) Cons len by (simp add: receiving_def)
  ultimately show thesis using that [of ?c1] Cons by (simp add: session_of_def)
qed

lemma scan_same_front:
  "scan_stream None xs = scan_stream None ys \<Longrightarrow> scan_stream None (xs @ zs) = scan_stream None (ys @ zs)"
  by (simp add: scan_stream_append [of None])

lemma process_nothing:
  assumes "receiving c" "next_frame (stream_buf c) = (None, sb)"
  shows "\<exists>c'. process_frame mock_ops pf now c = (Inr None, c') \<and> receiving c' \<and> segments_of c' = segments_of c \<and>
    mock_rx (transport c') = mock_rx (transport c) \<and> session_of c' = session_of c \<and>
    (mock_rx (transport c) = [] \<longrightarrow> segments_of c = [])"
proof -
  have scan: "fst (scan_stream None (buf (stream_buf c))) = []"
      "scan_stream None (buf sb) = scan_stream None (buf (stream_buf c))"
    using next_frame_None_scan [OF assms(2)] by simp_all
  have short: "length (buf sb) \<le> length (buf (stream_buf c))" using next_frame_bound [of "stream_buf c"] assms(2) by simp
  let ?c' = "c\<lparr>stream_buf := sb\<rparr>"
  have "segments_of ?c' = segments_of c"
    using scan_same_front [OF scan(2)] by (simp add: segments_of_def stream_of_def)
  moreover have "receiving ?c'" using assms(1) short by (simp add: receiving_def stream_of_def)
  moreover have "process_frame mock_ops pf now c = (Inr None, ?c')" using assms(2) by (simp add: process_frame_def)
  ultimately show ?thesis using scan(1) by (auto simp: session_of_def segments_of_def stream_of_def)
qed

lemma process_segment:
  assumes c: "receiving c" and nf: "next_frame (stream_buf c) = (Some r, sb)"
  shows "\<exists>seg c' q. process_frame mock_ops pf now c = (q, c') \<and> r = parse_cobs_frame seg \<and>
    segments_of c = seg # segments_of c' \<and> receiving c' \<and> mock_rx (transport c') = mock_rx (transport c) \<and>
    (case r of
       Inl e \<Rightarrow> q = Inl (Err e) \<and> session_of c' = session_of c
     | Inr f \<Rightarrow>
         (case receive pf now f (session_of c) of
            Inl e \<Rightarrow> q = Inl (Err e) \<and> session_of c' = session_of c
          | Inr (ev, s, cmds) \<Rightarrow> q = Inr ev \<and> session_of c' = s))"
proof -
  obtain seg where seg: "r = parse_cobs_frame seg"
      "scan_stream None (buf (stream_buf c)) = (seg # fst (scan_stream None (buf sb)), snd (scan_stream None (buf sb)))"
    using next_frame_Some_scan [OF nf] by blast
  let ?d = "c\<lparr>stream_buf := sb\<rparr>"
  have short: "length (buf sb) \<le> length (buf (stream_buf c))" using next_frame_shrinks [OF nf] by simp
  have d: "receiving ?d" using c short by (simp add: receiving_def stream_of_def)
  have segs: "segments_of c = seg # segments_of ?d"
    using seg(2) by (simp add: segments_of_def stream_of_def scan_stream_append [of None] split_beta)
  have same: "session_of ?d = session_of c" by (simp add: session_of_def)
  show ?thesis
  proof (cases r)
    case (Inl e)
    then have "process_frame mock_ops pf now c = (Inl (Err e), ?d)" using nf by (simp add: process_frame_def)
    then show ?thesis using Inl seg segs d same by auto
  next
    case (Inr f)
    have proc: "process_frame mock_ops pf now c = dispatch_frame mock_ops pf now f ?d" using nf Inr by (simp add: process_frame_def)
    note carried = dispatch_carried [of pf now f ?d, unfolded same]
    show ?thesis
    proof (cases "receive pf now f (session_of c)")
      case (Inl e)
      then have "process_frame mock_ops pf now c = (Inl (Err e), ?d)" using carried proc by simp
      then show ?thesis using Inl \<open>r = Inr f\<close> seg segs d same by auto
    next
      case (Inr y)
      obtain ev s cmds where y: "y = (ev, s, cmds)" by (metis surj_pair)
      then obtain c' where c': "process_frame mock_ops pf now c = (Inr ev, c')" "carried_out pf cmds s ?d c'"
        using carried proc Inr by auto
      have "frame_effect now ?d (Inr ev, c')" using mock.dispatch_frame_effect [of now ?d pf f] c'(1) proc by simp
      then have "phase c' \<noteq> Registering"
        using d phase_step_Registering by (auto simp: frame_effect_def receiving_def)
      moreover have "stream_of c' = stream_of ?d" "session_of c' = s" "mock_rx (transport c') = mock_rx (transport c)"
        using c'(2) by (simp_all add: carried_out_def stream_of_def)
      ultimately have "receiving c' \<and> segments_of c' = segments_of ?d"
        using d c'(2) by (simp add: receiving_def segments_of_def carried_out_def)
      then show ?thesis
        using c'(1) y Inr \<open>r = Inr f\<close> seg(1) segs \<open>session_of c' = s\<close> \<open>mock_rx (transport c') = mock_rx (transport c)\<close>
        by auto
    qed
  qed
qed

subsection \<open>Any number of polls\<close>

definition frames_left :: "mock_transport client \<Rightarrow> (error + gfdi_frame) list" where
  "frames_left c = map parse_cobs_frame (segments_of c)"

definition idle_session :: "mock_transport client \<Rightarrow> session" where
  "idle_session c = (session_of c)\<lparr>ses_queued := None\<rparr>"

text \<open>One poll of a receiving client with nothing queued: it takes in a chunk at most, or plays a frame, or
  there was nothing left to do.\<close>

lemma poll_progress:
  assumes c: "receiving c" "pending_event c = None" and poll: "client_poll mock_ops pf now c = (q, c')"
  shows "receiving c' \<and>
    (q = Inr None \<and> segments_of c' = segments_of c \<and> session_of c' = session_of c \<and>
       (work_left c' < work_left c \<or> work_left c' = 0) \<or>
     (\<exists>r. frames_left c = r # frames_left c' \<and> work_left c' < work_left c \<and>
        (\<forall>fs. play pf ((now, r) # fs) (session_of c) =
           outputs [q] @ event_list (pending_event c') @ play pf fs (idle_session c'))))"
proof -
  obtain c1 where c1: "client_poll mock_ops pf now c = process_frame mock_ops pf now c1" "receiving c1"
      "stream_of c1 = stream_of c" "mock_rx (transport c1) = tl (mock_rx (transport c))" "session_of c1 = session_of c"
      "mock_rx (transport c) = [] \<Longrightarrow> c1 = c"
    using poll_reads [OF c] by metis
  have segs: "segments_of c1 = segments_of c" using c1(3) by (simp add: segments_of_def)
  have queued: "ses_queued (session_of x) = pending_event x" for x :: "mock_transport client" by (simp add: session_of_def)
  have none: "pending_event c1 = None" using c(2) arg_cong [OF c1(5), of ses_queued] by (simp add: queued)
  obtain r sb where nf: "next_frame (stream_buf c1) = (r, sb)" by fastforce
  show ?thesis
  proof (cases r)
    case None
    obtain d where d: "process_frame mock_ops pf now c1 = (Inr None, d)" "receiving d" "segments_of d = segments_of c1"
        "mock_rx (transport d) = mock_rx (transport c1)" "session_of d = session_of c1"
        "mock_rx (transport c1) = [] \<longrightarrow> segments_of c1 = []"
      using process_nothing [OF c1(2) nf [unfolded None]] by blast
    have "c' = d" "q = Inr None" using poll c1(1) d(1) by simp_all
    moreover have "pending_event d = None" using none arg_cong [OF d(5), of ses_queued] by (simp add: queued)
    ultimately show ?thesis
      using d segs c1 c(2) by (cases "mock_rx (transport c)") (auto simp: work_left_def)
  next
    case (Some x)
    obtain seg d p where d: "process_frame mock_ops pf now c1 = (p, d)" "x = parse_cobs_frame seg"
        "segments_of c1 = seg # segments_of d" "receiving d" "mock_rx (transport d) = mock_rx (transport c1)"
        "case x of
           Inl e \<Rightarrow> p = Inl (Err e) \<and> session_of d = session_of c1
         | Inr f \<Rightarrow>
             (case receive pf now f (session_of c1) of
                Inl e \<Rightarrow> p = Inl (Err e) \<and> session_of d = session_of c1
              | Inr (ev, s, cmds) \<Rightarrow> p = Inr ev \<and> session_of d = s)"
      using process_segment [OF c1(2) nf [unfolded Some], of pf now] by blast
    have eq: "c' = d" "q = p" using poll c1(1) d(1) by simp_all
    have quiet: "idle_session x = session_of x \<and> event_list (pending_event x) = []"
      if "ses_queued (session_of x) = None" for x :: "mock_transport client"
      using that by (simp add: idle_session_def queued event_list_def)
    have played: "play pf ((now, x) # fs) (session_of c) =
        outputs [q] @ event_list (pending_event c') @ play pf fs (idle_session c')" for fs
    proof (cases x)
      case (Inl e)
      then show ?thesis
        using d(6) eq c1(5) quiet [of d] none arg_cong [OF c1(5), of ses_queued] c(2) by (simp add: queued)
    next
      case (Inr f)
      show ?thesis
      proof (cases "receive pf now f (session_of c)")
        case (Inl e)
        then show ?thesis using d(6) eq c1(5) quiet [of d] c(2) \<open>x = Inr f\<close> by (simp add: queued)
      next
        case (Inr y)
        then show ?thesis
          using d(6) eq c1(5) \<open>x = Inr f\<close> by (auto simp: queued idle_session_def)
      qed
    qed
    have "frames_left c = x # frames_left c'" using d(2,3) eq segs by (simp add: frames_left_def)
    moreover have "work_left c' < work_left c"
      using d(3,5) eq segs c1(4) c(2) by (cases "mock_rx (transport c)") (simp_all add: work_left_def)
    ultimately show ?thesis using d(4) eq played by blast
  qed
qed

lemma polls_play:
  "receiving c \<Longrightarrow> work_left c \<le> length clocks \<Longrightarrow>
   \<exists>ts. subseq ts clocks \<and> length ts = length (frames_left c) \<and>
     outputs (map (\<lambda>(op, r, c). r) (client_run mock_ops pf (map Poll clocks) c)) =
       event_list (pending_event c) @ play pf (zip ts (frames_left c)) (idle_session c)"
proof (induction clocks arbitrary: c)
  case Nil
  then show ?case by (simp add: work_left_def frames_left_def event_list_def split: if_splits)
next
  case (Cons t clocks)
  obtain q c' where poll: "client_poll mock_ops pf t c = (q, c')" by fastforce
  have run: "outputs (map (\<lambda>(op, r, c). r) (client_run mock_ops pf (map Poll (t # clocks)) c)) =
      outputs [q] @ outputs (map (\<lambda>(op, r, c). r) (client_run mock_ops pf (map Poll clocks) c'))"
    by (cases q; cases "projl q") (simp_all add: poll)
  show ?case
  proof (cases "pending_event c")
    case (Some ev)
    then have c': "q = Inr (Some ev)" "c' = c\<lparr>pending_event := None\<rparr>" using poll by (simp_all add: client_poll_def)
    have "receiving c'" "segments_of c' = segments_of c" "idle_session c' = idle_session c"
      using Cons.prems(1) c' by (simp_all add: receiving_def stream_of_def segments_of_def idle_session_def session_of_def)
    moreover from this have "work_left c' \<le> length clocks" using Cons.prems(2) Some c' by (simp add: work_left_def)
    ultimately obtain ts where ts: "subseq ts clocks" "length ts = length (frames_left c)"
        "outputs (map (\<lambda>(op, r, c). r) (client_run mock_ops pf (map Poll clocks) c')) =
           play pf (zip ts (frames_left c)) (idle_session c)"
      using Cons.IH [of c'] c' by (auto simp: frames_left_def event_list_def)
    show ?thesis
      using ts Some c' unfolding run by (intro exI [of _ ts]) (auto simp: event_list_def)
  next
    case None
    have idle: "idle_session c = session_of c" using None by (simp add: idle_session_def session_of_def)
    note progress = poll_progress [OF Cons.prems(1) None poll]
    consider
      (idle) "receiving c'" "q = Inr None" "segments_of c' = segments_of c" "session_of c' = session_of c"
        "work_left c' < work_left c \<or> work_left c' = 0"
      | (frame) r where "receiving c'" "frames_left c = r # frames_left c'" "work_left c' < work_left c"
        "\<And>fs. play pf ((t, r) # fs) (session_of c) =
           outputs [q] @ event_list (pending_event c') @ play pf fs (idle_session c')"
      using conjunct1 [OF progress] conjunct2 [OF progress] by metis
    then show ?thesis
    proof cases
      case idle
      have "pending_event c' = None"
        using None arg_cong [OF idle(4), of ses_queued] by (simp add: session_of_def)
      moreover obtain ts where "subseq ts clocks" "length ts = length (frames_left c')"
        "outputs (map (\<lambda>(op, r, c). r) (client_run mock_ops pf (map Poll clocks) c')) =
           event_list (pending_event c') @ play pf (zip ts (frames_left c')) (idle_session c')"
        using Cons.IH [OF idle(1)] Cons.prems(2) idle(5) by auto
      ultimately show ?thesis
        unfolding run using None idle
        by (intro exI [of _ ts]) (auto simp: frames_left_def idle_session_def event_list_def)
    next
      case frame
      obtain ts where ts: "subseq ts clocks" "length ts = length (frames_left c')"
        "outputs (map (\<lambda>(op, r, c). r) (client_run mock_ops pf (map Poll clocks) c')) =
           event_list (pending_event c') @ play pf (zip ts (frames_left c')) (idle_session c')"
        using Cons.IH [OF frame(1)] Cons.prems(2) frame(3) by auto
      show ?thesis
        unfolding run idle using None ts frame(2,4)
        by (intro exI [of _ "t # ts"]) (simp add: event_list_def)
    qed
  qed
qed

subsection \<open>Properties\<close>

text \<open>C4: the events depend on the bytes only: from any registered client with valid buffers on the mock transport, when
  the device's notifications of at most 512 bytes carry the handle and at most 64 KB in all, then enough polls (one for each notification and two
  for each frame) give exactly what the frames of the joined byte stream mean in the abstract session, in
  order, whatever the cuts between the notifications; the clock of each frame is that of some poll.\<close>

theorem polls_play_the_stream:
  assumes "phase c \<noteq> Registering" "length (read_buf c) = 512" "pending_event c = None"
    and "list_all (\<lambda>x. x \<noteq> [] \<and> hd x = handle c \<and> length x \<le> 512) (mock_rx (transport c))"
    and "stream = buf (stream_buf c) @ concat (map tl (mock_rx (transport c)))" "length stream \<le> 65536"
    and "frames = map parse_cobs_frame (fst (scan_stream None stream))"
    and "length (mock_rx (transport c)) + 2 * length frames \<le> length clocks"
  shows "\<exists>ts. subseq ts clocks \<and> length ts = length frames \<and>
    outputs (map (\<lambda>(op, r, c). r) (client_run mock_ops pf (map Poll clocks) c)) =
      play pf (zip ts frames) (session_of c)"
proof -
  have "receiving c" "work_left c \<le> length clocks" "frames_left c = frames"
    using assms by (simp_all add: receiving_def stream_of_def work_left_def segments_of_def frames_left_def STREAM_BUFFER_MAX_def)
  moreover have "idle_session c = session_of c" using assms(3) by (simp add: idle_session_def session_of_def)
  ultimately show ?thesis using polls_play [of c clocks pf] assms(3) by (simp add: event_list_def)
qed

text \<open>A shot cut into two notifications, for a client that holds the handle.\<close>

definition demo_cut :: "mock_transport client" where
  "demo_cut = (client_new
     \<lparr>mock_rx = [6 # take 9 (tl (notification_of 6 (MSG_PROTOBUF_REQUEST, protobuf_payload 4 [4]))),
        6 # drop 9 (tl (notification_of 6 (MSG_PROTOBUF_REQUEST, protobuf_payload 4 [4])))],
      mock_tx = [], mock_reg_tx = []\<rparr> 20)\<lparr>phase := Active, handle := 6\<rparr>"

lemma notification_stream:
  assumes "sendable (mt, p)"
  shows "map parse_cobs_frame (fst (scan_stream None (tl (notification_of h (mt, p))))) =
    [Inr \<lparr>msg_type = mt, txn_id = None, payload = p\<rparr>]"
    and "length (tl (notification_of h (mt, p))) \<le> 258"
proof -
  show "map parse_cobs_frame (fst (scan_stream None (tl (notification_of h (mt, p))))) =
      [Inr \<lparr>msg_type = mt, txn_id = None, payload = p\<rparr>]"
    using next_frame_Some_scan [OF sent_frame_received [OF assms]] by (auto simp: notification_of_def)
  have "length (cobs_encode (build_frame mt p)) \<le> 256"
    using assms by (intro cobs_encode_length) (simp add: sendable_def)
  then show "length (tl (notification_of h (mt, p))) \<le> 258" by (simp add: notification_of_def wrap_cobs_def)
qed

lemma demo_received:
  "ses_shots s = [] \<Longrightarrow>
   receive demo_platform t \<lparr>msg_type = MSG_PROTOBUF_REQUEST, txn_id = None, payload = protobuf_payload 4 [4]\<rparr> s =
     Inr (Some (Shot demo_shot), s\<lparr>ses_shots := [(7, t)]\<rparr>, [Acknowledge MSG_PROTOBUF_REQUEST []])"
  unfolding receive_def by (simp add: msg_defs demo_payload demo_decodes demo_shot_def)

theorem polls_play_the_stream_witness:
  "outputs (map (\<lambda>(op, r, c). r) (client_run mock_ops demo_platform (map Poll [0, 1, 2, 3]) demo_cut)) =
     [Inr (Shot demo_shot)]"
proof -
  let ?f = "\<lparr>msg_type = MSG_PROTOBUF_REQUEST, txn_id = None, payload = protobuf_payload 4 [4]\<rparr>"
  let ?n = "tl (notification_of 6 (MSG_PROTOBUF_REQUEST, protobuf_payload 4 [4]))"
  have sent: "sendable (MSG_PROTOBUF_REQUEST, protobuf_payload 4 [4])" by (simp add: demo_facts)
  have "\<exists>ts. subseq ts [0, 1, 2, 3] \<and> length ts = length [Inr ?f :: error + gfdi_frame] \<and>
    outputs (map (\<lambda>(op, r, c). r) (client_run mock_ops demo_platform (map Poll [0, 1, 2, 3]) demo_cut)) =
      play demo_platform (zip ts [Inr ?f]) (session_of demo_cut)"
    using notification_stream [where h = 6, OF sent]
    by (intro polls_play_the_stream [where stream = ?n])
       (simp_all add: demo_cut_def client_new_def stream_new_def, linarith+)
  then obtain ts where ts: "length ts = 1"
    "outputs (map (\<lambda>(op, r, c). r) (client_run mock_ops demo_platform (map Poll [0, 1, 2, 3]) demo_cut)) =
      play demo_platform (zip ts [Inr ?f]) (session_of demo_cut)"
    by auto
  obtain t where "ts = [t]" using ts(1) by (cases ts) auto
  moreover have "play demo_platform [(t, Inr ?f)] (session_of demo_cut) = [Inr (Shot demo_shot)]"
    by (simp add: demo_received event_list_def demo_cut_def client_new_def session_of_def)
  ultimately show ?thesis using ts(2) by simp
qed
end
