(* ===== verification/Bluez.thy ===== *)
theory Bluez
  imports Transport "HOL-Library.Multiset"
begin

text \<open>
  \<open>src/bluez.rs\<close>: the Linux transport. The kernel's file descriptors, the D-Bus library and the clock are
  the fields of the record \<open>linux\<close>, functions on a world \<open>'w\<close>; what the code relies on of them is the
  predicate \<open>fd_contract\<close>. A D-Bus call is one function: creating the proxy, the call and reading the
  reply all fail with the same error \<open>DBus\<close>.
\<close>

named_theorems bluez_simps "the BlueZ transport"

type_synonym fd = int

datatype variant = VString string | VBool bool | VOther

type_synonym properties = "string \<rightharpoonup> variant"

text \<open>The reply of \<open>GetManagedObjects\<close>: the objects in the order the hash map yields them, each with the
  properties of its interfaces.\<close>

type_synonym managed_objects = "(string \<times> (string \<rightharpoonup> properties)) list"

datatype dbus_error = DBusError string

datatype bluez_error =
    DBus dbus_error
  | DeviceNotFound
  | ServicesTimeout
  | CharacteristicNotFound string
  | BlueZIo io_error

text \<open>\<open>sys_read fd count\<close> is \<open>read(2)\<close>: the bytes it put into the buffer, or the error in \<open>errno\<close>;
  \<open>sys_write\<close> is \<open>write(2)\<close> with the count it returned.\<close>

record 'w linux =
  sys_read :: "fd \<Rightarrow> nat \<Rightarrow> 'w \<Rightarrow> (io_error + bytes) \<times> 'w"
  sys_write :: "fd \<Rightarrow> bytes \<Rightarrow> 'w \<Rightarrow> (io_error + nat) \<times> 'w"
  sys_getfl :: "fd \<Rightarrow> 'w \<Rightarrow> (io_error + 32 word) \<times> 'w"
  sys_setfl :: "fd \<Rightarrow> 32 word \<Rightarrow> 'w \<Rightarrow> (io_error + unit) \<times> 'w"
  o_nonblock :: "32 word"
  thread_sleep :: "nat \<Rightarrow> 'w \<Rightarrow> 'w"
  dbus_system :: "'w \<Rightarrow> (dbus_error + unit) \<times> 'w"
  dbus_objects :: "'w \<Rightarrow> (dbus_error + managed_objects) \<times> 'w"
  dbus_get :: "string \<Rightarrow> string \<Rightarrow> string \<Rightarrow> 'w \<Rightarrow> (dbus_error + variant) \<times> 'w"
  dbus_call :: "string \<Rightarrow> string \<Rightarrow> string \<Rightarrow> 'w \<Rightarrow> (dbus_error + unit) \<times> 'w"
  dbus_acquire :: "string \<Rightarrow> string \<Rightarrow> string \<Rightarrow> 'w \<Rightarrow> (dbus_error + fd \<times> u16) \<times> 'w"

definition CHAR_2810_UUID :: string where
  "CHAR_2810_UUID = ''6a4e2810-667b-11e3-949a-0800200c9a66''"

definition CHAR_2820_UUID :: string where
  "CHAR_2820_UUID = ''6a4e2820-667b-11e3-949a-0800200c9a66''"

definition DEVICE_IFACE :: string where
  "DEVICE_IFACE = ''org.bluez.Device1''"

definition GATT_CHAR_IFACE :: string where
  "GATT_CHAR_IFACE = ''org.bluez.GattCharacteristic1''"

definition R10_DEVICE_NAME :: string where
  "R10_DEVICE_NAME = ''Approach R10''"

record 'w bluez_transport =
  notify_fd :: fd
  write_fd :: fd
  register_fd :: fd
  bluez_mtu :: u16
  bluez_address :: string
  world :: 'w

subsection \<open>Reading and writing\<close>

text \<open>The slice \<open>data[n..]\<close> panics when the kernel reports more than it was given; \<open>None\<close>: the loop never ends.\<close>

partial_function (option) write_all_fd ::
  "'w linux \<Rightarrow> fd \<Rightarrow> bytes \<Rightarrow> 'w \<Rightarrow> ((write_failure + unit) \<times> 'w) option" where
  "write_all_fd os fd data w =
     (if data = [] then Some (Inr (), w)
      else case sys_write os fd data w of
             (Inl e, w) \<Rightarrow> Some (Inl (WriteError e), w)
           | (Inr n, w) \<Rightarrow>
               (if length data < n then Some (Inl WritePanics, w) else write_all_fd os fd (drop n data) w))"

declare write_all_fd.simps [code]

definition bluez_read ::
  "'w linux \<Rightarrow> bytes \<Rightarrow> 'w bluez_transport \<Rightarrow> (io_error + nat) \<times> bytes \<times> 'w bluez_transport" where
  "bluez_read os b t =
     (case sys_read os (notify_fd t) (length b) (world t) of
        (Inl e, w) \<Rightarrow> (Inl e, b, t\<lparr>world := w\<rparr>)
      | (Inr data, w) \<Rightarrow> (Inr (length data), data @ drop (length data) b, t\<lparr>world := w\<rparr>))"

definition bluez_write ::
  "'w linux \<Rightarrow> bytes \<Rightarrow> 'w bluez_transport \<Rightarrow> (write_failure + unit) \<times> 'w bluez_transport" where
  "bluez_write os data t =
     (case write_all_fd os (write_fd t) data (world t) of
        None \<Rightarrow> (Inl WriteBlocks, t)
      | Some (r, w) \<Rightarrow> (r, t\<lparr>world := w\<rparr>))"

definition bluez_write_register ::
  "'w linux \<Rightarrow> bytes \<Rightarrow> 'w bluez_transport \<Rightarrow> (write_failure + unit) \<times> 'w bluez_transport" where
  "bluez_write_register os data t =
     (case write_all_fd os (register_fd t) data (world t) of
        None \<Rightarrow> (Inl WriteBlocks, t)
      | Some (r, w) \<Rightarrow> (r, t\<lparr>world := w\<rparr>))"

text \<open>As a \<open>Transport\<close>.\<close>

definition bluez_ops :: "'w linux \<Rightarrow> 'w bluez_transport transport_ops" where
  "bluez_ops os = \<lparr>t_read = bluez_read os, t_write = bluez_write os, t_write_register = bluez_write_register os\<rparr>"

subsection \<open>Finding and connecting the device\<close>

definition prop_str :: "properties \<Rightarrow> string \<Rightarrow> string option" where
  "prop_str props key = (case props key of Some (VString s) \<Rightarrow> Some s | _ \<Rightarrow> None)"

definition prop_bool :: "properties \<Rightarrow> string \<Rightarrow> bool" where
  "prop_bool props key = (props key = Some (VBool True))"

definition or_empty :: "string option \<Rightarrow> string" where
  "or_empty s = (case s of None \<Rightarrow> [] | Some s \<Rightarrow> s)"

fun find_device :: "managed_objects \<Rightarrow> (string \<times> string) option" where
  "find_device [] = None"
| "find_device ((path, interfaces) # objects) =
     (case interfaces DEVICE_IFACE of
        None \<Rightarrow> find_device objects
      | Some props \<Rightarrow>
          (if or_empty (prop_str props ''Name'') = R10_DEVICE_NAME \<and> prop_bool props ''Paired''
           then Some (path, or_empty (prop_str props ''Address''))
           else find_device objects))"

definition find_r10 :: "'w linux \<Rightarrow> 'w \<Rightarrow> (bluez_error + string \<times> string) \<times> 'w" where
  "find_r10 os w =
     (case dbus_objects os w of
        (Inl e, w) \<Rightarrow> (Inl (DBus e), w)
      | (Inr objects, w) \<Rightarrow>
          (case find_device objects of None \<Rightarrow> (Inl DeviceNotFound, w) | Some found \<Rightarrow> (Inr found, w)))"

definition address_from_path :: "string \<Rightarrow> string" where
  "address_from_path path =
     (let s = rev (takeWhile (\<lambda>c. c \<noteq> CHR ''/'') (rev path))
      in if take 4 s = ''dev_'' then map (\<lambda>c. if c = CHR ''_'' then CHR '':'' else c) (drop 4 s) else [])"

definition get_device_bool :: "'w linux \<Rightarrow> string \<Rightarrow> string \<Rightarrow> 'w \<Rightarrow> (bluez_error + bool) \<times> 'w" where
  "get_device_bool os path prop w =
     (case dbus_get os path DEVICE_IFACE prop w of
        (Inl e, w) \<Rightarrow> (Inl (DBus e), w)
      | (Inr v, w) \<Rightarrow> (Inr (v = VBool True), w))"

fun wait_for_services :: "nat \<Rightarrow> 'w linux \<Rightarrow> string \<Rightarrow> 'w \<Rightarrow> (bluez_error + unit) \<times> 'w" where
  "wait_for_services 0 os path w = (Inl ServicesTimeout, w)"
| "wait_for_services (Suc n) os path w =
     and_then (get_device_bool os path ''ServicesResolved'' w)
       (\<lambda>resolved w. if resolved then (Inr (), w) else wait_for_services n os path (thread_sleep os 100 w))"

definition ensure_connected :: "'w linux \<Rightarrow> string \<Rightarrow> 'w \<Rightarrow> (bluez_error + unit) \<times> 'w" where
  "ensure_connected os path w =
     and_then (get_device_bool os path ''Connected'' w)
       (\<lambda>connected w.
          if connected then wait_for_services 50 os path w
          else case dbus_call os path DEVICE_IFACE ''Connect'' w of
                 (Inl e, w) \<Rightarrow> (Inl (DBus e), w)
               | (Inr _, w) \<Rightarrow> wait_for_services 50 os path w)"

definition starts_with :: "string \<Rightarrow> string \<Rightarrow> bool" where
  "starts_with s p \<longleftrightarrow> take (length p) s = p"

text \<open>The body of the loop over the objects, with the two variables it fills.\<close>

definition scan_characteristic ::
  "string \<Rightarrow> string \<times> (string \<rightharpoonup> properties) \<Rightarrow> string option \<times> string option \<Rightarrow> string option \<times> string option" where
  "scan_characteristic device_path ob found =
     (let (path, interfaces) = ob; (path_2810, path_2820) = found
      in if \<not> starts_with path device_path then found
         else case interfaces GATT_CHAR_IFACE of
                None \<Rightarrow> found
              | Some props \<Rightarrow>
                  (case prop_str props ''UUID'' of
                     None \<Rightarrow> found
                   | Some uuid \<Rightarrow>
                       if eq_ignore_ascii_case uuid CHAR_2810_UUID then (Some path, path_2820)
                       else if eq_ignore_ascii_case uuid CHAR_2820_UUID then (path_2810, Some path)
                       else found))"

definition discover_characteristics ::
  "'w linux \<Rightarrow> string \<Rightarrow> 'w \<Rightarrow> (bluez_error + string \<times> string) \<times> 'w" where
  "discover_characteristics os device_path w =
     (case dbus_objects os w of
        (Inl e, w) \<Rightarrow> (Inl (DBus e), w)
      | (Inr objects, w) \<Rightarrow>
          (case fold (scan_characteristic device_path) objects (None, None) of
             (None, _) \<Rightarrow> (Inl (CharacteristicNotFound CHAR_2810_UUID), w)
           | (Some p, None) \<Rightarrow> (Inl (CharacteristicNotFound CHAR_2820_UUID), w)
           | (Some p, Some q) \<Rightarrow> (Inr (p, q), w)))"

definition acquire_fd :: "'w linux \<Rightarrow> string \<Rightarrow> string \<Rightarrow> 'w \<Rightarrow> (bluez_error + fd \<times> u16) \<times> 'w" where
  "acquire_fd os path m w =
     (case dbus_acquire os path GATT_CHAR_IFACE m w of (Inl e, w) \<Rightarrow> (Inl (DBus e), w) | (Inr r, w) \<Rightarrow> (Inr r, w))"

definition set_nonblocking :: "'w linux \<Rightarrow> fd \<Rightarrow> 'w \<Rightarrow> (bluez_error + unit) \<times> 'w" where
  "set_nonblocking os fd w =
     (case sys_getfl os fd w of
        (Inl e, w) \<Rightarrow> (Inl (BlueZIo e), w)
      | (Inr flags, w) \<Rightarrow>
          (case sys_setfl os fd (flags OR o_nonblock os) w of
             (Inl e, w) \<Rightarrow> (Inl (BlueZIo e), w)
           | (Inr _, w) \<Rightarrow> (Inr (), w)))"

definition acquire_fds :: "'w linux \<Rightarrow> string \<Rightarrow> string \<Rightarrow> 'w \<Rightarrow> (bluez_error + 'w bluez_transport) \<times> 'w" where
  "acquire_fds os device_path address w =
     and_then (discover_characteristics os device_path w) (\<lambda>(path_2810, path_2820) w.
     and_then (acquire_fd os path_2810 ''AcquireNotify'' w) (\<lambda>(nfd, notify_mtu) w.
     and_then (acquire_fd os path_2810 ''AcquireWrite'' w) (\<lambda>(rfd, _) w.
     and_then (acquire_fd os path_2820 ''AcquireWrite'' w) (\<lambda>(wfd, write_mtu) w.
     and_then (set_nonblocking os nfd w) (\<lambda>_ w.
       (Inr \<lparr>notify_fd = nfd, write_fd = wfd, register_fd = rfd, bluez_mtu = min notify_mtu write_mtu,
             bluez_address = address, world = w\<rparr>, w))))))"

definition bluez_auto_connect :: "'w linux \<Rightarrow> 'w \<Rightarrow> (bluez_error + 'w bluez_transport) \<times> 'w" where
  "bluez_auto_connect os w =
     (case dbus_system os w of
        (Inl e, w) \<Rightarrow> (Inl (DBus e), w)
      | (Inr _, w) \<Rightarrow>
          and_then (find_r10 os w) (\<lambda>(device_path, address) w.
          and_then (ensure_connected os device_path w) (\<lambda>_ w.
            acquire_fds os device_path address w)))"

definition bluez_connect :: "'w linux \<Rightarrow> string \<Rightarrow> 'w \<Rightarrow> (bluez_error + 'w bluez_transport) \<times> 'w" where
  "bluez_connect os device_path w =
     (case dbus_system os w of
        (Inl e, w) \<Rightarrow> (Inl (DBus e), w)
      | (Inr _, w) \<Rightarrow> acquire_fds os device_path (address_from_path device_path) w)"

subsection \<open>What the code relies on of the kernel\<close>

text \<open>\<open>read(2)\<close> gives no more than it was asked for, and \<open>write(2)\<close> of something takes at least one byte of it and
  no more than there are, or fails.\<close>

definition fd_contract :: "'w linux \<Rightarrow> bool" where
  "fd_contract os \<longleftrightarrow>
     (\<forall>fd n w data w'. sys_read os fd n w = (Inr data, w') \<longrightarrow> length data \<le> n) \<and>
     (\<forall>fd data w n w'. data \<noteq> [] \<longrightarrow> sys_write os fd data w = (Inr n, w') \<longrightarrow> 0 < n \<and> n \<le> length data)"

text \<open>More of the same, with the bytes: a write of something takes at least one byte of it, from the front, or fails taking none; \<open>log\<close> is what
  has been taken.\<close>

definition write_contract :: "'w linux \<Rightarrow> fd \<Rightarrow> ('w \<Rightarrow> bytes) \<Rightarrow> bool" where
  "write_contract os fd log \<longleftrightarrow>
     (\<forall>data w. data \<noteq> [] \<longrightarrow>
        (case sys_write os fd data w of
           (Inl e, w') \<Rightarrow> log w' = log w
         | (Inr n, w') \<Rightarrow> 0 < n \<and> n \<le> length data \<and> log w' = log w @ take n data))"

lemma bluez_read_bounds:
  assumes "fd_contract os" "bluez_read os b t = (r, b', t')"
  shows "length b' = length b" and "r = Inr n \<Longrightarrow> n \<le> length b"
  using assms unfolding bluez_read_def fd_contract_def
  by (cases "sys_read os (notify_fd t) (length b) (world t)"; cases "fst (sys_read os (notify_fd t) (length b) (world t))";
      fastforce)+

subsection \<open>Writing everything\<close>

lemma write_all_Cons:
  assumes "data \<noteq> []"
  shows "sys_write os fd data w = (Inl e, w1) \<Longrightarrow> write_all_fd os fd data w = Some (Inl (WriteError e), w1)"
    and "sys_write os fd data w = (Inr n, w1) \<Longrightarrow> n \<le> length data \<Longrightarrow>
      write_all_fd os fd data w = write_all_fd os fd (drop n data) w1"
    and "sys_write os fd data w = (Inr n, w1) \<Longrightarrow> length data < n \<Longrightarrow>
      write_all_fd os fd data w = Some (Inl WritePanics, w1)"
  using assms by (subst write_all_fd.simps; simp)+

lemma write_all_returns:
  assumes con: "fd_contract os"
  shows "\<exists>r w'. write_all_fd os fd data w = Some (r, w') \<and> returned r"
proof (induction data arbitrary: w rule: length_induct)
  case (1 data)
  show ?case
  proof (cases "data = []")
    case True
    then show ?thesis by (simp add: write_all_fd.simps)
  next
    case False
    obtain c w1 where wr: "sys_write os fd data w = (c, w1)" by fastforce
    show ?thesis
    proof (cases c)
      case (Inl e)
      have "write_all_fd os fd data w = Some (Inl (WriteError e), w1)"
        by (rule write_all_Cons(1) [OF False wr [unfolded Inl]])
      then show ?thesis by auto
    next
      case (Inr n)
      then have n: "0 < n" "n \<le> length data" using con False wr unfolding fd_contract_def by blast+
      then have "length (drop n data) < length data" using False by simp
      then show ?thesis using 1 write_all_Cons(2) [OF False wr [unfolded Inr] n(2)] by simp
    qed
  qed
qed

lemma bluez_contract:
  assumes "fd_contract os"
  shows "transport_contract (bluez_ops os)"
proof
  fix data and t :: "'a bluez_transport"
  show "returned (fst (t_write (bluez_ops os) data t))"
    using write_all_returns [OF assms, of "write_fd t" data "world t"] by (auto simp: bluez_ops_def bluez_write_def)
  show "returned (fst (t_write_register (bluez_ops os) data t))"
    using write_all_returns [OF assms, of "register_fd t" data "world t"]
    by (auto simp: bluez_ops_def bluez_write_register_def)
qed (use bluez_read_bounds [OF assms] in \<open>auto simp: bluez_ops_def\<close>)

lemma write_all_effect:
  assumes con: "write_contract os fd log"
  shows "\<exists>r w' k. write_all_fd os fd data w = Some (r, w') \<and> log w' = log w @ take k data \<and>
    (case r of Inr _ \<Rightarrow> k = length data | Inl (WriteError e) \<Rightarrow> k < length data | _ \<Rightarrow> False)"
proof (induction data arbitrary: w rule: length_induct)
  case (1 data)
  show ?case
  proof (cases "data = []")
    case True
    then show ?thesis by (simp add: write_all_fd.simps)
  next
    case False
    obtain c w1 where wr: "sys_write os fd data w = (c, w1)" by fastforce
    have step: "case c of Inl e \<Rightarrow> log w1 = log w
        | Inr n \<Rightarrow> 0 < n \<and> n \<le> length data \<and> log w1 = log w @ take n data"
      using con [unfolded write_contract_def, rule_format, OF False, of w] wr by (auto split: sum.splits)
    show ?thesis
    proof (cases c)
      case (Inl e)
      then have "write_all_fd os fd data w = Some (Inl (WriteError e), w1) \<and> log w1 = log w @ take 0 data \<and>
          0 < length data"
        using False wr step write_all_Cons(1) [OF False] by simp
      then show ?thesis by force
    next
      case (Inr n)
      then have n: "0 < n" "n \<le> length data" "log w1 = log w @ take n data" using step by simp_all
      have "length (drop n data) < length data" using n False by simp
      then obtain r w2 k where rest: "write_all_fd os fd (drop n data) w1 = Some (r, w2)"
          "log w2 = log w1 @ take k (drop n data)"
          "case r of Inr _ \<Rightarrow> k = length (drop n data) | Inl (WriteError e) \<Rightarrow> k < length (drop n data) | _ \<Rightarrow> False"
        using 1 by blast
      have "write_all_fd os fd data w = Some (r, w2)"
        using write_all_Cons(2) [OF False wr [unfolded Inr] n(2)] rest(1) by simp
      moreover have "log w2 = log w @ take (n + k) data" using rest(2) n by (simp add: take_add)
      moreover have "case r of Inr _ \<Rightarrow> n + k = length data | Inl (WriteError e) \<Rightarrow> n + k < length data | _ \<Rightarrow> False"
        using rest(3) n by (auto split: sum.splits write_failure.splits)
      ultimately show ?thesis by blast
    qed
  qed
qed

text \<open>A kernel that takes nothing and reports no error keeps the loop going for ever.\<close>

lemma write_all_stuck:
  assumes "\<And>w. sys_write os fd data w = (Inr 0, f w)" "data \<noteq> []"
  shows "write_all_fd os fd data w = None"
proof -
  have "os' = os \<longrightarrow> fd' = fd \<longrightarrow> d \<noteq> data" if "write_all_fd os' fd' d w = Some r" for os' fd' d w r
    by (rule write_all_fd.raw_induct [where P = "\<lambda>os' fd' d w r. os' = os \<longrightarrow> fd' = fd \<longrightarrow> d \<noteq> data", OF _ that])
       (use assms in \<open>fastforce split: if_splits\<close>)
  from this [of os fd data w] show ?thesis by (cases "write_all_fd os fd data w") auto
qed

subsection \<open>The order of the objects\<close>

definition is_r10_object :: "string \<times> (string \<rightharpoonup> properties) \<Rightarrow> bool" where
  "is_r10_object ob \<longleftrightarrow>
     (case snd ob DEVICE_IFACE of None \<Rightarrow> False
      | Some props \<Rightarrow> or_empty (prop_str props ''Name'') = R10_DEVICE_NAME \<and> prop_bool props ''Paired'')"

definition object_address :: "string \<times> (string \<rightharpoonup> properties) \<Rightarrow> string" where
  "object_address ob =
     (case snd ob DEVICE_IFACE of None \<Rightarrow> [] | Some props \<Rightarrow> or_empty (prop_str props ''Address''))"

lemma find_device_filter:
  "find_device objects =
     (case filter is_r10_object objects of [] \<Rightarrow> None | ob # _ \<Rightarrow> Some (fst ob, object_address ob))"
  by (induction objects rule: find_device.induct)
     (auto simp: is_r10_object_def object_address_def split: option.splits)

definition is_characteristic :: "string \<Rightarrow> string \<Rightarrow> string \<times> (string \<rightharpoonup> properties) \<Rightarrow> bool" where
  "is_characteristic device_path uuid ob \<longleftrightarrow>
     starts_with (fst ob) device_path \<and>
     (case Option.bind (snd ob GATT_CHAR_IFACE) (\<lambda>props. prop_str props ''UUID'') of
        None \<Rightarrow> False | Some u \<Rightarrow> eq_ignore_ascii_case u uuid)"

definition last_path :: "string option \<Rightarrow> (string \<times> 'a) list \<Rightarrow> string option" where
  "last_path d obs = (if obs = [] then d else Some (fst (last obs)))"

lemma uuids_differ: "eq_ignore_ascii_case u CHAR_2810_UUID \<Longrightarrow> \<not> eq_ignore_ascii_case u CHAR_2820_UUID"
proof -
  have "\<not> eq_ignore_ascii_case CHAR_2810_UUID CHAR_2820_UUID" by code_simp
  then show "eq_ignore_ascii_case u CHAR_2810_UUID \<Longrightarrow> \<not> eq_ignore_ascii_case u CHAR_2820_UUID"
    by (simp add: eq_ignore_ascii_case_def)
qed

lemma scan_characteristic_eq:
  "scan_characteristic dev ob (a, b) =
     (if is_characteristic dev CHAR_2810_UUID ob then Some (fst ob) else a,
      if is_characteristic dev CHAR_2820_UUID ob then Some (fst ob) else b)"
  using uuids_differ
  by (cases ob) (auto simp: scan_characteristic_def is_characteristic_def split: option.splits)

lemma fold_scan:
  "fold (scan_characteristic dev) objects (a, b) =
     (last_path a (filter (is_characteristic dev CHAR_2810_UUID) objects),
      last_path b (filter (is_characteristic dev CHAR_2820_UUID) objects))"
  by (induction objects arbitrary: a b) (simp_all add: scan_characteristic_eq last_path_def)

lemma filter_single_perm:
  assumes "mset xs = mset ys" "length (filter P xs) \<le> 1"
  shows "filter P ys = filter P xs"
proof -
  have eq: "mset (filter P ys) = mset (filter P xs)" using assms(1) by simp
  then have "length (filter P ys) = length (filter P xs)" by (metis size_mset)
  then show ?thesis
    using assms(2) eq by (cases "filter P xs"; cases "filter P ys") auto
qed

subsection \<open>How long connecting takes\<close>

definition clock_contract :: "'w linux \<Rightarrow> ('w \<Rightarrow> nat) \<Rightarrow> bool" where
  "clock_contract os clock \<longleftrightarrow>
     (\<forall>n w. clock (thread_sleep os n w) = clock w + n) \<and>
     (\<forall>p i q w. clock (snd (dbus_get os p i q w)) = clock w) \<and>
     (\<forall>p i m w. clock (snd (dbus_call os p i m w)) = clock w)"

lemma get_device_bool_clock:
  "clock_contract os clock \<Longrightarrow> clock (snd (get_device_bool os p q w)) = clock w"
  by (auto simp: get_device_bool_def clock_contract_def split: prod.splits sum.splits) (metis snd_conv)+

lemma get_device_bool_error: "get_device_bool os p q w = (Inl e, w') \<Longrightarrow> e \<noteq> ServicesTimeout"
  by (auto simp: get_device_bool_def split: prod.splits sum.splits)

lemma wait_clock:
  assumes "clock_contract os clock" "wait_for_services n os p w = (r, w')"
  shows "clock w' \<le> clock w + 100 * n \<and> (r = Inl ServicesTimeout \<longrightarrow> clock w' = clock w + 100 * n)"
  using assms(2)
proof (induction n arbitrary: w)
  case (Suc n)
  obtain g w1 where g: "get_device_bool os p ''ServicesResolved'' w = (g, w1)" by fastforce
  have c1: "clock w1 = clock w" using get_device_bool_clock [OF assms(1), of p _ w] g by (metis snd_conv)
  show ?case
  proof (cases "g = Inr False")
    case True
    then have "wait_for_services n os p (thread_sleep os 100 w1) = (r, w')" using Suc.prems g by simp
    from Suc.IH [OF this] show ?thesis
      using assms(1) c1 by (simp add: clock_contract_def)
  next
    case False
    then show ?thesis
      using Suc.prems g c1 get_device_bool_error [of os p _ w] by (cases g) (auto split: if_splits)
  qed
qed simp

subsection \<open>A kernel and a bus to run on in the witnesses\<close>

text \<open>The world is what has been written and the time; the kernel takes three bytes at a time, reading gives
  end of file, and the bus has one paired R10 whose services are resolved after 200 ms.\<close>

definition demo_objects :: managed_objects where
  "demo_objects =
     [(''/hci0'', Map.empty),
      (''/hci0/dev_F5_D1'', [DEVICE_IFACE \<mapsto> [''Name'' \<mapsto> VString ''Approach R10'', ''Paired'' \<mapsto> VBool True,
          ''Address'' \<mapsto> VString ''F5:D1'']]),
      (''/hci0/dev_F5_D1/c1'', [GATT_CHAR_IFACE \<mapsto> [''UUID'' \<mapsto> VString CHAR_2810_UUID]]),
      (''/hci0/dev_F5_D1/c2'', [GATT_CHAR_IFACE \<mapsto> [''UUID'' \<mapsto> VString CHAR_2820_UUID]])]"

definition demo_linux :: "(bytes \<times> nat) linux" where
  "demo_linux =
     \<lparr>sys_read = (\<lambda>fd n w. (Inr [], w)),
      sys_write = (\<lambda>fd data (log, t). (Inr (min 3 (length data)), log @ take 3 data, t)),
      sys_getfl = (\<lambda>fd w. (Inr 2, w)), sys_setfl = (\<lambda>fd fl w. (Inr (), w)), o_nonblock = 2048,
      thread_sleep = (\<lambda>n (log, t). (log, t + n)),
      dbus_system = (\<lambda>w. (Inr (), w)), dbus_objects = (\<lambda>w. (Inr demo_objects, w)),
      dbus_get = (\<lambda>p i q w. (Inr (VBool (200 \<le> snd w)), w)),
      dbus_call = (\<lambda>p i m w. (Inr (), w)), dbus_acquire = (\<lambda>p i m w. (Inr (5, 23), w))\<rparr>"

lemma demo_linux_contracts:
  "fd_contract demo_linux" "write_contract demo_linux fd fst" "clock_contract demo_linux snd"
  by (auto simp: fd_contract_def write_contract_def clock_contract_def demo_linux_def min_def)

subsection \<open>Properties\<close>

text \<open>C28: writing to a descriptor returns without a panic, whatever the sizes of the short writes: the kernel has then taken all
  of the data in order when the result is \<open>Ok\<close>, and a proper prefix of it when it is an error.\<close>

theorem write_all_fd_returns:
  assumes "write_contract os fd log"
  shows "\<exists>r w' k. write_all_fd os fd data w = Some (r, w') \<and> log w' = log w @ take k data \<and>
    (case r of Inr _ \<Rightarrow> k = length data | Inl (WriteError e) \<Rightarrow> k < length data | _ \<Rightarrow> False)"
  by (rule write_all_effect [OF assms])

theorem write_all_fd_returns_witness:
  "write_all_fd demo_linux 5 [1, 2, 3, 4, 5, 6, 7] ([9], 0) = Some (Inr (), [9, 1, 2, 3, 4, 5, 6, 7], 0) \<and>
   (\<exists>r w' k. write_all_fd demo_linux 5 [1, 2, 3, 4, 5, 6, 7] ([9], 0) = Some (r, w') \<and>
      fst w' = [9] @ take k [1, 2, 3, 4, 5, 6, 7])"
proof
  show "write_all_fd demo_linux 5 [1, 2, 3, 4, 5, 6, 7] ([9], 0) = Some (Inr (), [9, 1, 2, 3, 4, 5, 6, 7], 0)"
    by (simp add: write_all_fd.simps demo_linux_def)
  show "\<exists>r w' k. write_all_fd demo_linux 5 [1, 2, 3, 4, 5, 6, 7] ([9], 0) = Some (r, w') \<and>
      fst w' = [9] @ take k [1, 2, 3, 4, 5, 6, 7]"
    using write_all_fd_returns [OF demo_linux_contracts(2), of 5 "[1, 2, 3, 4, 5, 6, 7]" "([9], 0)"] by auto
qed

text \<open>The hash map's order does not matter: with one R10 paired and one object for each characteristic
  under it, finding the device and its characteristics gives the same for any order of the objects.\<close>

theorem object_order_irrelevant:
  assumes "mset objects = mset objects'" "length (filter is_r10_object objects) \<le> 1"
    and "length (filter (is_characteristic dev CHAR_2810_UUID) objects) \<le> 1"
    and "length (filter (is_characteristic dev CHAR_2820_UUID) objects) \<le> 1"
  shows "find_device objects' = find_device objects \<and>
    fold (scan_characteristic dev) objects' (None, None) = fold (scan_characteristic dev) objects (None, None)"
  using assms by (simp add: find_device_filter fold_scan filter_single_perm [OF assms(1)])

theorem object_order_irrelevant_witness:
  "find_device (rev demo_objects) = Some (''/hci0/dev_F5_D1'', ''F5:D1'') \<and>
   fold (scan_characteristic ''/hci0/dev_F5_D1'') (rev demo_objects) (None, None) =
     (Some ''/hci0/dev_F5_D1/c1'', Some ''/hci0/dev_F5_D1/c2'')"
proof -
  have "length (filter is_r10_object demo_objects) \<le> 1"
    "length (filter (is_characteristic ''/hci0/dev_F5_D1'' CHAR_2810_UUID) demo_objects) \<le> 1"
    "length (filter (is_characteristic ''/hci0/dev_F5_D1'' CHAR_2820_UUID) demo_objects) \<le> 1"
    by code_simp+
  moreover have "mset demo_objects = mset (rev demo_objects)" by simp
  moreover have "find_device demo_objects = Some (''/hci0/dev_F5_D1'', ''F5:D1'')"
    "fold (scan_characteristic ''/hci0/dev_F5_D1'') demo_objects (None, None) =
     (Some ''/hci0/dev_F5_D1/c1'', Some ''/hci0/dev_F5_D1/c2'')"
    by code_simp+
  ultimately show ?thesis
    using object_order_irrelevant [of demo_objects "rev demo_objects" "''/hci0/dev_F5_D1''"] by simp
qed

text \<open>Connecting waits at most five seconds, and gives up only after all of them.\<close>

theorem connecting_waits_five_seconds:
  assumes "clock_contract os clock" "ensure_connected os path w = (r, w')"
  shows "clock w' \<le> clock w + 5000 \<and> (if r = Inl ServicesTimeout then clock w' = clock w + 5000 else True)"
proof -
  obtain g w1 where g: "get_device_bool os path ''Connected'' w = (g, w1)" by fastforce
  have c1: "clock w1 = clock w" using get_device_bool_clock [OF assms(1), of path _ w] g by (metis snd_conv)
  obtain d w2 where d: "dbus_call os path DEVICE_IFACE ''Connect'' w1 = (d, w2)" by fastforce
  have c2: "clock w2 = clock w1" using assms(1) d unfolding clock_contract_def by (metis snd_conv)
  have wait: "wait_for_services 50 os path v = (r, w') \<Longrightarrow> clock v = clock w \<Longrightarrow> ?thesis" for v
    using wait_clock [OF assms(1), of 50 path v r w'] by simp
  show ?thesis
  proof (cases g)
    case (Inl e)
    then show ?thesis
      using assms(2) g c1 get_device_bool_error [of os path "''Connected''" w e w1] by (auto simp: ensure_connected_def)
  next
    case (Inr connected)
    then show ?thesis
      using assms(2) g d c1 c2 wait
      by (cases d) (auto simp: ensure_connected_def split: if_splits simp del: wait_for_services.simps)
  qed
qed

theorem connecting_waits_five_seconds_witness:
  "ensure_connected demo_linux ''/hci0/dev_F5_D1'' ([], 0) = (Inr (), [], 200) \<and>
   snd (snd (ensure_connected demo_linux ''/hci0/dev_F5_D1'' ([], 0))) \<le> 0 + 5000"
proof -
  have "ensure_connected demo_linux ''/hci0/dev_F5_D1'' ([], 0) = (Inr (), [], 200)"
    by (simp add: ensure_connected_def get_device_bool_def demo_linux_def numeral_eq_Suc)
  then show ?thesis using connecting_waits_five_seconds [OF demo_linux_contracts(3)] by fastforce
qed

end
