(* ===== verification/Btleplug.thy ===== *)
theory Btleplug
  imports Transport
begin

text \<open>
  \<open>src/btleplug.rs\<close>: the transport over the btleplug library. A background task moves notifications and
  writes between two channels and the peripheral. The model is one state for both threads; the
  foreground's calls and the turns of the background's \<open>select!\<close> are its steps, taken in any order. Device
  discovery runs on the library's operations, the fields of the record \<open>radio\<close>, over a world \<open>'w\<close>.
\<close>

named_theorems bt_simps "the btleplug transport"

definition BT_CHAR_2810 :: u128 where
  "BT_CHAR_2810 = 0x6a4e2810667b11e3949a0800200c9a66"

definition BT_CHAR_2820 :: u128 where
  "BT_CHAR_2820 = 0x6a4e2820667b11e3949a0800200c9a66"

definition BT_R10_DEVICE_NAME :: string where
  "BT_R10_DEVICE_NAME = ''Approach R10''"

definition GARMIN_MANUFACTURER_ID :: u16 where
  "GARMIN_MANUFACTURER_ID = 0x0087"

definition WRITE_CHANNEL_CAP :: nat where
  "WRITE_CHANNEL_CAP = 32"

datatype write_cmd = Data bytes | Register bytes

datatype write_type = WithoutResponse | WithResponse

subsection \<open>The two threads\<close>

text \<open>\<open>notify_queue\<close> and \<open>write_queue\<close> are the channels, \<open>alive\<close> says that the background task runs and
  holds its ends of them, \<open>foreground\<close> that the transport holds its own. \<open>stream\<close> is the notification
  stream, \<open>in_flight\<close> the command whose write the task awaits, and \<open>sent\<close> what has been written to the
  peripheral: characteristic, bytes and kind of write.\<close>

datatype stream_state = Opening | Open | Ended

record bt_link =
  notify_queue :: "bytes list"
  write_queue :: "write_cmd list"
  in_flight :: "write_cmd option"
  alive :: bool
  foreground :: bool
  stream :: stream_state
  sent :: "(u128 \<times> bytes \<times> write_type) list"

text \<open>\<open>start_background\<close> once the peripheral is set up.\<close>

definition bt_start :: bt_link where
  "bt_start =
     \<lparr>notify_queue = [], write_queue = [], in_flight = None, alive = True, foreground = True, stream = Opening,
      sent = []\<rparr>"

definition bt_read :: "bytes \<Rightarrow> bt_link \<Rightarrow> (io_error + nat) \<times> bytes \<times> bt_link" where
  "bt_read b l =
     (case notify_queue l of
        data # rest \<Rightarrow> (let (n, b') = copy_into data b in (Inr n, b', l\<lparr>notify_queue := rest\<rparr>))
      | [] \<Rightarrow> (if alive l then (Inl (IoError WouldBlock), b, l) else (Inl (IoError BrokenPipe), b, l)))"

text \<open>\<open>blocking_send\<close>: \<open>None\<close> while the thread waits for room.\<close>

definition bt_send :: "write_cmd \<Rightarrow> bt_link \<Rightarrow> ((io_error + unit) \<times> bt_link) option" where
  "bt_send cmd l =
     (if \<not> alive l then Some (Inl (IoError BrokenPipe), l)
      else if length (write_queue l) < WRITE_CHANNEL_CAP
      then Some (Inr (), l\<lparr>write_queue := write_queue l @ [cmd]\<rparr>)
      else None)"

definition bt_write :: "bytes \<Rightarrow> bt_link \<Rightarrow> ((io_error + unit) \<times> bt_link) option" where
  "bt_write data l = bt_send (Data data) l"

definition bt_write_register :: "bytes \<Rightarrow> bt_link \<Rightarrow> ((io_error + unit) \<times> bt_link) option" where
  "bt_write_register data l = bt_send (Register data) l"

text \<open>The transport is dropped, and with it the foreground's ends of the channels.\<close>

definition bt_drop :: "bt_link \<Rightarrow> bt_link" where
  "bt_drop l = l\<lparr>foreground := False, notify_queue := []\<rparr>"

text \<open>The task returns: its ends of the channels are dropped, and with them the commands still queued.\<close>

definition bt_exit :: "bt_link \<Rightarrow> bt_link" where
  "bt_exit l = l\<lparr>alive := False, write_queue := [], in_flight := None\<rparr>"

fun write_target :: "write_cmd \<Rightarrow> u128 \<times> bytes \<times> write_type" where
  "write_target (Data data) = (BT_CHAR_2820, data, WithoutResponse)"
| "write_target (Register data) = (BT_CHAR_2810, data, WithResponse)"

text \<open>The turns of the task: the result of asking for the notifications; a branch of \<open>select!\<close>, that is a
  notification, the end of the stream (its branch is then disabled for good), taking the first queued
  command, or \<open>else\<close>; and the result of the write it awaits. \<open>None\<close>: not possible now.\<close>

datatype bt_turn = StreamOpened bool | Notified u128 bytes | StreamEnded | WriteTaken | WriteDone bool | NoBranch

definition selecting :: "bt_link \<Rightarrow> bool" where
  "selecting l \<longleftrightarrow> alive l \<and> stream l \<noteq> Opening \<and> in_flight l = None"

fun background_turn :: "bt_turn \<Rightarrow> bt_link \<Rightarrow> bt_link option" where
  "background_turn (StreamOpened ok) l =
     (if alive l \<and> stream l = Opening then Some (if ok then l\<lparr>stream := Open\<rparr> else bt_exit l) else None)"
| "background_turn (Notified uuid value) l =
     (if \<not> selecting l \<or> stream l \<noteq> Open then None
      else if uuid = BT_CHAR_2810
      then Some (if foreground l then l\<lparr>notify_queue := notify_queue l @ [value]\<rparr> else bt_exit l)
      else Some l)"
| "background_turn StreamEnded l = (if selecting l \<and> stream l = Open then Some (l\<lparr>stream := Ended\<rparr>) else None)"
| "background_turn WriteTaken l =
     (case write_queue l of
        [] \<Rightarrow> None
      | cmd # rest \<Rightarrow> (if selecting l then Some (l\<lparr>write_queue := rest, in_flight := Some cmd\<rparr>) else None))"
| "background_turn (WriteDone ok) l =
     (case in_flight l of
        None \<Rightarrow> None
      | Some cmd \<Rightarrow>
          (if \<not> alive l then None
           else if ok then Some (l\<lparr>in_flight := None, sent := sent l @ [write_target cmd]\<rparr>)
           else Some (bt_exit l)))"
| "background_turn NoBranch l =
     (if selecting l \<and> stream l = Ended \<and> write_queue l = [] \<and> \<not> foreground l then Some (bt_exit l) else None)"

text \<open>As a \<open>Transport\<close>: \<open>bg\<close> is what the background did since the last call, and, for a write, until there
  is room; when there is still none then, the write waits for ever.\<close>

definition bt_blocking :: "bt_link \<Rightarrow> ((io_error + unit) \<times> bt_link) option \<Rightarrow> (write_failure + unit) \<times> bt_link" where
  "bt_blocking l r =
     (case r of
        None \<Rightarrow> (Inl WriteBlocks, l)
      | Some (Inl e, l) \<Rightarrow> (Inl (WriteError e), l)
      | Some (Inr u, l) \<Rightarrow> (Inr u, l))"

definition bt_ops :: "(bt_link \<Rightarrow> bt_link) \<Rightarrow> bt_link transport_ops" where
  "bt_ops bg =
     \<lparr>t_read = (\<lambda>b l. bt_read b (bg l)),
      t_write = (\<lambda>data l. bt_blocking (bg l) (bt_write data (bg l))),
      t_write_register = (\<lambda>data l. bt_blocking (bg l) (bt_write_register data (bg l)))\<rparr>"

text \<open>What a write relies on: the background leaves room in the channel while it runs.\<close>

definition makes_room :: "(bt_link \<Rightarrow> bt_link) \<Rightarrow> bool" where
  "makes_room bg \<longleftrightarrow> (\<forall>l. alive (bg l) \<longrightarrow> length (write_queue (bg l)) < WRITE_CHANNEL_CAP)"

lemma bt_read_bounds:
  assumes "bt_read b l = (r, b', l')"
  shows "length b' = length b" and "r = Inr n \<Longrightarrow> n \<le> length b"
  using assms by (auto simp: bt_read_def copy_into_bounds split: list.splits prod.splits if_splits)

lemma bt_contract:
  assumes "makes_room bg"
  shows "transport_contract (bt_ops bg)"
proof
  fix data l
  show "returned (fst (t_write (bt_ops bg) data l))" "returned (fst (t_write_register (bt_ops bg) data l))"
    using assms by (auto simp: makes_room_def bt_ops_def bt_blocking_def bt_write_def bt_write_register_def bt_send_def)
qed (auto simp: bt_ops_def dest: bt_read_bounds)

text \<open>A background that always catches up: it opens the stream, finishes the write it awaits and writes all that
  is queued.\<close>

definition outstanding :: "bt_link \<Rightarrow> write_cmd list" where
  "outstanding l = case_option [] (\<lambda>c. [c]) (in_flight l) @ write_queue l"

definition bt_serve :: "bt_link \<Rightarrow> bt_link" where
  "bt_serve l =
     (if alive l
      then l\<lparr>stream := (if stream l = Opening then Open else stream l), in_flight := None, write_queue := [],
             sent := sent l @ map write_target (outstanding l)\<rparr>
      else l)"

lemma bt_serve_room: "makes_room bt_serve"
  by (simp add: makes_room_def bt_serve_def WRITE_CHANNEL_CAP_def)

interpretation bt: transport_contract "bt_ops bt_serve"
  by (rule bt_contract [OF bt_serve_room])

subsection \<open>Discovery\<close>

datatype radio_error = RadioError string

datatype btleplug_error =
    BtError radio_error
  | NoAdapter
  | BtDeviceNotFound
  | BtCharacteristicNotFound string
  | Runtime string
  | BtIo io_error

record peripheral_properties =
  local_name :: "string option"
  manufacturer_data :: "u16 \<rightharpoonup> bytes"

text \<open>The library: the runtime's creation, the manager with its adapters, scanning, the cached peripherals, and
  of a peripheral its properties, its id as a string, connecting, services, characteristics (by uuid)
  and subscribing to one.\<close>

record ('a, 'p, 'w) radio =
  runtime_new :: "'w \<Rightarrow> (string + unit) \<times> 'w"
  radio_adapters :: "'w \<Rightarrow> (radio_error + 'a list) \<times> 'w"
  radio_start_scan :: "'a \<Rightarrow> 'w \<Rightarrow> (radio_error + unit) \<times> 'w"
  radio_stop_scan :: "'a \<Rightarrow> 'w \<Rightarrow> (radio_error + unit) \<times> 'w"
  radio_peripherals :: "'a \<Rightarrow> 'w \<Rightarrow> (radio_error + 'p list) \<times> 'w"
  radio_properties :: "'p \<Rightarrow> 'w \<Rightarrow> (radio_error + peripheral_properties option) \<times> 'w"
  radio_id :: "'p \<Rightarrow> string"
  radio_connect :: "'p \<Rightarrow> 'w \<Rightarrow> (radio_error + unit) \<times> 'w"
  radio_discover_services :: "'p \<Rightarrow> 'w \<Rightarrow> (radio_error + unit) \<times> 'w"
  radio_characteristics :: "'p \<Rightarrow> 'w \<Rightarrow> u128 list"
  radio_subscribe :: "'p \<Rightarrow> u128 \<Rightarrow> 'w \<Rightarrow> (radio_error + unit) \<times> 'w"
  radio_sleep :: "nat \<Rightarrow> 'w \<Rightarrow> 'w"

text \<open>\<open>?\<close> on a library call.\<close>

definition bt_try :: "(radio_error + 'x) \<times> 'w \<Rightarrow> ('x \<Rightarrow> 'w \<Rightarrow> (btleplug_error + 'y) \<times> 'w) \<Rightarrow> (btleplug_error + 'y) \<times> 'w" where
  "bt_try r k = (case r of (Inl e, w) \<Rightarrow> (Inl (BtError e), w) | (Inr x, w) \<Rightarrow> k x w)"

definition get_adapter :: "('a, 'p, 'w) radio \<Rightarrow> 'w \<Rightarrow> (btleplug_error + 'a) \<times> 'w" where
  "get_adapter rd w =
     bt_try (radio_adapters rd w) (\<lambda>adapters w. case adapters of [] \<Rightarrow> (Inl NoAdapter, w) | a # _ \<Rightarrow> (Inr a, w))"

definition is_r10 :: "('a, 'p, 'w) radio \<Rightarrow> 'p \<Rightarrow> 'w \<Rightarrow> bool \<times> 'w" where
  "is_r10 rd p w =
     (case radio_properties rd p w of
        (Inr (Some props), w) \<Rightarrow>
          (local_name props = Some BT_R10_DEVICE_NAME \<or> manufacturer_data props GARMIN_MANUFACTURER_ID \<noteq> None, w)
      | (_, w) \<Rightarrow> (False, w))"

text \<open>The first call of \<open>properties\<close> of each round only serves the printed line.\<close>

fun connect_first_r10 :: "('a, 'p, 'w) radio \<Rightarrow> 'p list \<Rightarrow> 'w \<Rightarrow> (btleplug_error + 'p \<times> string) \<times> 'w" where
  "connect_first_r10 rd [] w = (Inl BtDeviceNotFound, w)"
| "connect_first_r10 rd (p # ps) w =
     (let w = snd (radio_properties rd p w); (r10, w) = is_r10 rd p w
      in if r10 then bt_try (radio_connect rd p w) (\<lambda>_ w. (Inr (p, radio_id rd p), w))
         else connect_first_r10 rd ps w)"

definition discover_and_connect :: "('a, 'p, 'w) radio \<Rightarrow> 'w \<Rightarrow> (btleplug_error + 'p \<times> string) \<times> 'w" where
  "discover_and_connect rd w =
     and_then (get_adapter rd w) (\<lambda>a w.
     bt_try (radio_start_scan rd a w) (\<lambda>_ w.
     bt_try (radio_stop_scan rd a (radio_sleep rd 10 w)) (\<lambda>_ w.
     bt_try (radio_peripherals rd a w) (\<lambda>ps w. connect_first_r10 rd ps w))))"

text \<open>The loop over the peripherals: \<open>None\<close> when it finishes without a match.\<close>

fun connect_address_in ::
  "('a, 'p, 'w) radio \<Rightarrow> string \<Rightarrow> 'p list \<Rightarrow> 'w \<Rightarrow> ((btleplug_error + 'p \<times> string) option) \<times> 'w" where
  "connect_address_in rd target [] w = (None, w)"
| "connect_address_in rd target (p # ps) w =
     (if eq_ignore_ascii_case (radio_id rd p) target
      then (let (r, w) = bt_try (radio_connect rd p w) (\<lambda>_ w. (Inr (p, radio_id rd p), w)) in (Some r, w))
      else connect_address_in rd target ps w)"

definition connect_by_address :: "('a, 'p, 'w) radio \<Rightarrow> string \<Rightarrow> 'w \<Rightarrow> (btleplug_error + 'p \<times> string) \<times> 'w" where
  "connect_by_address rd target w =
     and_then (get_adapter rd w) (\<lambda>a w.
     bt_try (radio_peripherals rd a w) (\<lambda>ps w.
       case connect_address_in rd target ps w of
         (Some r, w) \<Rightarrow> (r, w)
       | (None, w) \<Rightarrow>
           bt_try (radio_start_scan rd a w) (\<lambda>_ w.
           bt_try (radio_stop_scan rd a (radio_sleep rd 5 w)) (\<lambda>_ w.
           bt_try (radio_peripherals rd a w) (\<lambda>ps w.
             case connect_address_in rd target ps w of
               (Some r, w) \<Rightarrow> (r, w)
             | (None, w) \<Rightarrow> (Inl BtDeviceNotFound, w))))))"

record chars =
  notify_char :: u128
  register_char :: u128
  data_char :: u128

definition find_characteristics :: "('a, 'p, 'w) radio \<Rightarrow> 'p \<Rightarrow> 'w \<Rightarrow> (btleplug_error + chars) \<times> 'w" where
  "find_characteristics rd p w =
     (let cs = radio_characteristics rd p w
      in case find (\<lambda>c. c = BT_CHAR_2810) cs of
           None \<Rightarrow> (Inl (BtCharacteristicNotFound ''6A4E2810''), w)
         | Some c2810 \<Rightarrow>
             (case find (\<lambda>c. c = BT_CHAR_2820) cs of
                None \<Rightarrow> (Inl (BtCharacteristicNotFound ''6A4E2820''), w)
              | Some c2820 \<Rightarrow> (Inr \<lparr>notify_char = c2810, register_char = c2810, data_char = c2820\<rparr>, w)))"

text \<open>The transport's part that is not the link: the link starts at \<open>bt_start\<close>.\<close>

definition start_background ::
  "('a, 'p, 'w) radio \<Rightarrow> 'p \<Rightarrow> string \<Rightarrow> 'w \<Rightarrow> (btleplug_error + string \<times> bt_link) \<times> 'w" where
  "start_background rd p address w =
     bt_try (radio_discover_services rd p w) (\<lambda>_ w.
     and_then (find_characteristics rd p w) (\<lambda>cs w.
     bt_try (radio_subscribe rd p (notify_char cs) w) (\<lambda>_ w. (Inr (address, bt_start), w))))"

definition bt_auto_connect :: "('a, 'p, 'w) radio \<Rightarrow> 'w \<Rightarrow> (btleplug_error + string \<times> bt_link) \<times> 'w" where
  "bt_auto_connect rd w =
     (case runtime_new rd w of
        (Inl e, w) \<Rightarrow> (Inl (Runtime e), w)
      | (Inr _, w) \<Rightarrow> and_then (discover_and_connect rd w) (\<lambda>(p, address) w. start_background rd p address w))"

definition bt_connect :: "('a, 'p, 'w) radio \<Rightarrow> string \<Rightarrow> 'w \<Rightarrow> (btleplug_error + string \<times> bt_link) \<times> 'w" where
  "bt_connect rd address w =
     (case runtime_new rd w of
        (Inl e, w) \<Rightarrow> (Inl (Runtime e), w)
      | (Inr _, w) \<Rightarrow> and_then (connect_by_address rd address w) (\<lambda>(p, addr) w. start_background rd p addr w))"

subsection \<open>Runs of the two threads\<close>

text \<open>What a run has done so far: the chunks read, the commands accepted, and the notifications of the
  subscribed characteristic that arrived while the transport was held.\<close>

record bt_history =
  chunks_read :: "bytes list"
  accepted :: "write_cmd list"
  arrived :: "bytes list"

datatype bt_action = CallRead bytes | CallWrite write_cmd | DropTransport | Background bt_turn

fun bt_do :: "bt_action \<Rightarrow> bt_history \<times> bt_link \<Rightarrow> (bt_history \<times> bt_link) option" where
  "bt_do (CallRead b) (h, l) =
     (if \<not> foreground l then None
      else case bt_read b l of
             (Inr n, b', l') \<Rightarrow> Some (h\<lparr>chunks_read := chunks_read h @ [take n b']\<rparr>, l')
           | (Inl e, b', l') \<Rightarrow> Some (h, l'))"
| "bt_do (CallWrite cmd) (h, l) =
     (if \<not> foreground l then None
      else case bt_send cmd l of
             None \<Rightarrow> None
           | Some (Inr _, l') \<Rightarrow> Some (h\<lparr>accepted := accepted h @ [cmd]\<rparr>, l')
           | Some (Inl _, l') \<Rightarrow> Some (h, l'))"
| "bt_do DropTransport (h, l) = (if foreground l then Some (h, bt_drop l) else None)"
| "bt_do (Background turn) (h, l) =
     (case background_turn turn l of
        None \<Rightarrow> None
      | Some l' \<Rightarrow>
          (case turn of
             Notified uuid value \<Rightarrow>
               (if uuid = BT_CHAR_2810 \<and> foreground l then Some (h\<lparr>arrived := arrived h @ [value]\<rparr>, l')
                else Some (h, l'))
           | _ \<Rightarrow> Some (h, l')))"

fun bt_run :: "bt_action list \<Rightarrow> bt_history \<times> bt_link \<Rightarrow> (bt_history \<times> bt_link) option" where
  "bt_run [] s = Some s"
| "bt_run (a # as) s = Option.bind (bt_do a s) (bt_run as)"

definition bt_history_new :: bt_history where
  "bt_history_new = \<lparr>chunks_read = [], accepted = [], arrived = []\<rparr>"

text \<open>Nothing is lost, made up or reordered in either direction; the end of the background task loses the
  commands it has not written.\<close>

definition inbound :: "bt_history \<Rightarrow> bt_link \<Rightarrow> bool" where
  "inbound h l \<longleftrightarrow>
     length (chunks_read h) \<le> length (arrived h) \<and>
     chunks_read h = map (take 512) (take (length (chunks_read h)) (arrived h)) \<and>
     notify_queue l = (if foreground l then drop (length (chunks_read h)) (arrived h) else [])"

definition outbound :: "bt_history \<Rightarrow> bt_link \<Rightarrow> bool" where
  "outbound h l \<longleftrightarrow>
     length (write_queue l) \<le> WRITE_CHANNEL_CAP \<and>
     (if alive l then map write_target (accepted h) = sent l @ map write_target (outstanding l)
      else take (length (sent l)) (map write_target (accepted h)) = sent l)"

lemma bt_exit_bounds:
  assumes "inbound h l" "outbound h l" "alive l"
  shows "inbound h (bt_exit l)" "outbound h (bt_exit l)"
  using assms by (simp_all add: inbound_def outbound_def bt_exit_def WRITE_CHANNEL_CAP_def)

lemma background_outbound:
  assumes "background_turn t l = Some l'" "inbound h l" "outbound h l"
  shows "outbound h l'"
proof -
  have alive: "alive l" using assms(1) by (cases t) (auto simp: selecting_def split: if_splits list.splits option.splits)
  show ?thesis
    using assms bt_exit_bounds(2) [OF assms(2,3) alive] alive
    by (cases t) (auto simp: outbound_def outstanding_def selecting_def split: if_splits list.splits option.splits)
qed

lemma background_inbound:
  assumes "background_turn t l = Some l'" "inbound h l" "\<forall>u v. t \<noteq> Notified u v"
  shows "inbound h l'"
  using assms by (cases t) (auto simp: inbound_def bt_exit_def split: if_splits list.splits option.splits)

lemma notified_inbound:
  assumes "background_turn (Notified u v) l = Some l'" "inbound h l"
  shows "inbound (if u = BT_CHAR_2810 \<and> foreground l then h\<lparr>arrived := arrived h @ [v]\<rparr> else h) l'"
  using assms by (auto simp: inbound_def bt_exit_def split: if_splits)

lemma read_inbound:
  assumes inv: "inbound h l" and b: "length b = 512" and fg: "foreground l"
    and rd: "bt_read b l = (Inr n, b', l')"
  shows "inbound (h\<lparr>chunks_read := chunks_read h @ [take n b']\<rparr>) l' \<and> alive l' = alive l \<and>
    sent l' = sent l \<and> outstanding l' = outstanding l \<and> write_queue l' = write_queue l"
proof -
  let ?k = "length (chunks_read h)"
  obtain data rest where q: "notify_queue l = data # rest" "copy_into data b = (n, b')" "l' = l\<lparr>notify_queue := rest\<rparr>"
    using rd by (auto simp: bt_read_def split: list.splits prod.splits if_splits)
  have chunk: "take n b' = take 512 data" using copy_into_read [OF q(2)] b by simp
  have drop: "drop ?k (arrived h) = data # rest" using inv fg q(1) by (simp add: inbound_def)
  have k: "?k < length (arrived h)" using drop by (cases "?k < length (arrived h)") simp_all
  have "arrived h ! ?k = data" "drop (Suc ?k) (arrived h) = rest"
    using drop nth_via_drop [OF drop] by (simp_all add: drop_Suc flip: tl_drop)
  then show ?thesis
    using inv fg q(3) k by (simp add: inbound_def chunk take_Suc_conv_app_nth outstanding_def)
qed

lemma in_order_do:
  assumes inv: "inbound h l" "outbound h l" and act: "bt_do a (h, l) = Some (h', l')"
    and buffers: "case a of CallRead b \<Rightarrow> length b = 512 | _ \<Rightarrow> True"
  shows "inbound h' l' \<and> outbound h' l'"
proof (cases a)
  case (CallRead b)
  obtain r b' l1 where rd: "bt_read b l = (r, b', l1)" by (metis surj_pair)
  have fg: "foreground l" using CallRead act by (simp split: if_splits)
  show ?thesis
  proof (cases r)
    case (Inl e)
    then have "l1 = l" using rd by (auto simp: bt_read_def split: list.splits prod.splits if_splits)
    then show ?thesis using CallRead act fg rd Inl inv by simp
  next
    case (Inr n)
    have "h' = h\<lparr>chunks_read := chunks_read h @ [take n b']\<rparr>" "l' = l1"
      using CallRead act fg rd Inr by simp_all
    moreover have "length b = 512" using CallRead buffers by simp
    ultimately show ?thesis
      using read_inbound [OF inv(1) _ fg rd [unfolded Inr]] inv(2) by (simp add: outbound_def)
  qed
next
  case (CallWrite cmd)
  then show ?thesis
    using act inv
    by (auto simp: bt_send_def inbound_def outbound_def outstanding_def split: if_splits option.splits)
next
  case DropTransport
  then show ?thesis
    using act inv by (auto simp: bt_drop_def inbound_def outbound_def outstanding_def split: if_splits)
next
  case (Background t)
  obtain l1 where turn: "background_turn t l = Some l1"
    using act Background by (cases "background_turn t l") auto
  note out = background_outbound [OF turn inv]
  show ?thesis
  proof (cases "\<exists>u v. t = Notified u v")
    case True
    then obtain u v where "t = Notified u v" by blast
    then show ?thesis
      using act Background turn out notified_inbound [of u v l l1 h] inv
      by (auto simp: outbound_def split: if_splits)
  next
    case False
    then show ?thesis
      using act Background turn out background_inbound [OF turn inv(1)] by (cases t) auto
  qed
qed

lemma in_order_run:
  "inbound h l \<Longrightarrow> outbound h l \<Longrightarrow> bt_run as (h, l) = Some (h', l') \<Longrightarrow>
   list_all (\<lambda>a. case a of CallRead b \<Rightarrow> length b = 512 | _ \<Rightarrow> True) as \<Longrightarrow> inbound h' l' \<and> outbound h' l'"
proof (induction as arbitrary: h l)
  case (Cons a as)
  obtain h1 l1 where s1: "bt_do a (h, l) = Some (h1, l1)" "bt_run as (h1, l1) = Some (h', l')"
    using Cons.prems(3) by (cases "bt_do a (h, l)") auto
  then show ?case
    using in_order_do [OF Cons.prems(1,2) s1(1)] Cons.IH [of h1 l1] Cons.prems(4) by simp
qed simp

lemma in_order_start: "inbound bt_history_new bt_start" "outbound bt_history_new bt_start"
  by (simp_all add: inbound_def outbound_def bt_history_new_def bt_start_def outstanding_def)

subsection \<open>A background that catches up\<close>

lemma bt_run_append: "bt_run (as @ bs) s = Option.bind (bt_run as s) (bt_run bs)"
  by (induction as arbitrary: s) (simp_all split: Option.bind_split)

lemma serve_queue:
  "alive l \<Longrightarrow> stream l \<noteq> Opening \<Longrightarrow> in_flight l = None \<Longrightarrow>
   bt_run (concat (map (\<lambda>_. [Background WriteTaken, Background (WriteDone True)]) (write_queue l))) (h, l) =
     Some (h, bt_serve l)"
proof (induction "write_queue l" arbitrary: l)
  case Nil
  then have "bt_serve l = l" by (simp add: bt_serve_def outstanding_def)
  then show ?case using Nil by simp
next
  case (Cons cmd queue)
  let ?l = "l\<lparr>write_queue := queue, in_flight := None, sent := sent l @ [write_target cmd]\<rparr>"
  have "bt_serve l = bt_serve ?l"
    using Cons.prems Cons.hyps(2) [symmetric] by (simp add: bt_serve_def outstanding_def)
  moreover have "bt_run (concat (map (\<lambda>_. [Background WriteTaken, Background (WriteDone True)]) (write_queue l))) (h, l) =
      bt_run (concat (map (\<lambda>_. [Background WriteTaken, Background (WriteDone True)]) queue)) (h, ?l)"
    using Cons.prems Cons.hyps(2) [symmetric] by (simp add: selecting_def)
  moreover have "\<dots> = Some (h, bt_serve ?l)" using Cons.hyps(1) [of ?l] Cons.prems by simp
  ultimately show ?case by simp
qed

text \<open>\<open>bt_serve\<close> is the work of the background's own turns.\<close>

lemma serve_is_background:
  assumes "alive l"
  shows "\<exists>turns. bt_run (map Background turns) (h, l) = Some (h, bt_serve l)"
proof -
  let ?open = "if stream l = Opening then [StreamOpened True] else []"
  let ?l1 = "l\<lparr>stream := (if stream l = Opening then Open else stream l)\<rparr>"
  let ?done = "case_option [] (\<lambda>_. [WriteDone True]) (in_flight l)"
  let ?l2 = "?l1\<lparr>in_flight := None, sent := sent l @ map write_target (case_option [] (\<lambda>c. [c]) (in_flight l))\<rparr>"
  let ?rest = "concat (map (\<lambda>_. [WriteTaken, WriteDone True]) (write_queue l))"
  have "bt_run (map Background ?open) (h, l) = Some (h, ?l1)" using assms by simp
  moreover have "bt_run (map Background ?done) (h, ?l1) = Some (h, ?l2)" using assms by (cases "in_flight l") simp_all
  moreover have "bt_run (map Background ?rest) (h, ?l2) = Some (h, bt_serve ?l2)"
    using serve_queue [of ?l2 h] assms by (simp add: map_concat comp_def)
  moreover have "bt_serve ?l2 = bt_serve l" using assms by (simp add: bt_serve_def outstanding_def)
  ultimately have "bt_run (map Background (?open @ ?done @ ?rest)) (h, l) = Some (h, bt_serve l)"
    by (simp only: map_append bt_run_append bind.simps)
  then show ?thesis by blast
qed

subsection \<open>A link whose device is gone\<close>

definition unplugged :: "bt_link \<Rightarrow> bool" where
  "unplugged l \<longleftrightarrow>
     alive l \<and> foreground l \<and> stream l = Ended \<and> notify_queue l = [] \<and> write_queue l = [] \<and> in_flight l = None"

lemma unplugged_stuck: "unplugged l \<Longrightarrow> background_turn t l = None"
  by (cases t) (simp_all add: unplugged_def)

lemma unplugged_read: "unplugged l \<Longrightarrow> bt_read b l = (Inl (IoError WouldBlock), b, l)"
  by (simp add: unplugged_def bt_read_def)

subsection \<open>Properties\<close>

text \<open>C12: the two threads keep every byte in order, however their steps interleave: the chunks read are the first
  512 bytes of the notifications that arrived, from the first on, the rest of them waits in the channel,
  what the peripheral was sent, the command in flight and the at most 32 queued ones are the accepted
  commands in order, and only the end of the background task loses the last ones.\<close>

theorem channels_keep_order:
  assumes "bt_run as (bt_history_new, bt_start) = Some (h, l)"
    and "list_all (\<lambda>a. case a of CallRead b \<Rightarrow> length b = 512 | _ \<Rightarrow> True) as"
  shows "length (chunks_read h) \<le> length (arrived h) \<and>
    chunks_read h = map (take 512) (take (length (chunks_read h)) (arrived h)) \<and>
    notify_queue l = (if foreground l then drop (length (chunks_read h)) (arrived h) else []) \<and>
    length (write_queue l) \<le> 32 \<and>
    (if alive l
     then map write_target (accepted h) =
            sent l @ map write_target (case_option [] (\<lambda>c. [c]) (in_flight l) @ write_queue l)
     else take (length (sent l)) (map write_target (accepted h)) = sent l)"
  using in_order_run [OF in_order_start assms]
  by (simp add: inbound_def outbound_def outstanding_def WRITE_CHANNEL_CAP_def)

theorem channels_keep_order_witness:
  "\<exists>h l. bt_run [Background (StreamOpened True), CallWrite (Register [1]), CallWrite (Data [2]), Background WriteTaken,
        Background (WriteDone True), Background (Notified BT_CHAR_2820 [9]), Background (Notified BT_CHAR_2810 [7, 8]),
        CallRead (replicate 512 0)] (bt_history_new, bt_start) = Some (h, l) \<and>
     chunks_read h = [[7, 8]] \<and> sent l = [(BT_CHAR_2810, [1], WithResponse)] \<and> write_queue l = [Data [2]] \<and>
     length (write_queue l) \<le> 32"
proof -
  let ?as = "[Background (StreamOpened True), CallWrite (Register [1]), CallWrite (Data [2]), Background WriteTaken,
        Background (WriteDone True), Background (Notified BT_CHAR_2820 [9]), Background (Notified BT_CHAR_2810 [7, 8]),
        CallRead (replicate 512 0)]"
  obtain h l where run: "bt_run ?as (bt_history_new, bt_start) = Some (h, l)"
      and "chunks_read h = [[7, 8]] \<and> sent l = [(BT_CHAR_2810, [1], WithResponse)] \<and> write_queue l = [Data [2]]"
    by (simp add: bt_history_new_def bt_start_def bt_send_def bt_read_def selecting_def WRITE_CHANNEL_CAP_def
        BT_CHAR_2810_def BT_CHAR_2820_def copy_into_def)
  then show ?thesis using channels_keep_order [OF run] by auto
qed

text \<open>An unplugged device goes unnoticed: once the notification stream has ended with nothing queued, no
  turn of the background task is possible while the transport is held, and reading keeps saying that there is no
  data yet.\<close>

theorem unplugged_unnoticed:
  assumes "alive l" "foreground l" "stream l = Ended" "notify_queue l = []" "write_queue l = []" "in_flight l = None"
  shows "(background_turn turn l = None) \<and> bt_read b l = (Inl (IoError WouldBlock), b, l)"
  using assms unplugged_stuck [of l turn] unplugged_read [of l b] by (simp add: unplugged_def)

theorem unplugged_unnoticed_witness:
  "background_turn NoBranch (bt_start\<lparr>stream := Ended\<rparr>) = None \<and>
   bt_read [0, 0] (bt_start\<lparr>stream := Ended\<rparr>) = (Inl (IoError WouldBlock), [0, 0], bt_start\<lparr>stream := Ended\<rparr>)"
  by (rule unplugged_unnoticed) (simp_all add: bt_start_def)

text \<open>A broken pipe is the last word: reading reports it exactly when the background task has ended and every
  notification it forwarded has been read.\<close>

theorem broken_pipe_after_last_chunk:
  "fst (bt_read b l) = Inl (IoError BrokenPipe) \<longleftrightarrow> \<not> alive l \<and> notify_queue l = []"
  by (auto simp: bt_read_def split: list.splits prod.splits)

end
