(* ===== verification/Ble.thy ===== *)
theory Ble
  imports Bluez Btleplug Client_Runs
begin

text \<open>
  \<open>src/ble.rs\<close>: the transport the crate picks by target, one constructor for each backend, and the client on
  top of it. The environment of the two backends are the arguments \<open>os\<close> (the Linux kernel and bus) and
  \<open>bg\<close> (what the background task did since the last call).
\<close>

subsection \<open>The transport\<close>

datatype ble_error = BleBlueZ bluez_error | BleBtleplug btleplug_error

datatype 'w ble_transport = BlueZ "'w bluez_transport" | Btleplug string bt_link

text \<open>\<open>BleTransport::auto_connect\<close> on Linux and elsewhere.\<close>

definition ble_auto_connect_bluez :: "'w linux \<Rightarrow> 'w \<Rightarrow> (ble_error + 'w ble_transport) \<times> 'w" where
  "ble_auto_connect_bluez os w =
     (case bluez_auto_connect os w of (Inl e, w) \<Rightarrow> (Inl (BleBlueZ e), w) | (Inr t, w) \<Rightarrow> (Inr (BlueZ t), w))"

definition ble_auto_connect_btleplug :: "('a, 'p, 'w) radio \<Rightarrow> 'w \<Rightarrow> (ble_error + 'w ble_transport) \<times> 'w" where
  "ble_auto_connect_btleplug rd w =
     (case bt_auto_connect rd w of
        (Inl e, w) \<Rightarrow> (Inl (BleBtleplug e), w)
      | (Inr (address, l), w) \<Rightarrow> (Inr (Btleplug address l), w))"

fun ble_device_address :: "'w ble_transport \<Rightarrow> string" where
  "ble_device_address (BlueZ t) = bluez_address t"
| "ble_device_address (Btleplug address l) = address"

fun ble_mtu :: "'w ble_transport \<Rightarrow> u16" where
  "ble_mtu (BlueZ t) = bluez_mtu t"
| "ble_mtu (Btleplug address l) = 23"

fun ble_read :: "'w linux \<Rightarrow> (bt_link \<Rightarrow> bt_link) \<Rightarrow> bytes \<Rightarrow> 'w ble_transport \<Rightarrow>
    (io_error + nat) \<times> bytes \<times> 'w ble_transport" where
  "ble_read os bg b (BlueZ t) = (let (r, b', t') = t_read (bluez_ops os) b t in (r, b', BlueZ t'))"
| "ble_read os bg b (Btleplug a l) = (let (r, b', l') = t_read (bt_ops bg) b l in (r, b', Btleplug a l'))"

fun ble_write :: "'w linux \<Rightarrow> (bt_link \<Rightarrow> bt_link) \<Rightarrow> bytes \<Rightarrow> 'w ble_transport \<Rightarrow>
    (write_failure + unit) \<times> 'w ble_transport" where
  "ble_write os bg data (BlueZ t) = (let (r, t') = t_write (bluez_ops os) data t in (r, BlueZ t'))"
| "ble_write os bg data (Btleplug a l) = (let (r, l') = t_write (bt_ops bg) data l in (r, Btleplug a l'))"

fun ble_write_register ::
  "'w linux \<Rightarrow> (bt_link \<Rightarrow> bt_link) \<Rightarrow> bytes \<Rightarrow> 'w ble_transport \<Rightarrow>
    (write_failure + unit) \<times> 'w ble_transport" where
  "ble_write_register os bg data (BlueZ t) = (let (r, t') = t_write_register (bluez_ops os) data t in (r, BlueZ t'))"
| "ble_write_register os bg data (Btleplug a l) = (let (r, l') = t_write_register (bt_ops bg) data l in (r, Btleplug a l'))"

definition ble_ops :: "'w linux \<Rightarrow> (bt_link \<Rightarrow> bt_link) \<Rightarrow> 'w ble_transport transport_ops" where
  "ble_ops os bg = \<lparr>t_read = ble_read os bg, t_write = ble_write os bg, t_write_register = ble_write_register os bg\<rparr>"

lemma ble_contract:
  assumes "fd_contract os" "makes_room bg"
  shows "transport_contract (ble_ops os bg)"
proof
  fix b :: bytes and t t' :: "'a ble_transport" and b' r
  assume "t_read (ble_ops os bg) b t = (r, b', t')"
  moreover note transport_contract.read_length [OF bluez_contract [OF assms(1)], of b]
    transport_contract.read_length [OF bt_contract [OF assms(2)], of b]
  ultimately show "length b' = length b"
    by (cases t) (auto simp: ble_ops_def split: prod.splits)
next
  fix b :: bytes and t t' :: "'a ble_transport" and b' n
  assume "t_read (ble_ops os bg) b t = (Inr n, b', t')"
  moreover note transport_contract.read_reports [OF bluez_contract [OF assms(1)], of b]
    transport_contract.read_reports [OF bt_contract [OF assms(2)], of b]
  ultimately show "n \<le> length b"
    by (cases t) (auto simp: ble_ops_def split: prod.splits)
next
  fix data and t :: "'a ble_transport"
  note bluez = transport_contract.write_returns [OF bluez_contract [OF assms(1)], of data]
    transport_contract.register_returns [OF bluez_contract [OF assms(1)], of data]
  note bt = transport_contract.write_returns [OF bt_contract [OF assms(2)], of data]
    transport_contract.register_returns [OF bt_contract [OF assms(2)], of data]
  show "returned (fst (t_write (ble_ops os bg) data t))" "returned (fst (t_write_register (ble_ops os bg) data t))"
    using bluez bt by (cases t; simp add: ble_ops_def split_beta Let_def)+
qed

subsection \<open>A client on a silent transport\<close>

definition silent :: "'t transport_ops \<Rightarrow> 't \<Rightarrow> bool" where
  "silent tp t \<longleftrightarrow> (\<forall>b. t_read tp b t = (Inr 0, b, t) \<or> t_read tp b t = (Inl (IoError WouldBlock), b, t))"

lemma silent_poll:
  assumes "silent tp (transport c)" "pending_event c = None" "next_frame (stream_buf c) = (None, stream_buf c)"
  shows "client_poll tp pf now c = (Inr None, c)"
proof -
  have "process_frame tp pf now c = (Inr None, c)" using assms(3) by (simp add: process_frame_def)
  moreover have "c\<lparr>transport := transport c, read_buf := read_buf c\<rparr> = c" by simp
  ultimately show ?thesis
    using assms(1) [unfolded silent_def, rule_format, of "read_buf c"] assms(2)
    by (auto simp: client_poll_def Let_def)
qed

lemma silent_run:
  assumes "silent tp (transport c)" "pending_event c = None" "next_frame (stream_buf c) = (None, stream_buf c)"
  shows "client_run tp pf (map Poll ts) c = map (\<lambda>now. (Poll now, Inr None, c)) ts"
  by (induction ts) (simp_all add: silent_poll [OF assms])

text \<open>A link that has gone: the notification descriptor is at end of file, or the notification stream has
  ended and the background task has nothing to do.\<close>

definition link_gone :: "'w linux \<Rightarrow> (bt_link \<Rightarrow> bt_link) \<Rightarrow> 'w ble_transport \<Rightarrow> bool" where
  "link_gone os bg t \<longleftrightarrow>
     (case t of
        BlueZ t \<Rightarrow> (\<forall>n. sys_read os (notify_fd t) n (world t) = (Inr [], world t))
      | Btleplug a l \<Rightarrow> unplugged l \<and> bg l = l)"

lemma link_gone_silent: "link_gone os bg t \<Longrightarrow> silent (ble_ops os bg) t"
  by (cases t)
     (simp_all add: link_gone_def silent_def ble_ops_def bluez_ops_def bluez_read_def bt_ops_def unplugged_read)

subsection \<open>Properties\<close>

text \<open>C31: a lost link is never reported: once the device is gone, on either backend, every poll of an idle
  client returns \<open>Ok(None)\<close> and leaves the client as it is, for any number of polls.\<close>

theorem lost_link_never_reported:
  assumes "link_gone os bg (transport c)" "pending_event c = None" "next_frame (stream_buf c) = (None, stream_buf c)"
  shows "client_run (ble_ops os bg) pf (map Poll ts) c = map (\<lambda>now. (Poll now, Inr None, c)) ts"
  by (rule silent_run [OF link_gone_silent [OF assms(1)] assms(2,3)])

definition demo_ble :: "(bytes \<times> nat) ble_transport" where
  "demo_ble = BlueZ \<lparr>notify_fd = 5, write_fd = 6, register_fd = 7, bluez_mtu = 23, bluez_address = [], world = ([], 0)\<rparr>"

theorem lost_link_never_reported_witness:
  "\<forall>pf. client_run (ble_ops demo_linux id) pf (map Poll [0, 1, 2]) (client_new demo_ble 23) =
     map (\<lambda>now. (Poll now, Inr None, client_new demo_ble 23)) [0, 1, 2] \<and>
   client_run (ble_ops demo_linux id) pf (map Poll [0, 1]) (client_new (Btleplug [] (bt_start\<lparr>stream := Ended\<rparr>)) 23) =
     map (\<lambda>now. (Poll now, Inr None, client_new (Btleplug [] (bt_start\<lparr>stream := Ended\<rparr>)) 23)) [0, 1]"
  by (intro allI conjI lost_link_never_reported)
     (simp_all add: client_new_def link_gone_def demo_ble_def demo_linux_def unplugged_def bt_start_def stream_new_def
       next_frame.simps [of "\<lparr>buf = []\<rparr>"])

text \<open>Over the real transports no call on a reachable client panics or blocks for good, provided the kernel keeps
  to its contract and the background leaves room for writes.\<close>

theorem ble_client_never_panics:
  assumes "fd_contract os" "makes_room bg" "client_reach (ble_ops os bg) pf c"
  shows "fst (client_exec (ble_ops os bg) pf op c) \<notin> {Inl Panicked, Inl Blocked}"
  by (rule transport_contract.reach_no_panic [OF ble_contract [OF assms(1,2)] assms(3)])

theorem ble_client_never_panics_witness:
  "fst (client_exec (ble_ops demo_linux bt_serve) pf (Poll 0) (client_new demo_ble 23)) \<notin> {Inl Panicked, Inl Blocked}"
  by (rule ble_client_never_panics [OF demo_linux_contracts(1) bt_serve_room client_reach.new])

end
