(* ===== verification/Frp.thy ===== *)
theory Frp
  imports Client Frp_Convert
begin

text \<open>
  \<open>src/frp/mod.rs\<close>: the Flight Relay Protocol device. The protocol crate is not in the repository: its
  connections are a type \<open>'k\<close> with the operations of the record \<open>frp_ops\<close>, its messages the datatypes with
  the constructors the code names. The device and its acceptor thread share one state, and the thread's
  turns are steps of their own; a send on the request channel fails once the thread has died.
\<close>

named_theorems frp_simps "the FRP device"

subsection \<open>Messages\<close>

datatype detection_mode = DetectionMode string
datatype handedness = LeftHanded | RightHanded
datatype club_name = ClubName string

record controller_command =
  command_mode :: "detection_mode option"
  command_handed :: "handedness option"
  command_club :: "club_name option"

datatype frp_message =
    SetDetectionMode "detection_mode option" "handedness option" "club_name option"
  | OtherMessage

definition controller_command :: "frp_message \<Rightarrow> controller_command option" where
  "controller_command msg =
     (case msg of
        SetDetectionMode m h c \<Rightarrow> Some \<lparr>command_mode = m, command_handed = h, command_club = c\<rparr>
      | OtherMessage \<Rightarrow> None)"

record shot_key =
  key_shot_id :: string
  key_shot_number :: u32

datatype frp_event =
    ShotTrigger shot_key
  | BallFlight shot_key frp_ball_flight
  | ClubPath shot_key frp_club_data
  | ShotFinished shot_key
  | DeviceTelemetry "string option" "string option" "string option" "(string \<rightharpoonup> string) option"

record frp_envelope =
  env_device :: string
  env_event :: frp_event

datatype frp_error = Closed | FrpOther string

record 'k frp_ops =
  conn_send :: "frp_envelope \<Rightarrow> 'k \<Rightarrow> (frp_error + unit) \<times> 'k"
  conn_try_recv :: "'k \<Rightarrow> (frp_error + frp_message option) \<times> 'k"

subsection \<open>The device\<close>

text \<open>\<open>requests\<close> and \<open>incoming\<close> are the two channels, \<open>acceptor\<close> is where the thread is.\<close>

datatype acceptor_state = AwaitingRequest | Connecting | Dead

record 'k frp_device =
  conn :: "'k option"
  requests :: nat
  incoming :: "'k list"
  acceptor :: acceptor_state
  pending :: bool
  last_telemetry :: "frp_envelope option"
  device_name :: string
  frp_shot_number :: u32

definition request_connection :: "'k frp_device \<Rightarrow> 'k frp_device" where
  "request_connection d =
     (if \<not> pending d \<and> acceptor d \<noteq> Dead then d\<lparr>requests := requests d + 1, pending := True\<rparr> else d)"

text \<open>\<open>spawn\<close>, once the endpoint is open; \<open>serve\<close> and \<open>bridge\<close> differ in the endpoint only.\<close>

definition frp_spawn :: "frp_error + unit \<Rightarrow> frp_error + 'k frp_device" where
  "frp_spawn endpoint =
     (case endpoint of
        Inl e \<Rightarrow> Inl e
      | Inr _ \<Rightarrow> Inr (request_connection
          \<lparr>conn = None, requests = 0, incoming = [], acceptor = AwaitingRequest, pending = False,
           last_telemetry = None, device_name = [], frp_shot_number = 0\<rparr>))"

text \<open>A turn of the acceptor thread: it takes a request, an attempt ends with a connection or fails (and
  is repeated after the delay), or the thread panics.\<close>

datatype 'k acceptor_turn = TakeRequest | Established 'k | AttemptFailed | AcceptorPanics

fun acceptor_step :: "'k acceptor_turn \<Rightarrow> 'k frp_device \<Rightarrow> 'k frp_device option" where
  "acceptor_step TakeRequest d =
     (if acceptor d = AwaitingRequest \<and> 0 < requests d
      then Some (d\<lparr>requests := requests d - 1, acceptor := Connecting\<rparr>) else None)"
| "acceptor_step (Established k) d =
     (if acceptor d = Connecting then Some (d\<lparr>incoming := incoming d @ [k], acceptor := AwaitingRequest\<rparr>) else None)"
| "acceptor_step AttemptFailed d = (if acceptor d = Connecting then Some d else None)"
| "acceptor_step AcceptorPanics d = (if acceptor d = Connecting then Some (d\<lparr>acceptor := Dead\<rparr>) else None)"

definition drop_connection :: "'k frp_device \<Rightarrow> 'k frp_device" where
  "drop_connection d = request_connection (d\<lparr>conn := None\<rparr>)"

definition frp_send_envelope :: "'k frp_ops \<Rightarrow> frp_envelope \<Rightarrow> 'k frp_device \<Rightarrow> (frp_error + unit) \<times> 'k frp_device" where
  "frp_send_envelope fo env d =
     (case conn d of
        None \<Rightarrow> (Inr (), d)
      | Some k \<Rightarrow>
          (case conn_send fo env k of
             (Inr _, k) \<Rightarrow> (Inr (), d\<lparr>conn := Some k\<rparr>)
           | (Inl e, k) \<Rightarrow>
               (if e = Closed then (Inr (), drop_connection (d\<lparr>conn := Some k\<rparr>))
                else (Inl e, d\<lparr>conn := Some k\<rparr>))))"

definition poll_connection :: "'k frp_ops \<Rightarrow> 'k frp_device \<Rightarrow> (frp_error + bool) \<times> 'k frp_device" where
  "poll_connection fo d =
     (if conn d \<noteq> None then (Inr False, d)
      else case incoming d of
             [] \<Rightarrow> (Inr False, d)
           | k # rest \<Rightarrow>
               (let d = d\<lparr>incoming := rest, pending := False, conn := Some k\<rparr>
                in case last_telemetry d of
                     None \<Rightarrow> (Inr True, d)
                   | Some env \<Rightarrow> and_then (frp_send_envelope fo env d) (\<lambda>_ d. (Inr True, d))))"

definition is_connected :: "'k frp_device \<Rightarrow> bool" where
  "is_connected d \<longleftrightarrow> conn d \<noteq> None"

definition set_device_name :: "string \<Rightarrow> 'k frp_device \<Rightarrow> 'k frp_device" where
  "set_device_name name d = d\<lparr>device_name := name\<rparr>"

definition check_controller :: "'k frp_ops \<Rightarrow> 'k frp_device \<Rightarrow> controller_command option \<times> 'k frp_device" where
  "check_controller fo d =
     (case conn d of
        None \<Rightarrow> (None, d)
      | Some k \<Rightarrow>
          (case conn_try_recv fo k of
             (Inr (Some msg), k) \<Rightarrow> (controller_command msg, d\<lparr>conn := Some k\<rparr>)
           | (Inr None, k) \<Rightarrow> (None, d\<lparr>conn := Some k\<rparr>)
           | (Inl _, k) \<Rightarrow> (None, drop_connection (d\<lparr>conn := Some k\<rparr>))))"

definition ready_string :: "bool \<Rightarrow> string" where
  "ready_string ready = (if ready then ''true'' else ''false'')"

definition telemetry_envelope :: "string \<Rightarrow> bool \<Rightarrow> frp_envelope" where
  "telemetry_envelope name ready =
     \<lparr>env_device = name,
      env_event = DeviceTelemetry (Some ''Garmin'') (Some ''Approach R10'') None
        (Some [''ready'' \<mapsto> ready_string ready])\<rparr>"

definition send_ready :: "'k frp_ops \<Rightarrow> bool \<Rightarrow> 'k frp_device \<Rightarrow> (frp_error + unit) \<times> 'k frp_device" where
  "send_ready fo ready d =
     (let env = telemetry_envelope (device_name d) ready
      in frp_send_envelope fo env (d\<lparr>last_telemetry := Some env\<rparr>))"

definition send_device_info :: "'k frp_ops \<Rightarrow> 'k frp_device \<Rightarrow> (frp_error + unit) \<times> 'k frp_device" where
  "send_device_info fo d = send_ready fo True d"

fun send_events :: "'k frp_ops \<Rightarrow> frp_event list \<Rightarrow> 'k frp_device \<Rightarrow> (frp_error + unit) \<times> 'k frp_device" where
  "send_events fo [] d = (Inr (), d)"
| "send_events fo (ev # evs) d =
     (if conn d = None then (Inr (), d)
      else and_then (frp_send_envelope fo \<lparr>env_device = device_name d, env_event = ev\<rparr> d)
             (\<lambda>_ d. send_events fo evs d))"

subsection \<open>Shot identifiers\<close>

text \<open>One round of the generator, and the sixteen bytes for a time in nanoseconds.\<close>

definition xorshift :: "u64 \<times> u64 \<Rightarrow> u64 \<times> u64" where
  "xorshift s =
     (let (x, y) = s; s0 = y;
          x = x XOR push_bit 23 x;
          x = x XOR drop_bit 17 x;
          x = x XOR y;
          x = x XOR drop_bit 26 y
      in (s0, x))"

definition uuid_seed :: "nat \<Rightarrow> u64 \<times> u64" where
  "uuid_seed nanos =
     (let seed = word_of_nat nanos :: u128;
          s0 = ucast seed;
          s1 = ucast (seed * 6364136223846793005)
      in (if s0 = 0 then 0x123456789abcdef0 else s0, if s1 = 0 then 0xfedcba9876543210 else s1))"

definition uuid_bytes :: "nat \<Rightarrow> bytes" where
  "uuid_bytes nanos =
     (let a = xorshift (uuid_seed nanos); b = xorshift a;
          bs = le64 (fst a + snd a) @ le64 (fst b + snd b)
      in bs[6 := (bs ! 6 AND 0x0f) OR 0x40, 8 := (bs ! 8 AND 0x3f) OR 0x80])"

definition uuid_format :: "bytes \<Rightarrow> string" where
  "uuid_format bs =
     concat (map hex2 (take 4 bs)) @ ''-'' @ concat (map hex2 (subrange bs 4 6)) @ ''-'' @
     concat (map hex2 (subrange bs 6 8)) @ ''-'' @ concat (map hex2 (subrange bs 8 10)) @ ''-'' @
     concat (map hex2 (subrange bs 10 16))"

definition uuid_v4 :: "nat \<Rightarrow> string" where
  "uuid_v4 nanos = uuid_format (uuid_bytes nanos)"

subsection \<open>Handling an event\<close>

definition shot_events :: "shot_key \<Rightarrow> shot_data \<Rightarrow> frp_event list" where
  "shot_events key s =
     [ShotTrigger key] @
     (case ball s of None \<Rightarrow> [] | Some b \<Rightarrow> [BallFlight key (frp_ball b)]) @
     (case club s of None \<Rightarrow> [] | Some c \<Rightarrow> [ClubPath key (frp_club c)]) @
     [ShotFinished key]"

definition handle_event :: "'k frp_ops \<Rightarrow> nat \<Rightarrow> event \<Rightarrow> 'k frp_device \<Rightarrow> (frp_error + unit) \<times> 'k frp_device" where
  "handle_event fo nanos ev d =
     (case ev of
        Ready \<Rightarrow> send_ready fo True d
      | StateChanged _ \<Rightarrow> send_ready fo False d
      | Shot s \<Rightarrow>
          and_then (send_ready fo False d)
            (\<lambda>_ d. let d = d\<lparr>frp_shot_number := frp_shot_number d + 1\<rparr>;
                       key = \<lparr>key_shot_id = uuid_v4 nanos, key_shot_number = frp_shot_number d\<rparr>
                   in send_events fo (shot_events key s) d)
      | _ \<Rightarrow> (Inr (), d))"

subsection \<open>The states of a device\<close>

text \<open>The connections on their way: asked for, being made, or waiting to be adopted.\<close>

definition on_the_way :: "'k frp_device \<Rightarrow> nat" where
  "on_the_way d = requests d + (if acceptor d = Connecting then 1 else 0) + length (incoming d)"

definition frp_ok :: "'k frp_device \<Rightarrow> bool" where
  "frp_ok d \<longleftrightarrow>
     (if acceptor d = Dead then True
      else if conn d = None then pending d \<and> on_the_way d = 1
      else \<not> pending d \<and> on_the_way d = 0)"

inductive frp_step :: "'k frp_ops \<Rightarrow> 'k frp_device \<Rightarrow> 'k frp_device \<Rightarrow> bool" for fo where
  turn: "acceptor_step t d = Some d' \<Longrightarrow> frp_step fo d d'"
| poll: "poll_connection fo d = (r, d') \<Longrightarrow> frp_step fo d d'"
| check: "check_controller fo d = (r, d') \<Longrightarrow> frp_step fo d d'"
| event: "handle_event fo nanos ev d = (r, d') \<Longrightarrow> frp_step fo d d'"
| info: "send_device_info fo d = (r, d') \<Longrightarrow> frp_step fo d d'"
| name: "frp_step fo d (set_device_name n d)"

inductive frp_reach :: "'k frp_ops \<Rightarrow> 'k frp_device \<Rightarrow> bool" for fo where
  spawned: "frp_spawn (Inr ()) = Inr d \<Longrightarrow> frp_reach fo d"
| stepped: "frp_reach fo d \<Longrightarrow> frp_step fo d d' \<Longrightarrow> frp_reach fo d'"

fun_cases turnE: "acceptor_step t d = Some d'"

lemma send_envelope_cases:
  assumes "frp_send_envelope fo env d = (r, d')"
  obtains (idle) "conn d = None" "r = Inr ()" "d' = d"
  | (sent) k k' where "conn d = Some k" "conn_send fo env k = (Inr (), k')" "r = Inr ()" "d' = d\<lparr>conn := Some k'\<rparr>"
  | (closed) k k' where "conn d = Some k" "conn_send fo env k = (Inl Closed, k')" "r = Inr ()" "d' = drop_connection d"
  | (failed) k k' e where "conn d = Some k" "conn_send fo env k = (Inl e, k')" "e \<noteq> Closed" "r = Inl e" "d' = d\<lparr>conn := Some k'\<rparr>"
proof (cases "conn d")
  case None
  show ?thesis by (rule idle) (use assms None in \<open>simp_all add: frp_send_envelope_def\<close>)
next
  case (Some k)
  obtain q k' where send: "conn_send fo env k = (q, k')" by fastforce
  have drop: "drop_connection (d\<lparr>conn := x\<rparr>) = drop_connection d" for x by (simp add: drop_connection_def)
  show ?thesis
  proof (cases q)
    case (Inl e)
    show ?thesis
    proof (cases "e = Closed")
      case True
      show ?thesis by (rule closed [of k k']) (use assms Some send Inl True drop in \<open>simp_all add: frp_send_envelope_def\<close>)
    next
      case False
      show ?thesis by (rule failed [of k e k']) (use assms Some send Inl False in \<open>simp_all add: frp_send_envelope_def\<close>)
    qed
  next
    case (Inr u)
    show ?thesis by (rule sent [of k k']) (use assms Some send Inr in \<open>simp_all add: frp_send_envelope_def\<close>)
  qed
qed

lemma drop_connection_ok: "frp_ok d \<Longrightarrow> conn d \<noteq> None \<Longrightarrow> frp_ok (drop_connection d)"
  by (auto simp: frp_ok_def drop_connection_def request_connection_def on_the_way_def split: if_splits)

lemma send_envelope_ok:
  assumes "frp_ok d" "frp_send_envelope fo env d = (r, d')"
  shows "frp_ok d'"
  using assms(2)
proof (cases rule: send_envelope_cases)
  case closed
  then show ?thesis using assms(1) drop_connection_ok by fastforce
qed (use assms(1) in \<open>auto simp: frp_ok_def on_the_way_def\<close>)

lemma frp_ok_fields [frp_simps]:
  "frp_ok (d\<lparr>last_telemetry := t\<rparr>) = frp_ok d" "frp_ok (d\<lparr>frp_shot_number := n\<rparr>) = frp_ok d"
  "frp_ok (d\<lparr>device_name := s\<rparr>) = frp_ok d"
  by (simp_all add: frp_ok_def on_the_way_def)

lemma send_ready_ok: "frp_ok d \<Longrightarrow> send_ready fo b d = (r, d') \<Longrightarrow> frp_ok d'"
  unfolding send_ready_def Let_def by (erule send_envelope_ok [rotated]) (simp add: frp_simps)

lemma send_events_ok: "frp_ok d \<Longrightarrow> send_events fo evs d = (r, d') \<Longrightarrow> frp_ok d'"
proof (induction evs arbitrary: d)
  case (Cons ev evs)
  obtain q d1 where send: "frp_send_envelope fo \<lparr>env_device = device_name d, env_event = ev\<rparr> d = (q, d1)" by fastforce
  have "frp_ok d1" using send_envelope_ok [OF Cons.prems(1) send] .
  then show ?case using Cons send by (cases q) (auto split: if_splits)
qed simp

lemma handle_event_ok:
  assumes "frp_ok d" "handle_event fo nanos ev d = (r, d')"
  shows "frp_ok d'"
proof (cases "\<exists>s. ev = Shot s")
  case True
  then obtain s where ev: "ev = Shot s" by blast
  obtain q d1 where send: "send_ready fo False d = (q, d1)" by fastforce
  have "frp_ok d1" using send_ready_ok [OF assms(1) send] .
  then show ?thesis
    using assms(2) ev send send_events_ok [of "d1\<lparr>frp_shot_number := frp_shot_number d1 + 1\<rparr>" fo]
    by (cases q) (auto simp: handle_event_def Let_def frp_simps)
qed (use assms send_ready_ok in \<open>cases ev; auto simp: handle_event_def\<close>)

lemma poll_connection_ok:
  assumes "frp_ok d" "poll_connection fo d = (r, d')"
  shows "frp_ok d'"
proof (cases "conn d = None \<and> incoming d \<noteq> []")
  case True
  then obtain k rest where k: "incoming d = k # rest" by (cases "incoming d") auto
  let ?d = "d\<lparr>incoming := rest, pending := False, conn := Some k\<rparr>"
  have ok: "frp_ok ?d" using assms(1) True k by (auto simp: frp_ok_def on_the_way_def split: if_splits)
  show ?thesis
  proof (cases "last_telemetry d")
    case None
    then show ?thesis using assms(2) True k ok by (simp add: poll_connection_def)
  next
    case (Some env)
    obtain q d1 where send: "frp_send_envelope fo env ?d = (q, d1)" by fastforce
    then show ?thesis
      using assms(2) True k Some send_envelope_ok [OF ok send] by (cases q) (auto simp: poll_connection_def)
  qed
qed (use assms in \<open>auto simp: poll_connection_def split: list.splits if_splits\<close>)

lemma check_controller_ok:
  assumes "frp_ok d" "check_controller fo d = (r, d')"
  shows "frp_ok d'"
proof (cases "conn d")
  case (Some k)
  obtain q k' where "conn_try_recv fo k = (q, k')" by fastforce
  moreover have "frp_ok (d\<lparr>conn := Some k'\<rparr>)" using assms(1) Some by (auto simp: frp_ok_def on_the_way_def)
  moreover from this have "frp_ok (drop_connection (d\<lparr>conn := Some k'\<rparr>))" by (rule drop_connection_ok) simp
  ultimately show ?thesis
    using assms(2) Some by (cases q) (auto simp: check_controller_def split: option.splits)
qed (use assms in \<open>simp add: check_controller_def\<close>)

lemma acceptor_step_ok: "frp_ok d \<Longrightarrow> acceptor_step t d = Some d' \<Longrightarrow> frp_ok d'"
  by (erule turnE; cases "requests d"; cases "incoming d") (auto simp: frp_ok_def on_the_way_def split: if_splits)

lemma frp_step_ok: "frp_step fo d d' \<Longrightarrow> frp_ok d \<Longrightarrow> frp_ok d'"
  by (induction rule: frp_step.induct)
     (auto simp: set_device_name_def send_device_info_def frp_simps
       intro: acceptor_step_ok poll_connection_ok check_controller_ok handle_event_ok send_ready_ok)

lemma frp_reach_ok: "frp_reach fo d \<Longrightarrow> frp_ok d"
proof (induction rule: frp_reach.induct)
  case (spawned d)
  then show ?case by (auto simp: frp_spawn_def request_connection_def frp_ok_def on_the_way_def)
qed (rule frp_step_ok)

fun acceptor_run :: "'k acceptor_turn list \<Rightarrow> 'k frp_device \<Rightarrow> 'k frp_device option" where
  "acceptor_run [] d = Some d"
| "acceptor_run (t # ts) d = Option.bind (acceptor_step t d) (acceptor_run ts)"

lemma acceptor_delivers:
  assumes "frp_ok d" "acceptor d \<noteq> Dead" "conn d = None"
  shows "\<exists>ts d' k'. set ts \<subseteq> {TakeRequest, Established k} \<and> length ts \<le> 2 \<and>
    acceptor_run ts d = Some d' \<and> incoming d' = [k'] \<and> conn d' = None \<and>
    last_telemetry d' = last_telemetry d"
proof -
  have one: "on_the_way d = 1" using assms by (simp add: frp_ok_def)
  consider (made) "acceptor d = AwaitingRequest" "requests d = 0" "length (incoming d) = 1"
    | (asked) "acceptor d = AwaitingRequest" "requests d = 1" "incoming d = []"
    | (making) "acceptor d = Connecting" "requests d = 0" "incoming d = []"
    using one assms(2) by (cases "acceptor d"; cases "requests d"; cases "incoming d") (auto simp: on_the_way_def)
  then show ?thesis
  proof cases
    case made
    then obtain k' where "incoming d = [k']" by (cases "incoming d") auto
    then show ?thesis using assms(3) by (intro exI [of _ "[]"]) simp
  next
    case asked
    then show ?thesis
      using assms(3) by (intro exI [of _ "[TakeRequest, Established k]"]) simp
  next
    case making
    then show ?thesis
      using assms(3) by (intro exI [of _ "[Established k]"]) simp
  qed
qed

subsection \<open>What the controller gets\<close>

text \<open>\<open>received\<close> is what a connection has transmitted: a send adds its envelope or fails and adds nothing.\<close>

definition conn_log :: "'k frp_ops \<Rightarrow> ('k \<Rightarrow> frp_envelope list) \<Rightarrow> bool" where
  "conn_log fo received \<longleftrightarrow>
     (\<forall>env k. case conn_send fo env k of
        (Inr _, k') \<Rightarrow> received k' = received k @ [env]
      | (Inl _, k') \<Rightarrow> received k' = received k)"

text \<open>A transmission of \<open>envs\<close> that started on connection \<open>k\<close>: all of them with \<open>Ok\<close>, a proper part from the front
  with an error, or the connection closed and dropped, which is no error.\<close>

definition transmitted ::
  "('k \<Rightarrow> frp_envelope list) \<Rightarrow> 'k \<Rightarrow> frp_envelope list \<Rightarrow> (frp_error + unit) \<times> 'k frp_device \<Rightarrow> bool" where
  "transmitted received k envs rd \<longleftrightarrow>
     (let (r, d) = rd in
      case conn d of
        None \<Rightarrow> r = Inr ()
      | Some k' \<Rightarrow>
          (\<exists>n. received k' = received k @ take n envs \<and> (if r = Inr () then n = length envs else n < length envs)))"

lemma send_envelope_transmits:
  assumes "conn_log fo received" "conn d = Some k"
  shows "transmitted received k [env] (frp_send_envelope fo env d)"
proof -
  obtain r d' where send: "frp_send_envelope fo env d = (r, d')" by fastforce
  have log: "conn_send fo env k = (Inr u, k') \<Longrightarrow> received k' = received k @ [env]"
    "conn_send fo env k = (Inl e, k') \<Longrightarrow> received k' = received k" for u e k'
    using assms(1) [unfolded conn_log_def, rule_format, of k env] by simp_all
  from send have "transmitted received k [env] (r, d')"
  proof (cases rule: send_envelope_cases)
    case (sent k1 k')
    then show ?thesis using assms(2) log by (auto simp: transmitted_def intro: exI [of _ 1])
  next
    case (closed k1 k')
    then show ?thesis by (simp add: transmitted_def drop_connection_def request_connection_def)
  next
    case (failed k1 k' e)
    then show ?thesis using assms(2) log by (auto simp: transmitted_def intro: exI [of _ 0])
  qed (use assms(2) in simp)
  with send show ?thesis by simp
qed

lemma send_keeps_name: "device_name (snd (frp_send_envelope fo env d)) = device_name d"
    "frp_shot_number (snd (frp_send_envelope fo env d)) = frp_shot_number d"
  by (simp_all add: frp_send_envelope_def drop_connection_def request_connection_def split: option.splits prod.splits sum.splits)

lemma transmitted_append:
  assumes "transmitted received k xs (Inr (), d1)" "conn d1 = Some k1" "transmitted received k1 ys rd"
  shows "transmitted received k (xs @ ys) rd"
proof -
  have xs: "received k1 = received k @ xs" using assms(1,2) by (auto simp: transmitted_def)
  obtain r d where rd: "rd = (r, d)" by fastforce
  show ?thesis
  proof (cases "conn d")
    case (Some k')
    then obtain n where "received k' = received k1 @ take n ys" "if r = Inr () then n = length ys else n < length ys"
      using assms(3) rd by (auto simp: transmitted_def)
    then show ?thesis using xs rd Some by (auto simp: transmitted_def intro!: exI [of _ "length xs + n"])
  qed (use assms(3) rd in \<open>simp add: transmitted_def\<close>)
qed

lemma transmitted_more:
  "transmitted received k xs (Inl e, d) \<Longrightarrow> transmitted received k (xs @ ys) (Inl e, d)"
  by (fastforce simp: transmitted_def split: option.splits)

lemma send_events_transmit:
  assumes "conn_log fo received"
  shows "conn d = Some k \<Longrightarrow>
    transmitted received k (map (\<lambda>ev. \<lparr>env_device = device_name d, env_event = ev\<rparr>) evs) (send_events fo evs d)"
proof (induction evs arbitrary: d k)
  case Nil
  then show ?case by (simp add: transmitted_def)
next
  case (Cons ev evs)
  let ?env = "\<lparr>env_device = device_name d, env_event = ev\<rparr>"
  obtain r d1 where send: "frp_send_envelope fo ?env d = (r, d1)" by fastforce
  have one: "transmitted received k [?env] (r, d1)"
    using send_envelope_transmits [OF assms Cons.prems, of ?env] send by simp
  have name: "device_name d1 = device_name d" using send_keeps_name(1) [of fo ?env d] send by simp
  show ?case
  proof (cases r)
    case (Inl e)
    then show ?thesis using Cons.prems send transmitted_more [OF one [unfolded Inl]] by simp
  next
    case (Inr u)
    show ?thesis
    proof (cases "conn d1")
      case None
      then show ?thesis using Cons.prems send Inr by (cases evs) (simp_all add: transmitted_def)
    next
      case (Some k1)
      show ?thesis
        using transmitted_append [OF one [unfolded Inr, simplified] Some Cons.IH [OF Some]] Cons.prems send Inr name
        by simp
    qed
  qed
qed

definition shot_envelopes :: "string \<Rightarrow> shot_key \<Rightarrow> shot_data \<Rightarrow> frp_envelope list" where
  "shot_envelopes name key s =
     telemetry_envelope name False # map (\<lambda>ev. \<lparr>env_device = name, env_event = ev\<rparr>) (shot_events key s)"

lemma handle_shot_transmits:
  assumes "conn_log fo received" "conn d = Some k"
  shows "transmitted received k
    (shot_envelopes (device_name d) \<lparr>key_shot_id = uuid_v4 nanos, key_shot_number = frp_shot_number d + 1\<rparr> s)
    (handle_event fo nanos (Shot s) d)"
proof -
  let ?key = "\<lparr>key_shot_id = uuid_v4 nanos, key_shot_number = frp_shot_number d + 1\<rparr>"
  let ?t = "telemetry_envelope (device_name d) False" and ?d = "d\<lparr>last_telemetry := Some (telemetry_envelope (device_name d) False)\<rparr>"
  obtain r d1 where send: "frp_send_envelope fo ?t ?d = (r, d1)" by fastforce
  have one: "transmitted received k [?t] (r, d1)"
    using send_envelope_transmits [OF assms(1), of ?d k ?t] assms(2) send by simp
  have keep: "device_name d1 = device_name d" "frp_shot_number d1 = frp_shot_number d"
    using send_keeps_name [of fo ?t ?d] send by simp_all
  show ?thesis
  proof (cases r)
    case (Inl e)
    then show ?thesis
      using transmitted_more [OF one [unfolded Inl]] send
      by (simp add: handle_event_def send_ready_def shot_envelopes_def Let_def)
  next
    case (Inr u)
    show ?thesis
    proof (cases "conn d1")
      case None
      then show ?thesis
        using send Inr by (simp add: handle_event_def send_ready_def Let_def transmitted_def shot_events_def)
    next
      case (Some k1)
      let ?d1 = "d1\<lparr>frp_shot_number := frp_shot_number d + 1\<rparr>"
      have "conn ?d1 = Some k1" using Some by simp
      from transmitted_append [OF one [unfolded Inr, simplified] Some send_events_transmit [OF assms(1) this, of "shot_events ?key s"]]
      show ?thesis
        using send Inr keep by (simp add: handle_event_def send_ready_def shot_envelopes_def Let_def)
    qed
  qed
qed

subsection \<open>Shot identifiers have the form of a version 4 UUID\<close>

definition is_hex :: "char \<Rightarrow> bool" where
  "is_hex c \<longleftrightarrow> c \<in> set ''0123456789abcdef''"

lemma nibble_cases: "n < (16 :: u8) \<Longrightarrow> n \<in> set [0, 1, 2, 3, 4, 5, 6, 7, 8, 9, 10, 11, 12, 13, 14, 15]"
proof -
  assume "n < 16"
  then have "unat n < 16" by (simp add: word_less_nat_alt)
  then have "unat n \<in> set [0..<16]" by simp
  then have "n \<in> word_of_nat ` set [0..<16]" by (intro image_eqI [of _ _ "unat n"]) simp_all
  then show ?thesis by (simp add: upt_rec)
qed

lemma hex_digits: "list_all (\<lambda>n. is_hex (hex_digit n)) [0, 1, 2, 3, 4, 5, 6, 7, 8, 9, 10, 11, 12, 13, 14, 15]"
  by code_simp

lemma hex_digit_is_hex: "n < 16 \<Longrightarrow> is_hex (hex_digit n)"
  using hex_digits nibble_cases unfolding list_all_iff by blast

lemma low_nibble: "(b :: u8) AND 0x0f < 16"
proof -
  have "b AND 0x0f \<le> 0x0f" by (rule word_and_le1)
  then show ?thesis by (simp add: word_le_nat_alt word_less_nat_alt)
qed

lemma high_nibble: "drop_bit 4 (b :: u8) < 16"
proof -
  have "unat (drop_bit 4 b) = unat b div 16" by (simp only: unat_drop_bit_eq) (simp add: drop_bit_eq_div)
  moreover have "unat b < 256" using unsigned_less [of b] by simp
  ultimately show ?thesis by (simp add: word_less_nat_alt)
qed

lemma hex2_is_hex: "list_all is_hex (hex2 b)" "length (hex2 b) = 2"
  by (simp_all add: hex2_def hex_digit_is_hex low_nibble high_nibble)

lemma version_nibble: "drop_bit 4 ((b AND 0x0f) OR 0x40 :: u8) = 4"
  by (rule bit_word_eqI) (auto simp: bit_simps bit_numeral_rec less_Suc_eq numeral_eq_Suc)

lemma variant_nibble: "drop_bit 4 ((b AND 0x3f) OR 0x80 :: u8) \<in> {8, 9, 10, 11}"
proof -
  have "drop_bit 4 ((b AND 0x3f) OR 0x80 :: u8) = (drop_bit 4 b AND 3) OR 8"
    by (rule bit_word_eqI) (auto simp: bit_simps bit_numeral_rec less_Suc_eq numeral_eq_Suc)
  moreover have "list_all (\<lambda>n :: u8. (n AND 3) OR 8 \<in> {8, 9, 10, 11}) [0, 1, 2, 3, 4, 5, 6, 7, 8, 9, 10, 11, 12, 13, 14, 15]"
    by code_simp
  ultimately show ?thesis using nibble_cases [OF high_nibble, of b] unfolding list_all_iff by metis
qed

end
