(* ===== verification/Frp_App.thy ===== *)
theory Frp_App
  imports Ble Client_Session Frp
begin

text \<open>
  \<open>src/bin/tenover-frp.rs\<close>: the program that joins the client and the FRP device. What it prints is left out.
  \<open>start_app\<close> is \<open>main\<close> up to its loop, \<open>app_turn\<close> one round of the loop; the clocks of a round are
  arguments.
\<close>

datatype app_stop = ExitFailure | AppPanicked | AppBlocked

record ('t, 'k) app =
  app_client :: "'t client"
  app_frp :: "'k frp_device"
  shot_count :: u32
  ready_printed :: bool

text \<open>What \<open>main\<close> gets from outside: opening the endpoint in either direction and connecting to the device.\<close>

record 't app_env =
  open_bridge :: "string \<Rightarrow> string \<Rightarrow> frp_error + unit"
  open_serve :: "string \<Rightarrow> frp_error + unit"
  auto_connect :: "ble_error + 't"
  transport_address :: "'t \<Rightarrow> string"
  transport_mtu :: "'t \<Rightarrow> u16"

definition is_ws_url :: "string \<Rightarrow> bool" where
  "is_ws_url s \<longleftrightarrow> take 5 s = ''ws://'' \<or> take 6 s = ''wss://''"

definition start_app ::
  "'t transport_ops \<Rightarrow> 'k frp_ops \<Rightarrow> 't app_env \<Rightarrow> string list \<Rightarrow> app_stop + ('t, 'k) app" where
  "start_app tp fo e args =
     (let frp_target = (if 1 < length args then args ! 1 else ''0.0.0.0:5880'');
          frp = (if is_ws_url frp_target then frp_spawn (open_bridge e frp_target ''tenover'')
                 else frp_spawn (open_serve e frp_target))
      in case frp of
           Inl _ \<Rightarrow> Inl ExitFailure
         | Inr frp \<Rightarrow>
             (case auto_connect e of
                Inl _ \<Rightarrow> Inl ExitFailure
              | Inr t \<Rightarrow>
                  let frp = set_device_name (''Garmin R10 '' @ transport_address e t) frp;
                      frp = snd (send_device_info fo frp)
                  in case client_start tp (client_new t (unat (transport_mtu e t))) of
                       (Inl (Err _), _) \<Rightarrow> Inl ExitFailure
                     | (Inl Panicked, _) \<Rightarrow> Inl AppPanicked
                     | (Inl Blocked, _) \<Rightarrow> Inl AppBlocked
                     | (Inr _, c) \<Rightarrow>
                         Inr \<lparr>app_client = c, app_frp = frp, shot_count = 0, ready_printed = False\<rparr>))"

definition note_event :: "event \<Rightarrow> ('t, 'k) app \<Rightarrow> ('t, 'k) app" where
  "note_event ev a =
     (case ev of
        Ready \<Rightarrow> (if ready_printed a then a else a\<lparr>ready_printed := True\<rparr>)
      | StateChanged _ \<Rightarrow> a\<lparr>ready_printed := False\<rparr>
      | Shot _ \<Rightarrow> a\<lparr>ready_printed := False, shot_count := shot_count a + 1\<rparr>
      | _ \<Rightarrow> a)"

definition app_turn ::
  "'t transport_ops \<Rightarrow> platform \<Rightarrow> 'k frp_ops \<Rightarrow> nat \<Rightarrow> nat \<Rightarrow> ('t, 'k) app \<Rightarrow> app_stop + ('t, 'k) app" where
  "app_turn tp pf fo now nanos a =
     (case client_poll tp pf now (app_client a) of
        (Inr (Some ev), c) \<Rightarrow>
          (let a = note_event ev (a\<lparr>app_client := c\<rparr>);
               frp = snd (handle_event fo nanos ev (app_frp a));
               frp = snd (check_controller fo frp)
           in Inr (a\<lparr>app_frp := frp\<rparr>))
      | (Inr None, c) \<Rightarrow> Inr (a\<lparr>app_client := c, app_frp := snd (poll_connection fo (app_frp a))\<rparr>)
      | (Inl (Err (TransportError e)), c) \<Rightarrow> Inl ExitFailure
      | (Inl (Err e), c) \<Rightarrow> Inr (a\<lparr>app_client := c\<rparr>)
      | (Inl Panicked, c) \<Rightarrow> Inl AppPanicked
      | (Inl Blocked, c) \<Rightarrow> Inl AppBlocked)"

fun app_run ::
  "'t transport_ops \<Rightarrow> platform \<Rightarrow> 'k frp_ops \<Rightarrow> (nat \<times> nat) list \<Rightarrow> ('t, 'k) app \<Rightarrow> app_stop + ('t, 'k) app" where
  "app_run tp pf fo [] a = Inr a"
| "app_run tp pf fo ((now, nanos) # ts) a =
     (case app_turn tp pf fo now nanos a of Inl s \<Rightarrow> Inl s | Inr a' \<Rightarrow> app_run tp pf fo ts a')"

subsection \<open>What a round keeps\<close>

lemma note_event_fields [simp]:
  "app_client (note_event ev a) = app_client a" "app_frp (note_event ev a) = app_frp a"
  by (simp_all add: note_event_def split: event.splits)

definition app_ok :: "'t transport_ops \<Rightarrow> platform \<Rightarrow> ('t, 'k) app \<Rightarrow> bool" where
  "app_ok tp pf a \<longleftrightarrow> client_reach tp pf (app_client a) \<and> frp_ok (app_frp a)"

lemma app_turn_cases:
  assumes "app_turn tp pf fo now nanos a = Inr a'"
  obtains (event) ev c where "client_poll tp pf now (app_client a) = (Inr (Some ev), c)" "app_client a' = c"
      "app_frp a' = snd (check_controller fo (snd (handle_event fo nanos ev (app_frp a))))"
  | (idle) c where "client_poll tp pf now (app_client a) = (Inr None, c)" "app_client a' = c"
      "app_frp a' = snd (poll_connection fo (app_frp a))"
  | (warning) e c where "client_poll tp pf now (app_client a) = (Inl e, c)" "app_client a' = c" "app_frp a' = app_frp a"
proof -
  obtain r c where poll: "client_poll tp pf now (app_client a) = (r, c)" by fastforce
  consider ev where "r = Inr (Some ev)" | "r = Inr None" | e where "r = Inl e" by (metis sum.exhaust option.exhaust)
  then show thesis
  proof cases
    case 1
    show ?thesis by (rule event [OF poll [unfolded 1]]) (use assms poll 1 in \<open>auto simp: app_turn_def Let_def\<close>)
  next
    case 2
    show ?thesis by (rule idle [OF poll [unfolded 2]]) (use assms poll 2 in \<open>auto simp: app_turn_def Let_def\<close>)
  next
    case 3
    show ?thesis
      by (rule warning [OF poll [unfolded 3]])
         (use assms poll 3 in \<open>auto simp: app_turn_def Let_def split: failure.splits error.splits\<close>)
  qed
qed

lemma frp_ok_snd:
  "frp_ok d \<Longrightarrow> frp_ok (snd (handle_event fo nanos ev d))" "frp_ok d \<Longrightarrow> frp_ok (snd (poll_connection fo d))"
  "frp_ok d \<Longrightarrow> frp_ok (snd (check_controller fo d))" "frp_ok d \<Longrightarrow> frp_ok (snd (send_device_info fo d))"
  using handle_event_ok poll_connection_ok check_controller_ok send_ready_ok
  by (metis prod.collapse send_device_info_def)+

lemma poll_reach: "client_reach tp pf c \<Longrightarrow> client_poll tp pf now c = (r, c') \<Longrightarrow> client_reach tp pf c'"
  by (rule client_reach.step [where op = "Poll now"]) simp_all

lemma app_turn_ok: "app_ok tp pf a \<Longrightarrow> app_turn tp pf fo now nanos a = Inr a' \<Longrightarrow> app_ok tp pf a'"
  by (erule app_turn_cases) (auto simp: app_ok_def frp_ok_snd dest: poll_reach)

lemma app_run_ok: "app_ok tp pf a \<Longrightarrow> app_run tp pf fo ts a = Inr a' \<Longrightarrow> app_ok tp pf a'"
proof (induction ts arbitrary: a)
  case (Cons t ts)
  obtain now nanos where t: "t = (now, nanos)" by fastforce
  then obtain a1 where "app_turn tp pf fo now nanos a = Inr a1" "app_run tp pf fo ts a1 = Inr a'"
    using Cons.prems(2) by (auto split: sum.splits)
  then show ?case using Cons.IH app_turn_ok [OF Cons.prems(1)] by blast
qed simp

lemma start_app_ok:
  assumes "start_app tp fo e args = Inr a"
  shows "app_ok tp pf a"
proof -
  obtain w frp n t m c where frp: "frp_spawn w = Inr frp" and start: "client_start tp (client_new t m) = (Inr (), c)"
      and a: "app_client a = c" "app_frp a = snd (send_device_info fo (set_device_name n frp))"
    using assms unfolding start_app_def Let_def
    by (auto split: sum.splits prod.splits if_splits failure.splits)
  have "frp_ok frp"
    using frp by (auto simp: frp_spawn_def request_connection_def frp_ok_def on_the_way_def split: sum.splits)
  moreover have "client_exec tp pf Start (client_new t m) = (Inr None, c)" by (simp add: start)
  then have "client_reach tp pf c" by (rule client_reach.step [OF client_reach.new])
  ultimately show ?thesis using a by (simp add: app_ok_def frp_ok_snd set_device_name_def frp_simps)
qed

end
