(* ===== verification/Frp_Properties.thy ===== *)
theory Frp_Properties
  imports Frp
begin

text \<open>
  The properties of the FRP device of \<open>src/frp/mod.rs\<close>: its connections, the envelopes a controller gets of an
  event, and the form of the shot identifiers.
\<close>

subsection \<open>Reconnecting\<close>

lemma acceptor_then_adopted:
  assumes ok: "frp_ok d" "acceptor d \<noteq> Dead" "conn d = None"
    and sends: "\<And>env k. fst (conn_send fo env k) = Inr ()"
  shows "\<exists>ts d'. set ts \<subseteq> {TakeRequest, Established k} \<and> length ts \<le> 2 \<and> acceptor_run ts d = Some d' \<and>
    fst (poll_connection fo d') = Inr True \<and> is_connected (snd (poll_connection fo d'))"
proof -
  obtain ts d' k' where d': "set ts \<subseteq> {TakeRequest, Established k}" "length ts \<le> 2" "acceptor_run ts d = Some d'"
      "incoming d' = [k']" "conn d' = None"
    using acceptor_delivers [OF ok, of k] by blast
  have "fst (poll_connection fo d') = Inr True \<and> is_connected (snd (poll_connection fo d'))"
  proof (cases "last_telemetry d'")
    case None
    then show ?thesis using d' by (simp add: poll_connection_def is_connected_def)
  next
    case (Some env)
    obtain k1 where "conn_send fo env k' = (Inr (), k1)" using sends [of env k'] by (cases "conn_send fo env k'") auto
    then show ?thesis
      using d' Some by (simp add: poll_connection_def is_connected_def frp_send_envelope_def)
  qed
  with d' show ?thesis by blast
qed

subsection \<open>The form of a UUID\<close>

lemma length_uuid_bytes: "length (uuid_bytes nanos) = 16"
  by (simp add: uuid_bytes_def Let_def)

lemma uuid_version_variant:
  "hex_digit (drop_bit 4 (uuid_bytes nanos ! 6)) = CHR ''4''"
  "hex_digit (drop_bit 4 (uuid_bytes nanos ! 8)) \<in> set ''89ab''"
proof -
  have six: "drop_bit 4 (uuid_bytes nanos ! 6) = 4"
  proof -
    have "\<exists>b. uuid_bytes nanos ! 6 = (b AND 0x0f) OR 0x40" by (auto simp: uuid_bytes_def Let_def nth_list_update)
    then show ?thesis using version_nibble by metis
  qed
  have "hex_digit 4 = CHR ''4''" by code_simp
  then show "hex_digit (drop_bit 4 (uuid_bytes nanos ! 6)) = CHR ''4''" using six by simp
  have "drop_bit 4 (uuid_bytes nanos ! 8) \<in> {8, 9, 10, 11}"
    using variant_nibble by (simp add: uuid_bytes_def Let_def nth_list_update)
  moreover have "list_all (\<lambda>n. hex_digit n \<in> set ''89ab'') [8, 9, 10, 11]" by code_simp
  ultimately show "hex_digit (drop_bit 4 (uuid_bytes nanos ! 8)) \<in> set ''89ab''"
    unfolding list_all_iff by (metis list.set(1) list.set(2))
qed

lemma hex_bytes: "is_hex (hex_digit (drop_bit 4 b))" "is_hex (hex_digit (b AND 15))"
  using hex_digit_is_hex high_nibble low_nibble by simp_all

lemma uuid_form:
  assumes "length bs = 16"
  shows "length (uuid_format bs) = 36 \<and> uuid_format bs ! 14 = hex_digit (drop_bit 4 (bs ! 6)) \<and>
    uuid_format bs ! 19 = hex_digit (drop_bit 4 (bs ! 8)) \<and>
    list_all (\<lambda>i. if i \<in> {8, 13, 18, 23} then uuid_format bs ! i = CHR ''-'' else is_hex (uuid_format bs ! i)) [0..<36]"
proof -
  obtain b0 b1 b2 b3 b4 b5 b6 b7 b8 b9 b10 b11 b12 b13 b14 b15 where
    bs: "bs = [b0, b1, b2, b3, b4, b5, b6, b7, b8, b9, b10, b11, b12, b13, b14, b15]"
    using assms by (auto simp: length_Suc_conv numeral_eq_Suc)
  show ?thesis
    unfolding bs uuid_format_def subrange_def hex2_def
    by (simp add: hex_bytes upt_rec)
qed

subsection \<open>A controller for the witnesses\<close>

text \<open>A connection that transmits everything, one whose peer closes after two envelopes, as the list of what
  was transmitted.\<close>

definition open_ops :: "frp_envelope list frp_ops" where
  "open_ops = \<lparr>conn_send = (\<lambda>env k. (Inr (), k @ [env])), conn_try_recv = (\<lambda>k. (Inr None, k))\<rparr>"

definition closing_ops :: "frp_envelope list frp_ops" where
  "closing_ops = open_ops\<lparr>conn_send := \<lambda>env k. if length k < 2 then (Inr (), k @ [env]) else (Inl Closed, k)\<rparr>"

lemma demo_logs: "conn_log open_ops (\<lambda>k. k)" "conn_log closing_ops (\<lambda>k. k)"
  by (simp_all add: conn_log_def open_ops_def closing_ops_def)

definition idle_device :: "frp_envelope list frp_device" where
  "idle_device =
     \<lparr>conn = Some [], requests = 0, incoming = [], acceptor = AwaitingRequest, pending = False,
      last_telemetry = None, device_name = ''R10'', frp_shot_number = 0\<rparr>"

definition plain_shot :: shot_data where
  "plain_shot = \<lparr>shot_id = 7, kind = Regular, ball = None, club = None, swing = None\<rparr>"

subsection \<open>Properties\<close>

text \<open>C29: one connection at a time: while the acceptor thread lives, every reachable device either has a controller
  and nothing on the way, or has none and exactly one connection asked for, being made or waiting.\<close>

theorem one_connection_at_a_time:
  assumes "frp_reach fo d"
  shows "if acceptor d = Dead then True
    else if is_connected d then \<not> pending d \<and> requests d = 0 \<and> incoming d = [] \<and> acceptor d = AwaitingRequest
    else pending d \<and> requests d + (if acceptor d = Connecting then 1 else 0) + length (incoming d) = 1"
  using frp_reach_ok [OF assms]
  by (cases "acceptor d") (auto simp: frp_ok_def on_the_way_def is_connected_def split: if_splits)

theorem one_connection_at_a_time_witness:
  "\<exists>d. frp_spawn (Inr ()) = Inr (d :: frp_envelope list frp_device) \<and> pending d \<and>
     requests d + (if acceptor d = Connecting then 1 else 0) + length (incoming d) = 1"
proof -
  obtain d :: "frp_envelope list frp_device" where d: "frp_spawn (Inr ()) = Inr d" "conn d = None" "acceptor d \<noteq> Dead"
    by (auto simp: frp_spawn_def request_connection_def)
  then show ?thesis
    using one_connection_at_a_time [OF frp_reach.spawned [OF d(1)]] by (auto simp: is_connected_def)
qed

text \<open>C30: a device without controller gets one: from any reachable state with a live acceptor thread, when the next
  attempt succeeds, at most two turns of the thread and one poll connect it, with the telemetry sent.\<close>

theorem controller_reconnects:
  assumes "frp_reach fo d" "acceptor d \<noteq> Dead" "\<not> is_connected d"
    and "\<And>env k. fst (conn_send fo env k) = Inr ()"
  shows "\<exists>ts d'. set ts \<subseteq> {TakeRequest, Established k} \<and> length ts \<le> 2 \<and> acceptor_run ts d = Some d' \<and>
    fst (poll_connection fo d') = Inr True \<and> is_connected (snd (poll_connection fo d'))"
  using assms(2-4) by (intro acceptor_then_adopted [OF frp_reach_ok [OF assms(1)]]) (simp_all add: is_connected_def)

theorem controller_reconnects_witness:
  "\<exists>d ts d'. frp_spawn (Inr ()) = Inr d \<and> length ts \<le> 2 \<and> acceptor_run ts d = Some d' \<and>
     is_connected (snd (poll_connection open_ops d'))"
proof -
  obtain d :: "frp_envelope list frp_device" where d: "frp_spawn (Inr ()) = Inr d" "\<not> is_connected d" "acceptor d \<noteq> Dead"
    by (auto simp: frp_spawn_def request_connection_def is_connected_def)
  then show ?thesis
    using controller_reconnects [OF frp_reach.spawned [OF d(1)] d(3,2), where fo = open_ops and k = "[]"]
    by (auto simp: open_ops_def)
qed

text \<open>C10: what a controller gets of a shot: not ready, the trigger, the ball flight and the club path when the
  device measured them, and the end, all with one key that carries the next shot number. With \<open>Ok\<close> and
  the connection kept it got all of it, with an error a proper part from the front, and a connection
  that closes meanwhile is dropped without an error.\<close>

theorem shot_sequence:
  assumes "conn_log fo received" "conn d = Some k" "handle_event fo nanos (Shot s) d = (r, d')"
  shows "let key = \<lparr>key_shot_id = uuid_v4 nanos, key_shot_number = frp_shot_number d + 1\<rparr>;
             envs = telemetry_envelope (device_name d) False #
               map (\<lambda>ev. \<lparr>env_device = device_name d, env_event = ev\<rparr>)
                 ([ShotTrigger key] @ (case ball s of None \<Rightarrow> [] | Some b \<Rightarrow> [BallFlight key (frp_ball b)]) @
                  (case club s of None \<Rightarrow> [] | Some c \<Rightarrow> [ClubPath key (frp_club c)]) @ [ShotFinished key])
         in case conn d' of
              None \<Rightarrow> r = Inr ()
            | Some k' \<Rightarrow>
                (\<exists>n. received k' = received k @ take n envs \<and> (if r = Inr () then n = length envs else n < length envs))"
  using handle_shot_transmits [OF assms(1,2), of nanos s]
  by (simp only: assms(3) transmitted_def shot_envelopes_def shot_events_def Let_def prod.case)

theorem shot_sequence_witness:
  "(\<exists>k' d'. handle_event open_ops 5 (Shot plain_shot) idle_device = (Inr (), d') \<and> conn d' = Some k' \<and>
      k' = telemetry_envelope ''R10'' False #
        map (\<lambda>ev. \<lparr>env_device = ''R10'', env_event = ev\<rparr>)
          [ShotTrigger \<lparr>key_shot_id = uuid_v4 5, key_shot_number = 1\<rparr>, ShotFinished \<lparr>key_shot_id = uuid_v4 5, key_shot_number = 1\<rparr>]) \<and>
   (\<exists>d'. handle_event closing_ops 5 (Shot plain_shot) idle_device = (Inr (), d') \<and> conn d' = None \<and> pending d')"
proof
  have ok: "fst (handle_event open_ops 5 (Shot plain_shot) idle_device) = Inr ()"
      "conn (snd (handle_event open_ops 5 (Shot plain_shot) idle_device)) \<noteq> None"
    by (simp_all add: handle_event_def send_ready_def frp_send_envelope_def open_ops_def idle_device_def shot_events_def
        plain_shot_def Let_def)
  then obtain d' k' where d': "handle_event open_ops 5 (Shot plain_shot) idle_device = (Inr (), d')" "conn d' = Some k'"
    by (cases "handle_event open_ops 5 (Shot plain_shot) idle_device") auto
  have "conn idle_device = Some []" "device_name idle_device = ''R10''" "frp_shot_number idle_device = 0"
    by (simp_all add: idle_device_def)
  with d' show "\<exists>k' d'. handle_event open_ops 5 (Shot plain_shot) idle_device = (Inr (), d') \<and> conn d' = Some k' \<and>
      k' = telemetry_envelope ''R10'' False #
        map (\<lambda>ev. \<lparr>env_device = ''R10'', env_event = ev\<rparr>)
          [ShotTrigger \<lparr>key_shot_id = uuid_v4 5, key_shot_number = 1\<rparr>, ShotFinished \<lparr>key_shot_id = uuid_v4 5, key_shot_number = 1\<rparr>]"
    using shot_sequence [OF demo_logs(1) _ d'(1), of "[]"] by (auto simp: plain_shot_def Let_def)
  show "\<exists>d'. handle_event closing_ops 5 (Shot plain_shot) idle_device = (Inr (), d') \<and> conn d' = None \<and> pending d'"
    by (simp add: handle_event_def send_ready_def frp_send_envelope_def open_ops_def closing_ops_def idle_device_def
        shot_events_def plain_shot_def Let_def drop_connection_def request_connection_def)
qed

text \<open>A new controller is told at once: adopting a connection sends it the last telemetry envelope first, and
  that envelope says ready after a \<open>Ready\<close> event and not ready after a shot or any other change of state.\<close>

theorem new_controller_told_readiness:
  assumes "conn_log fo received" "conn d = None" "incoming d = k # rest" "last_telemetry d = Some env"
    and "poll_connection fo d = (Inr True, d')" "conn d' = Some k'"
  shows "received k' = received k @ [env] \<and>
    last_telemetry (snd (handle_event fo nanos Ready d')) = Some (telemetry_envelope (device_name d') True) \<and>
    last_telemetry (snd (handle_event fo nanos (StateChanged st) d')) = Some (telemetry_envelope (device_name d') False)"
proof -
  have keeps: "last_telemetry (snd (frp_send_envelope fo e x)) = last_telemetry x" for e x
    by (simp add: frp_send_envelope_def drop_connection_def request_connection_def split: option.splits prod.splits sum.splits)
  let ?d = "d\<lparr>incoming := rest, pending := False, conn := Some k\<rparr>"
  obtain r d1 where send: "frp_send_envelope fo env ?d = (r, d1)" by fastforce
  have "r = Inr () \<and> d1 = d'" using assms(2-5) send by (cases r) (auto simp: poll_connection_def)
  then have "transmitted received k [env] (Inr (), d')"
    using send_envelope_transmits [OF assms(1), of ?d k env] send by simp
  then show ?thesis using assms(6) keeps by (simp add: transmitted_def handle_event_def send_ready_def Let_def)
qed

theorem new_controller_told_readiness_witness:
  "\<exists>d'. poll_connection open_ops (idle_device\<lparr>conn := None, pending := True, incoming := [[]],
        last_telemetry := Some (telemetry_envelope ''R10'' True)\<rparr>) = (Inr True, d') \<and>
     conn d' = Some [telemetry_envelope ''R10'' True]"
proof -
  let ?d = "idle_device\<lparr>conn := None, pending := True, incoming := [[]], last_telemetry := Some (telemetry_envelope ''R10'' True)\<rparr>"
  obtain d' k' where d': "poll_connection open_ops ?d = (Inr True, d')" "conn d' = Some k'"
    by (simp add: poll_connection_def frp_send_envelope_def open_ops_def)
  then show ?thesis
    using new_controller_told_readiness [OF demo_logs(1) _ _ _ d', of "[]" "[]"] by simp
qed

text \<open>Shot identifiers are version 4 UUIDs at any time: 36 characters, dashes at the four places, hexadecimal
  digits elsewhere, the version digit 4 and a variant digit from 8 to b.\<close>

theorem uuid_well_formed:
  "length (uuid_v4 nanos) = 36 \<and> uuid_v4 nanos ! 14 = CHR ''4'' \<and> uuid_v4 nanos ! 19 \<in> set ''89ab'' \<and>
   list_all (\<lambda>i. if i \<in> {8, 13, 18, 23} then uuid_v4 nanos ! i = CHR ''-'' else is_hex (uuid_v4 nanos ! i)) [0..<36]"
  using uuid_form [OF length_uuid_bytes, of nanos] uuid_version_variant [of nanos]
  unfolding uuid_v4_def by (elim conjE, intro conjI) (simp only:)+

end
