(* ===== verification/App_Properties.thy ===== *)
theory App_Properties
  imports Frp_App Frp_Properties Session_Properties
begin

text \<open>
  The properties of the program \<open>src/bin/tenover-frp.rs\<close>: it neither panics nor blocks, and a shot the device pushes
  reaches the controller through every layer of the crate.
\<close>

subsection \<open>Properties\<close>

lemma poll_returns:
  assumes "transport_contract tp" "client_reach tp pf c"
  shows "fst (client_poll tp pf now c) \<notin> {Inl Panicked, Inl Blocked}"
  using transport_contract.reach_no_panic [OF assms, of "Poll now"] by simp

lemma run_never_halts:
  assumes "transport_contract tp"
  shows "app_ok tp pf a \<Longrightarrow> app_run tp pf fo ts a \<notin> {Inl AppPanicked, Inl AppBlocked}"
proof (induction ts arbitrary: a)
  case (Cons t ts)
  obtain now nanos where t: "t = (now, nanos)" by fastforce
  have "fst (client_poll tp pf now (app_client a)) \<notin> {Inl Panicked, Inl Blocked}"
    using poll_returns [OF assms] Cons.prems by (simp add: app_ok_def)
  then have "app_turn tp pf fo now nanos a \<notin> {Inl AppPanicked, Inl AppBlocked}"
    by (auto simp: app_turn_def Let_def split: prod.splits sum.splits option.splits failure.splits error.splits)
  then show ?case
    using t Cons.IH app_turn_ok [OF Cons.prems] by (auto split: sum.splits)
qed simp

lemma start_never_halts:
  assumes "transport_contract tp"
  shows "start_app tp fo e args \<notin> {Inl AppPanicked, Inl AppBlocked}"
proof -
  have "fst (client_start tp c) \<notin> {Inl Panicked, Inl Blocked}" for c
    by (cases rule: transport_contract.start_ends [OF assms, of c]) simp_all
  then show ?thesis
    unfolding start_app_def Let_def by (auto split: sum.splits prod.splits failure.splits) (metis fst_conv)+
qed

text \<open>C32: the program neither panics nor hangs in a write: over the real transports, with a kernel that keeps to
  its contract and a background task that leaves room for writes, starting ends with exit status 1 or with the loop
  entered, the loop runs any number of rounds or ends with exit status 1, and after every round the client is a
  reachable one and the FRP device keeps at most one connection. A write loop that slices out of range or never ends
  would be a stop of its own.\<close>

theorem program_never_panics:
  assumes "fd_contract os" "makes_room bg"
  shows "case start_app (ble_ops os bg) fo e args of
      Inl s \<Rightarrow> s = ExitFailure
    | Inr a \<Rightarrow>
        (case app_run (ble_ops os bg) pf fo ts a of
           Inl s \<Rightarrow> s = ExitFailure
         | Inr a' \<Rightarrow> client_reach (ble_ops os bg) pf (app_client a') \<and> frp_ok (app_frp a'))"
proof -
  have stops: "s = ExitFailure" if "s \<notin> {AppPanicked, AppBlocked}" for s
    using that by (cases s) simp_all
  note contract = ble_contract [OF assms]
  show ?thesis
  proof (cases "start_app (ble_ops os bg) fo e args")
    case (Inl s)
    then show ?thesis using start_never_halts [OF contract, of fo e args] stops by simp
  next
    case (Inr a)
    have ok: "app_ok (ble_ops os bg) pf a" by (rule start_app_ok [OF Inr])
    show ?thesis
      using run_never_halts [OF contract ok, of fo ts] app_run_ok [OF ok, of fo ts] stops
      by (cases "app_run (ble_ops os bg) pf fo ts a") (auto simp: Inr app_ok_def)
  qed
qed

definition demo_env :: "(bytes \<times> nat) ble_transport app_env" where
  "demo_env =
     \<lparr>open_bridge = (\<lambda>u n. Inr ()), open_serve = (\<lambda>a. Inl Closed), auto_connect = Inr demo_ble,
      transport_address = ble_device_address, transport_mtu = ble_mtu\<rparr>"

text \<open>A kernel that reports one byte more than it was given, for the panic the contract excludes.\<close>

definition lying_linux :: "(bytes \<times> nat) linux" where
  "lying_linux = demo_linux\<lparr>sys_write := \<lambda>fd data w. (Inr (length data + 1), w)\<rparr>"

lemma lying_kernel_panics:
  "start_app (ble_ops lying_linux bt_serve) open_ops demo_env [''tenover-frp''] = Inl ExitFailure"
  "start_app (ble_ops lying_linux bt_serve) open_ops demo_env [''tenover-frp'', ''ws://hub/frp''] = Inl AppPanicked"
  by (simp_all add: start_app_def demo_env_def is_ws_url_def frp_spawn_def client_start_def client_new_def demo_ble_def
      ble_ops_def bluez_ops_def bluez_write_register_def Let_def build_register_def write_all_fd.simps lying_linux_def)

theorem program_never_panics_witness:
  "start_app (ble_ops demo_linux bt_serve) open_ops demo_env [''tenover-frp''] = Inl ExitFailure \<and>
   (\<exists>a. start_app (ble_ops demo_linux bt_serve) open_ops demo_env [''tenover-frp'', ''ws://hub/frp''] = Inr a \<and>
      app_run (ble_ops demo_linux bt_serve) demo_platform open_ops [(0, 0), (1, 1)] a
        \<notin> {Inl AppPanicked, Inl AppBlocked})"
proof
  let ?tp = "ble_ops demo_linux bt_serve"
  show "start_app ?tp open_ops demo_env [''tenover-frp''] = Inl ExitFailure"
    by (simp add: start_app_def demo_env_def is_ws_url_def frp_spawn_def)
  obtain r w where w: "write_all_fd demo_linux 7 (build_register 1 Gfdi) ([], 0) = Some (r, w)" "r = Inr ()"
    by (simp add: build_register_def le64_def le16_def write_all_fd.simps demo_linux_def)
  obtain a where a: "start_app ?tp open_ops demo_env [''tenover-frp'', ''ws://hub/frp''] = Inr a"
    using w by (simp add: start_app_def demo_env_def is_ws_url_def frp_spawn_def client_start_def client_new_def
        demo_ble_def ble_ops_def bluez_ops_def bluez_write_register_def Let_def)
  have "app_run ?tp demo_platform open_ops [(0, 0), (1, 1)] a \<notin> {Inl AppPanicked, Inl AppBlocked}"
    using program_never_panics [OF demo_linux_contracts(1) bt_serve_room, where fo = open_ops and e = demo_env
        and args = "[''tenover-frp'', ''ws://hub/frp'']" and pf = demo_platform and ts = "[(0, 0), (1, 1)]"]
    by (auto simp: a)
  with a show "\<exists>a. start_app ?tp open_ops demo_env [''tenover-frp'', ''ws://hub/frp''] = Inr a \<and>
      app_run ?tp demo_platform open_ops [(0, 0), (1, 1)] a \<notin> {Inl AppPanicked, Inl AppBlocked}"
    by blast
qed

lemma send_open:
  assumes "\<And>env k. fst (conn_send fo env k) = Inr ()" "conn d \<noteq> None"
  shows "\<exists>d'. frp_send_envelope fo env d = (Inr (), d') \<and> conn d' \<noteq> None"
proof -
  obtain k where k: "conn d = Some k" using assms(2) by blast
  obtain k' where "conn_send fo env k = (Inr (), k')" using assms(1) [of env k] by (cases "conn_send fo env k") auto
  then show ?thesis using k by (simp add: frp_send_envelope_def)
qed

lemma send_events_open:
  assumes "\<And>env k. fst (conn_send fo env k) = Inr ()"
  shows "conn d \<noteq> None \<Longrightarrow> \<exists>d'. send_events fo evs d = (Inr (), d') \<and> conn d' \<noteq> None"
proof (induction evs arbitrary: d)
  case (Cons ev evs)
  obtain d1 where "frp_send_envelope fo \<lparr>env_device = device_name d, env_event = ev\<rparr> d = (Inr (), d1)" "conn d1 \<noteq> None"
    using send_open [OF assms Cons.prems] by blast
  then show ?case using Cons by simp
qed simp

lemma handle_shot_open:
  assumes "\<And>env k. fst (conn_send fo env k) = Inr ()" "conn d \<noteq> None"
  shows "\<exists>d'. handle_event fo nanos (Shot s) d = (Inr (), d') \<and> conn d' \<noteq> None"
proof -
  obtain d1 where d1: "send_ready fo False d = (Inr (), d1)" "conn d1 \<noteq> None"
    using send_open [OF assms(1), of "d\<lparr>last_telemetry := Some (telemetry_envelope (device_name d) False)\<rparr>"] assms(2)
    by (auto simp: send_ready_def Let_def)
  then show ?thesis
    using send_events_open [OF assms(1), of "d1\<lparr>frp_shot_number := frp_shot_number d1 + 1\<rparr>"]
    by (simp add: handle_event_def Let_def)
qed

text \<open>C2: a shot reaches the controller: when the device pushes, in one frame that arrives whole, a shot whose number a
  registered client on the mock transport with nothing queued or buffered does not remember, and sending to the
  connected controller succeeds, one round of the program reads it and sends the connected controller not ready, the
  trigger, the measured parts and the end under the next shot number.\<close>

theorem shot_reaches_controller:
  assumes "between h ph (notification_of h (mt, p) # rx) (app_client a)" "ph \<noteq> Registering"
    and "sendable (mt, p)" "mt \<in> {MSG_PROTOBUF_REQUEST, MSG_PROTOBUF_RESPONSE}"
    and "parse_frag_header p = Inr (hdr, pb)" "decode_envelope pf pb = Inr (ShotEvent s)"
    and "list_all (\<lambda>(i, t). i \<noteq> shot_id s) (recent_shots (app_client a))"
    and "conn (app_frp a) = Some k" "conn_log fo received"
    and "\<And>env k. fst (conn_send fo env k) = Inr ()"
    and "\<And>k. conn_try_recv fo k = (Inr None, k)"
  shows "\<exists>a' k'. app_turn mock_ops pf fo now nanos a = Inr a' \<and> shot_count a' = shot_count a + 1 \<and>
    conn (app_frp a') = Some k' \<and>
    received k' = received k @ shot_envelopes (device_name (app_frp a))
      \<lparr>key_shot_id = uuid_v4 nanos, key_shot_number = frp_shot_number (app_frp a) + 1\<rparr> s"
proof -
  let ?d = "app_frp a"
  obtain c where poll: "client_poll mock_ops pf now (app_client a) = (Inr (fst (handle_shot now s (app_client a))), c)"
    using poll_shot [OF assms(1-3,5,6,4), of now] by auto
  have out: "fst (handle_shot now s (app_client a)) = Some (Shot s)"
    using assms(7) by (auto simp: handle_shot_def Let_def list_ex_iff list_all_iff)
  obtain d k' where d: "handle_event fo nanos (Shot s) ?d = (Inr (), d)" "conn d = Some k'"
    using handle_shot_open [OF assms(10), of ?d nanos s] assms(8) by auto
  have got: "received k' = received k @ shot_envelopes (device_name ?d)
      \<lparr>key_shot_id = uuid_v4 nanos, key_shot_number = frp_shot_number ?d + 1\<rparr> s"
    using handle_shot_transmits [OF assms(9,8), of nanos s] d by (auto simp: transmitted_def)
  have "conn (snd (check_controller fo d)) = Some k'" using d assms(11) by (simp add: check_controller_def)
  then show ?thesis
    using poll out d got by (simp add: app_turn_def Let_def note_event_def)
qed

definition demo_app :: "(mock_transport, frp_envelope list) app" where
  "demo_app =
     \<lparr>app_client = (client_new \<lparr>mock_rx = [notification_of 0 (MSG_PROTOBUF_REQUEST, protobuf_payload 4 [4])],
        mock_tx = [], mock_reg_tx = []\<rparr> 20)\<lparr>phase := Active\<rparr>,
      app_frp = idle_device, shot_count = 0, ready_printed = False\<rparr>"

theorem shot_reaches_controller_witness:
  "\<exists>a' k'. app_turn mock_ops demo_platform open_ops 0 5 demo_app = Inr a' \<and> shot_count a' = 1 \<and> conn (app_frp a') = Some k' \<and>
     k' = shot_envelopes ''R10'' \<lparr>key_shot_id = uuid_v4 5, key_shot_number = 1\<rparr> demo_shot"
proof -
  have "between 0 Active (notification_of 0 (MSG_PROTOBUF_REQUEST, protobuf_payload 4 [4]) # []) (app_client demo_app)"
    "list_all (\<lambda>(i, t). i \<noteq> shot_id demo_shot) (recent_shots (app_client demo_app))"
    "conn (app_frp demo_app) = Some []" "device_name (app_frp demo_app) = ''R10''" "frp_shot_number (app_frp demo_app) = 0"
    "shot_count demo_app = 0"
    by (simp_all add: demo_app_def between_def client_new_def stream_new_def idle_device_def)
  then show ?thesis
    using shot_reaches_controller [where mt = MSG_PROTOBUF_REQUEST and p = "protobuf_payload 4 [4]" and pb = "[4]" and
        s = demo_shot and pf = demo_platform and a = demo_app and h = 0 and ph = Active and rx = "[]" and k = "[]" and
        received = "\<lambda>k. k" and fo = open_ops and now = 0 and nanos = 5, OF _ _ demo_facts(15) _ demo_payload demo_decodes(4)]
      demo_logs(1)
    by (auto simp: open_ops_def)
qed

end
