(* ===== verification/R10_Example.thy ===== *)
theory R10_Example
  imports Ble Session_Properties "HOL-Library.Sublist"
begin

text \<open>
  \<open>examples/r10.rs\<close>: the console program that prints shots. A line it prints is a value of \<open>console\<close> with the
  numbers that go into it; rounding them to the printed digits is left out. \<open>start_example\<close> is \<open>main\<close> up to
  its loop, \<open>example_turn\<close> one round of the loop.
\<close>

subsection \<open>The program\<close>

datatype console =
    Searching
  | ConnectionFailed ble_error
  | Connected string u16
  | RegisteredLine u8
  | HandshakeLine
  | EnvironmentLine bool
  | ReadyLine
  | DeviceErrorLine device_error
  | ShotLine u32 u32
  | BallLine f32 f32 f32
  | SpinLine f32 f32 f32 f32 spin_calc_type
  | ClubLine f32 f32 f32 f32
  | TempoLine u32 u32
  | TransportErrorLine io_error
  | WarningLine error

datatype example_stop = ExitOne | ExamplePanicked | ExampleBlocked

record 't example =
  ex_client :: "'t client"
  ex_shot_count :: u32
  ex_ready_printed :: bool

text \<open>\<open>2.237\<close>.\<close>

definition MS_TO_MPH :: f32 where
  "MS_TO_MPH = 0x400F2B02"

definition saturating_sub :: "u32 \<Rightarrow> u32 \<Rightarrow> u32" where
  "saturating_sub a b = (if b \<le> a then a - b else 0)"

definition start_example ::
  "'t transport_ops \<Rightarrow> ble_error + 't \<Rightarrow> ('t \<Rightarrow> string) \<Rightarrow> ('t \<Rightarrow> u16) \<Rightarrow> console list \<times> (example_stop + 't example)" where
  "start_example tp connected address mtu_of =
     (case connected of
        Inl e \<Rightarrow> ([Searching, ConnectionFailed e], Inl ExitOne)
      | Inr t \<Rightarrow>
          ([Searching, Connected (address t) (mtu_of t)],
           case client_start tp (client_new t (unat (mtu_of t))) of
             (Inl Blocked, _) \<Rightarrow> Inl ExampleBlocked
           | (Inl _, _) \<Rightarrow> Inl ExamplePanicked
           | (Inr _, c) \<Rightarrow> Inr \<lparr>ex_client = c, ex_shot_count = 0, ex_ready_printed = False\<rparr>))"

text \<open>What is printed of a shot after its number.\<close>

definition shot_lines :: "shot_data \<Rightarrow> console list" where
  "shot_lines s =
     (case ball s of
        None \<Rightarrow> []
      | Some b \<Rightarrow>
          [BallLine (f32_mul (ball_speed b) MS_TO_MPH) (launch_angle b) (launch_direction b),
           SpinLine (total_spin b) (spin_axis b) (backspin b) (sidespin b) (spin_calc b)]) @
     (case club s of
        None \<Rightarrow> []
      | Some c \<Rightarrow> [ClubLine (f32_mul (club_head_speed c) MS_TO_MPH) (face_angle c) (path_angle c) (attack_angle c)]) @
     (case swing s of
        None \<Rightarrow> []
      | Some w \<Rightarrow>
          [TempoLine (saturating_sub (downswing_start w) (backswing_start w))
             (saturating_sub (impact w) (downswing_start w))])"

definition print_event :: "event \<Rightarrow> 't example \<Rightarrow> console list \<times> 't example" where
  "print_event ev a =
     (case ev of
        Registered h \<Rightarrow> ([RegisteredLine h], a)
      | HandshakeComplete \<Rightarrow> ([HandshakeLine], a)
      | Subscribed _ \<Rightarrow> ([], a)
      | Woken _ \<Rightarrow> ([], a)
      | EnvironmentReply success \<Rightarrow> ([EnvironmentLine success], a)
      | Ready \<Rightarrow> if ex_ready_printed a then ([], a) else ([ReadyLine], a\<lparr>ex_ready_printed := True\<rparr>)
      | StateChanged _ \<Rightarrow> ([], a\<lparr>ex_ready_printed := False\<rparr>)
      | DeviceError err \<Rightarrow> ([DeviceErrorLine err], a)
      | Shot s \<Rightarrow>
          (let a = a\<lparr>ex_ready_printed := False, ex_shot_count := ex_shot_count a + 1\<rparr>
           in (ShotLine (ex_shot_count a) (shot_id s) # shot_lines s, a)))"

definition example_turn ::
  "'t transport_ops \<Rightarrow> platform \<Rightarrow> nat \<Rightarrow> 't example \<Rightarrow> console list \<times> (example_stop + 't example)" where
  "example_turn tp pf now a =
     (case client_poll tp pf now (ex_client a) of
        (Inr (Some ev), c) \<Rightarrow> (let (out, a) = print_event ev (a\<lparr>ex_client := c\<rparr>) in (out, Inr a))
      | (Inr None, c) \<Rightarrow> ([], Inr (a\<lparr>ex_client := c\<rparr>))
      | (Inl (Err (TransportError e)), c) \<Rightarrow> ([TransportErrorLine e], Inl ExitOne)
      | (Inl (Err e), c) \<Rightarrow> ([WarningLine e], Inr (a\<lparr>ex_client := c\<rparr>))
      | (Inl Panicked, c) \<Rightarrow> ([], Inl ExamplePanicked)
      | (Inl Blocked, c) \<Rightarrow> ([], Inl ExampleBlocked))"

fun example_run ::
  "'t transport_ops \<Rightarrow> platform \<Rightarrow> nat list \<Rightarrow> 't example \<Rightarrow> console list \<times> (example_stop + 't example)" where
  "example_run tp pf [] a = ([], Inr a)"
| "example_run tp pf (now # nows) a =
     (case example_turn tp pf now a of
        (out, Inl s) \<Rightarrow> (out, Inl s)
      | (out, Inr a) \<Rightarrow> (let (rest, r) = example_run tp pf nows a in (out @ rest, r)))"

subsection \<open>What is on the console\<close>

fun numbered :: "console list \<Rightarrow> (u32 \<times> u32) list" where
  "numbered [] = []"
| "numbered (ShotLine n i # ls) = (n, i) # numbered ls"
| "numbered (_ # ls) = numbered ls"

lemma numbered_append [simp]: "numbered (ls @ ms) = numbered ls @ numbered ms"
  by (induction ls rule: numbered.induct) simp_all

lemma numbered_shot_lines [simp]: "numbered (shot_lines s) = []" "ReadyLine \<notin> set (shot_lines s)"
  by (simp_all add: shot_lines_def split: option.splits)

lemma numbered_event:
  "numbered (fst (print_event ev a)) = (case ev of Shot s \<Rightarrow> [(ex_shot_count a + 1, shot_id s)] | _ \<Rightarrow> [])"
  "ex_shot_count (snd (print_event ev a)) = (case ev of Shot s \<Rightarrow> ex_shot_count a + 1 | _ \<Rightarrow> ex_shot_count a)"
  "ex_client (snd (print_event ev a)) = ex_client a"
  by (simp_all add: print_event_def Let_def split: event.split)

lemma turn_cases:
  obtains (event) ev c where "client_poll tp pf now (ex_client a) = (Inr (Some ev), c)"
      "example_turn tp pf now a = (fst (print_event ev (a\<lparr>ex_client := c\<rparr>)), Inr (snd (print_event ev (a\<lparr>ex_client := c\<rparr>))))"
  | (quiet) r c out where "client_poll tp pf now (ex_client a) = (r, c)" "\<And>ev. r \<noteq> Inr (Some ev)"
      "numbered out = []" "ReadyLine \<notin> set out" "example_turn tp pf now a = (out, Inr (a\<lparr>ex_client := c\<rparr>))"
      "\<And>e. TransportErrorLine e \<notin> set out"
  | (gone) e c where "client_poll tp pf now (ex_client a) = (Inl (Err (TransportError e)), c)"
      "example_turn tp pf now a = ([TransportErrorLine e], Inl ExitOne)"
  | (halt) f c stop where "client_poll tp pf now (ex_client a) = (Inl f, c)" "f \<in> {Panicked, Blocked}"
      "example_turn tp pf now a = ([], Inl stop)"
proof -
  obtain r c where poll: "client_poll tp pf now (ex_client a) = (r, c)" by fastforce
  consider ev where "r = Inr (Some ev)" | "r = Inr None" | f where "r = Inl f" "f \<in> {Panicked, Blocked}"
    | e where "r = Inl (Err (TransportError e))" | e where "r = Inl (Err e)" "\<And>x. e \<noteq> TransportError x"
    by (metis sum.exhaust option.exhaust failure.exhaust insertCI)
  then show thesis
  proof cases
    case 1
    then show ?thesis using event [of ev c] poll by (simp add: example_turn_def split_beta)
  next
    case 2
    then show ?thesis using quiet [of r c "[]"] poll by (simp add: example_turn_def)
  next
    case 3
    then show ?thesis using halt [of f c] poll by (auto simp: example_turn_def)
  next
    case 4
    then show ?thesis using gone [of e c] poll by (simp add: example_turn_def)
  next
    case 5
    then show ?thesis
      by (intro quiet [of r c "[WarningLine e]"]) (use poll 5 in \<open>auto simp: example_turn_def split: error.splits\<close>)
  qed
qed

text \<open>The numbers count up by one, and the identifiers are those of the client's shots, up to the round that
  ends the program.\<close>

lemma run_numbers:
  assumes "example_run tp pf nows a = (out, r)"
  shows "map fst (numbered out) = map (\<lambda>i. ex_shot_count a + word_of_nat (Suc i)) [0..<length (numbered out)] \<and>
    prefix (map snd (numbered out)) (map snd (run_shots (client_run tp pf (map Poll nows) (ex_client a)))) \<and>
    (case r of
       Inl _ \<Rightarrow> True
     | Inr _ \<Rightarrow> map snd (numbered out) = map snd (run_shots (client_run tp pf (map Poll nows) (ex_client a))))"
  using assms
proof (induction nows arbitrary: a out r)
  case (Cons now nows)
  show ?case
  proof (cases tp pf now a rule: turn_cases)
    case (event ev c)
    let ?p = "print_event ev (a\<lparr>ex_client := c\<rparr>)"
    obtain rest r' where rest: "example_run tp pf nows (snd ?p) = (rest, r')" by fastforce
    then have out: "out = fst ?p @ rest" "r = r'" using Cons.prems event(2) by auto
    note IH = Cons.IH [OF rest]
    show ?thesis
    proof (cases "\<exists>s. ev = Shot s")
      case True
      then obtain s where s: "ev = Shot s" ..
      have "[0..<Suc (length (numbered rest))] = 0 # map Suc [0..<length (numbered rest)]"
        by (simp add: upt_conv_Cons map_Suc_upt del: upt_Suc)
      then show ?thesis
        using IH event(1) s out
        by (auto simp: numbered_event Let_def run_shots_Cons add.assoc comp_def simp del: upt_Suc split: sum.splits)
    next
      case False
      then show ?thesis
        using IH event(1) out
        by (auto simp: numbered_event Let_def run_shots_Cons split: event.splits sum.splits)
    qed
  next
    case (quiet q c ls)
    obtain rest r' where rest: "example_run tp pf nows (a\<lparr>ex_client := c\<rparr>) = (rest, r')" by fastforce
    then have out: "out = ls @ rest" "r = r'" using Cons.prems quiet(5) by auto
    show ?thesis
      using Cons.IH [OF rest] quiet(1-3) out
      by (auto simp: run_shots_Cons split: sum.splits option.splits)
  next
    case (gone e c)
    then show ?thesis using Cons.prems by auto
  next
    case (halt f c stop)
    then show ?thesis using Cons.prems by auto
  qed
qed simp


lemma run_ready:
  assumes "example_run tp pf nows a = (out, r)" "numbered out = []"
    and "\<And>op st c. (op, Inr (Some (StateChanged st)), c) \<notin> set (client_run tp pf (map Poll nows) (ex_client a))"
  shows "count_list out ReadyLine \<le> (if ex_ready_printed a then 0 else 1)"
  using assms
proof (induction nows arbitrary: a out r)
  case (Cons now nows)
  show ?case
  proof (cases tp pf now a rule: turn_cases)
    case (event ev c)
    let ?p = "print_event ev (a\<lparr>ex_client := c\<rparr>)"
    obtain rest r' where rest: "example_run tp pf nows (snd ?p) = (rest, r')" by fastforce
    then have out: "out = fst ?p @ rest" using Cons.prems(1) event(2) by auto
    have "count_list rest ReadyLine \<le> (if ex_ready_printed (snd ?p) then 0 else 1)"
      using Cons.prems(2,3) event(1) out by (intro Cons.IH [OF rest]) (auto simp: numbered_event)
    moreover have "\<And>st. ev \<noteq> StateChanged st" using Cons.prems(3) event(1) by force
    moreover have "\<And>s. ev \<noteq> Shot s" using Cons.prems(2) out by (auto simp: numbered_event)
    ultimately show ?thesis
      using out by (cases ev) (auto simp: print_event_def split: if_splits)
  next
    case (quiet q c ls)
    obtain rest r' where rest: "example_run tp pf nows (a\<lparr>ex_client := c\<rparr>) = (rest, r')" by fastforce
    then have out: "out = ls @ rest" using Cons.prems(1) quiet(5) by auto
    have "count_list rest ReadyLine \<le> (if ex_ready_printed (a\<lparr>ex_client := c\<rparr>) then 0 else 1)"
      using Cons.prems(2,3) quiet(1) out by (intro Cons.IH [OF rest]) auto
    then show ?thesis using out quiet(4) by (simp add: count_notin)
  next
    case (gone e c)
    then show ?thesis using Cons.prems by auto
  next
    case (halt f c stop)
    then show ?thesis using Cons.prems by auto
  qed
qed simp

text \<open>A run that ended did so with status 1 and a transport error as its last line, the only one.\<close>

definition ends_well :: "console list \<Rightarrow> example_stop + 't example \<Rightarrow> bool" where
  "ends_well out r \<longleftrightarrow>
     (case r of
        Inl s \<Rightarrow> s = ExitOne \<and> (\<exists>ls e. out = ls @ [TransportErrorLine e] \<and> (\<forall>e. TransportErrorLine e \<notin> set ls))
      | Inr _ \<Rightarrow> \<forall>e. TransportErrorLine e \<notin> set out)"

lemma ends_well_append:
  assumes "\<And>e. TransportErrorLine e \<notin> set ls" "ends_well rest r"
  shows "ends_well (ls @ rest) r"
proof (cases r)
  case (Inl s)
  then obtain ms e where "s = ExitOne" "rest = ms @ [TransportErrorLine e]" "\<forall>e. TransportErrorLine e \<notin> set ms"
    using assms(2) by (auto simp: ends_well_def)
  then show ?thesis using Inl assms(1) by (auto simp: ends_well_def intro!: exI [of _ "ls @ ms"])
qed (use assms in \<open>auto simp: ends_well_def\<close>)

lemma run_ends:
  assumes "transport_contract tp"
  shows "client_reach tp pf (ex_client a) \<Longrightarrow> example_run tp pf nows a = (out, r) \<Longrightarrow> ends_well out r"
proof (induction nows arbitrary: a out r)
  case (Cons now nows)
  have returns: "fst (client_poll tp pf now (ex_client a)) \<notin> {Inl Panicked, Inl Blocked}"
    using transport_contract.reach_no_panic [OF assms Cons.prems(1), of "Poll now"] by simp
  show ?case
  proof (cases tp pf now a rule: turn_cases)
    case (event ev c)
    let ?p = "print_event ev (a\<lparr>ex_client := c\<rparr>)"
    obtain rest r' where rest: "example_run tp pf nows (snd ?p) = (rest, r')" by fastforce
    then have out: "out = fst ?p @ rest" "r = r'" using Cons.prems(2) event(2) by auto
    have "client_reach tp pf (ex_client (snd ?p))"
      using client_reach.step [OF Cons.prems(1), of "Poll now"] event(1) by (simp add: numbered_event)
    note IH = Cons.IH [OF this rest]
    have "TransportErrorLine e \<notin> set (fst ?p)" for e
      by (auto simp: print_event_def shot_lines_def Let_def split: event.splits option.splits if_splits)
    then show ?thesis using IH out by (simp add: ends_well_append)
  next
    case (quiet q c ls)
    obtain rest r' where rest: "example_run tp pf nows (a\<lparr>ex_client := c\<rparr>) = (rest, r')" by fastforce
    then have out: "out = ls @ rest" "r = r'" using Cons.prems(2) quiet(5) by auto
    have "client_reach tp pf (ex_client (a\<lparr>ex_client := c\<rparr>))"
      using client_reach.step [OF Cons.prems(1), of "Poll now"] quiet(1) by simp
    note IH = Cons.IH [OF this rest]
    have "TransportErrorLine e \<notin> set ls" for e using quiet(6) by blast
    then show ?thesis using IH out by (simp add: ends_well_append)
  next
    case (gone e c)
    then show ?thesis using Cons.prems(2) by (auto simp: ends_well_def)
  next
    case (halt f c stop)
    then show ?thesis using returns by auto
  qed
qed (simp add: ends_well_def)

lemma run_continues:
  "list_all (\<lambda>(op, q, c). \<exists>ev. q = Inr ev) (client_run tp pf (map Poll nows) (ex_client a)) \<Longrightarrow>
   \<exists>out a'. example_run tp pf nows a = (out, Inr a')"
proof (induction nows arbitrary: a)
  case (Cons now nows)
  obtain ev c where poll: "client_poll tp pf now (ex_client a) = (Inr ev, c)"
    using Cons.prems by (cases "client_poll tp pf now (ex_client a)") auto
  obtain out a1 where a1: "example_turn tp pf now a = (out, Inr a1)" "ex_client a1 = c"
    using poll by (cases ev) (auto simp: example_turn_def numbered_event split_beta)
  then show ?case using Cons.IH [of a1] Cons.prems poll by (auto simp: split_beta)
qed simp

lemma start_example_fields:
  assumes "start_example tp conn address m = (ls, Inr a)"
  shows "ex_shot_count a = 0" "client_reach tp pf (ex_client a)"
proof -
  obtain t c where start: "client_start tp (client_new t (unat (m t))) = (Inr (), c)"
      and a: "a = \<lparr>ex_client = c, ex_shot_count = 0, ex_ready_printed = False\<rparr>"
    using assms by (auto simp: start_example_def split: sum.splits prod.splits failure.splits)
  have "client_exec tp pf Start (client_new t (unat (m t))) = (Inr None, c)" by (simp add: start)
  then have "client_reach tp pf c" by (rule client_reach.step [OF client_reach.new])
  then show "client_reach tp pf (ex_client a)" using a by simp
  show "ex_shot_count a = 0" using a by simp
qed

subsection \<open>Properties\<close>

text \<open>C37: shots are numbered in order: in any run of the example the printed shots are numbered from 1 by one, their
  identifiers are those of the shots the client returned, in order, and none is left out as long as the program
  runs.\<close>

theorem example_numbers_shots:
  assumes "start_example tp conn address m = (ls, Inr a)" "example_run tp pf nows a = (out, r)"
  shows "map fst (numbered out) = map (\<lambda>i. word_of_nat (Suc i)) [0..<length (numbered out)] \<and>
    prefix (map snd (numbered out)) (map snd (run_shots (client_run tp pf (map Poll nows) (ex_client a)))) \<and>
    (case r of
       Inl _ \<Rightarrow> True
     | Inr _ \<Rightarrow> map snd (numbered out) = map snd (run_shots (client_run tp pf (map Poll nows) (ex_client a))))"
  using run_numbers [OF assms(2)] start_example_fields(1) [OF assms(1)] by simp

definition demo_wire :: mock_transport where
  "demo_wire =
     \<lparr>mock_rx = [demo_register, notification_of 6 (MSG_PROTOBUF_REQUEST, protobuf_payload 4 [4]),
        notification_of 6 (MSG_PROTOBUF_REQUEST, protobuf_payload 4 [4])], mock_tx = [], mock_reg_tx = []\<rparr>"

definition demo_example :: "mock_transport example" where
  "demo_example =
     \<lparr>ex_client = snd (client_start mock_ops (client_new demo_wire 20)), ex_shot_count = 0, ex_ready_printed = False\<rparr>"

lemma demo_example_starts:
  "start_example mock_ops (Inr demo_wire) (\<lambda>_. ''R10'') (\<lambda>_. 20) = ([Searching, Connected ''R10'' 20], Inr demo_example)"
  by (simp add: start_example_def demo_example_def client_start_def mock_ops_def)

lemma demo_example_polls:
  "map (\<lambda>(op, r, c). (op, r)) (client_run mock_ops demo_platform (map Poll [0, 1, 60000000001]) (ex_client demo_example)) =
    [(Poll 0, Inr (Some (Registered 6))), (Poll 1, Inr (Some (Shot demo_shot))), (Poll 60000000001, Inr (Some (Shot demo_shot)))]"
proof -
  let ?nows = "map Poll [0, 1, 60000000001] :: mock_transport client_op list"
  have start: "client_exec mock_ops demo_platform Start (client_new demo_wire 20) = (Inr None, ex_client demo_example)"
    by (simp add: demo_example_def client_start_def mock_ops_def)
  have "map (\<lambda>(op, r, c). r) (client_run mock_ops demo_platform (Start # ?nows) (client_new demo_wire 20)) =
    [Inr None, Inr (Some (Registered 6)), Inr (Some (Shot demo_shot)), Inr (Some (Shot demo_shot))]"
    unfolding demo_wire_def
    using shot_run [OF demo_registered, where s = demo_shot and pb = "[4]" and pf = demo_platform and ?t0.0 = 0 and ?t1.0 = 1
        and ?t2.0 = 60000000001 and mt = MSG_PROTOBUF_REQUEST]
    by (simp add: demo_facts secs_since_def SHOT_DEDUP_WINDOW_SECS_def del: client_exec.simps)
  moreover have "map (\<lambda>(op, r, c). (op, r)) (client_run mock_ops demo_platform ops c) =
      zip ops (map (\<lambda>(op, r, c). r) (client_run mock_ops demo_platform ops c))" for ops and c :: "mock_transport client"
    by (induction ops arbitrary: c) (auto simp: Let_def split: prod.splits)
  ultimately have "map (\<lambda>(op, r, c). (op, r)) (client_run mock_ops demo_platform ?nows (ex_client demo_example)) =
      zip ?nows [Inr (Some (Registered 6)), Inr (Some (Shot demo_shot)), Inr (Some (Shot demo_shot))]"
    using start by (simp del: client_exec.simps list.map add: list.map(2) [of _ "(_, _)"])
  then show ?thesis by (rule trans) simp
qed

lemma demo_example_runs:
  obtains out a where "example_run mock_ops demo_platform [0, 1, 60000000001] demo_example = (out, Inr a)"
    "run_shots (client_run mock_ops demo_platform (map Poll [0, 1, 60000000001]) (ex_client demo_example)) =
       [(1, 7), (60000000001, 7)]"
proof -
  let ?run = "client_run mock_ops demo_platform (map Poll [0, 1, 60000000001]) (ex_client demo_example)"
  obtain c1 c2 c3 where run: "?run = [(Poll 0, Inr (Some (Registered 6)), c1), (Poll 1, Inr (Some (Shot demo_shot)), c2),
      (Poll 60000000001, Inr (Some (Shot demo_shot)), c3)]"
    using demo_example_polls by (auto simp only: map_eq_Cons_conv map_is_Nil_conv split_paired_all prod.case prod.inject)
  then have "list_all (\<lambda>(op, q, c). \<exists>ev. q = Inr ev) ?run" by simp
  from run_continues [OF this] show thesis using that run by (auto simp: demo_shot_def)
qed

theorem example_numbers_shots_witness:
  "\<exists>out a. example_run mock_ops demo_platform [0, 1, 60000000001] demo_example = (out, Inr a) \<and>
     numbered out = [(1, 7), (2, 7)]"
proof -
  obtain out a where run: "example_run mock_ops demo_platform [0, 1, 60000000001] demo_example = (out, Inr a)"
      "run_shots (client_run mock_ops demo_platform (map Poll [0, 1, 60000000001]) (ex_client demo_example)) =
         [(1, 7), (60000000001, 7)]"
    using demo_example_runs by metis
  from example_numbers_shots [OF demo_example_starts run(1), unfolded run(2)]
  have ids: "map snd (numbered out) = [7, 7]"
    and counts: "map fst (numbered out) = map (\<lambda>i. word_of_nat (Suc i)) [0..<length (numbered out)]"
    by simp_all
  have "length (numbered out) = 2" using arg_cong [OF ids, of length] by simp
  then have "zip (map fst (numbered out)) (map snd (numbered out)) = [(1, 7), (2, 7)]"
    unfolding ids counts by (simp add: numeral_2_eq_2)
  then show ?thesis using run(1) by (simp only: zip_map_fst_snd) blast
qed

text \<open>Ready is announced once: as long as no shot is printed and no change of state reported, the example prints that
  the device is ready at most once, however often the client says so.\<close>

theorem example_ready_printed_once:
  assumes "start_example tp conn address m = (ls, Inr a)" "example_run tp pf nows a = (out, r)" "numbered out = []"
    and "\<And>op st c. (op, Inr (Some (StateChanged st)), c) \<notin> set (client_run tp pf (map Poll nows) (ex_client a))"
  shows "count_list out ReadyLine \<le> 1"
  using run_ready [OF assms(2-4)] by (simp split: if_splits)

lemma no_shots:
  "(\<And>op q c. (op, q, c) \<in> set run \<Longrightarrow> case q of Inr (Some (Shot _)) \<Rightarrow> False | _ \<Rightarrow> True) \<Longrightarrow> run_shots run = []"
proof (induction run)
  case (Cons x run)
  obtain op q c where x: "x = (op, q, c)" by (metis surj_pair)
  then have "case q of Inr (Some (Shot _)) \<Rightarrow> False | _ \<Rightarrow> True" using Cons.prems [of op q c] by simp
  moreover have "run_shots run = []" using Cons.prems by (intro Cons.IH) auto
  ultimately show ?case
    unfolding x by (auto simp: run_shots_Cons split: client_op.splits sum.splits option.splits event.splits)
qed simp

definition demo_ready :: "mock_transport example" where
  "demo_ready =
     \<lparr>ex_client = snd (client_start mock_ops demo_session), ex_shot_count = 0, ex_ready_printed = False\<rparr>"

theorem example_ready_printed_once_witness:
  "count_list (fst (example_run mock_ops demo_platform [0, 1, 2, 3, 4, 5, 6] demo_ready)) ReadyLine \<le> 1"
proof -
  let ?nows = "[0, 1, 2, 3, 4, 5, 6] :: nat list"
  let ?run = "client_run mock_ops demo_platform (map Poll ?nows) (ex_client demo_ready)"
  obtain out r where run: "example_run mock_ops demo_platform ?nows demo_ready = (out, r)" by fastforce
  have start: "client_exec mock_ops demo_platform Start demo_session = (Inr None, ex_client demo_ready)"
    by (simp add: demo_ready_def demo_session_def client_start_def mock_ops_def)
  have ready: "start_example mock_ops (Inr (transport demo_session)) (\<lambda>_. ''R10'') (\<lambda>_. 20) =
      ([Searching, Connected ''R10'' 20], Inr demo_ready)"
    by (simp add: start_example_def demo_ready_def client_start_def mock_ops_def demo_session_def client_new_def)
  have "map (\<lambda>(op, r, c). (r, phase c)) (client_run mock_ops demo_platform (Start # map Poll ?nows) demo_session) =
      (Inr None, Registering) # map (\<lambda>(op, r, c). (r, phase c)) ?run"
    using start by (simp del: client_exec.simps list.map add: list.map(2) [of _ "(_, _)"]) (simp add: demo_ready_def demo_session_def client_start_def mock_ops_def)
  then have results: "map (\<lambda>(op, r, c). (r, phase c)) ?run =
     [(Inr (Some (Registered 6)), WaitDeviceInfo), (Inr None, WaitCapabilities),
      (Inr None, WaitCapabilitiesAck), (Inr (Some HandshakeComplete), Subscribing),
      (Inr (Some (Subscribed True)), WakingUp), (Inr (Some (Woken 0)), Active), (Inr (Some Ready), Active)]"
    using demo_run by simp
  let ?quiet = "\<lambda>q. case q of Inr (Some (Shot _)) \<Rightarrow> False | Inr (Some (StateChanged _)) \<Rightarrow> False | _ \<Rightarrow> True"
  have "list_all (\<lambda>(q, p). ?quiet q) (map (\<lambda>(op, r, c). (r, phase c)) ?run)" unfolding results by simp
  then have "list_all (\<lambda>x. ?quiet (fst (snd x))) ?run" by (simp only: list.pred_map comp_def split_beta prod.sel)
  then have all: "\<forall>x \<in> set ?run. ?quiet (fst (snd x))" unfolding list_all_iff .
  have quiet: "?quiet q" if "(op, q, c) \<in> set ?run" for op q c
    using bspec [OF all that] by (simp only: prod.sel)
  have "run_shots ?run = []"
  proof (rule no_shots)
    fix op q c
    assume "(op, q, c) \<in> set ?run"
    from quiet [OF this] show "case q of Inr (Some (Shot _)) \<Rightarrow> False | _ \<Rightarrow> True"
      by (auto split: sum.splits option.splits event.splits)
  qed
  then have "numbered out = []" using run_numbers [OF run] by simp
  moreover have "(op, Inr (Some (StateChanged st)), c) \<notin> set ?run" for op st c using quiet [of op _ c] by fastforce
  ultimately have "count_list out ReadyLine \<le> 1" by (rule example_ready_printed_once [OF ready run])
  then show ?thesis by (simp only: run fst_conv)
qed

text \<open>C38: the example ends only when the transport fails: over any transport that meets the contract the loop does not
  panic or block, and a run that ended printed a transport error as its last line and nowhere before.\<close>

theorem example_ends_only_on_transport_error:
  assumes "transport_contract tp" "start_example tp conn address m = (ls, Inr a)" "example_run tp pf nows a = (out, r)"
  shows "case r of
       Inl s \<Rightarrow> s = ExitOne \<and> (\<exists>ms e. out = ms @ [TransportErrorLine e] \<and> (\<forall>e. TransportErrorLine e \<notin> set ms))
     | Inr _ \<Rightarrow> \<forall>e. TransportErrorLine e \<notin> set out"
  using run_ends [OF assms(1) start_example_fields(2) [OF assms(2)] assms(3)] unfolding ends_well_def .

theorem example_ends_only_on_transport_error_witness:
  "\<exists>out a. example_run mock_ops demo_platform [0, 1, 60000000001] demo_example = (out, Inr a) \<and>
     (\<forall>e. TransportErrorLine e \<notin> set out)"
proof -
  obtain out a where run: "example_run mock_ops demo_platform [0, 1, 60000000001] demo_example = (out, Inr a)"
    using demo_example_runs by metis
  from example_ends_only_on_transport_error [OF mock.transport_contract_axioms demo_example_starts run] show ?thesis
    using run by auto
qed

end
