(* ===== verification/Spec2Isabelle.thy ===== *)
theory Spec2Isabelle
  imports Capture_Tests Capture_Replay Codec_Tests Client_Tests Client_Stream App_Properties Golden_Client R10_Example
begin

text \<open>
  A model of \<open>tenover\<close>, the Rust library for the Garmin Approach R10 launch monitor, and of its program
  \<open>tenover-frp\<close>, with the theorems that make them correct.

  \<^bold>\<open>The program.\<close> A BLE transport delivers notifications of at most a few dozen bytes. Each starts with the
  MultiLink handle byte; the rest is a byte stream of COBS-encoded GFDI frames between zero delimiters. A
  frame has a length, a type, a payload and a CRC-16; protobuf messages travel in frames of two types behind
  a fragmentation header. The client polls the transport, takes at most one frame per poll, answers the
  handshake (device information, capabilities, subscription, wake request), acknowledges messages and
  returns events. The FRP device turns events into Flight Relay Protocol envelopes for one controller at a
  time. The program loops over both. Captured traffic is anonymised by the identity filter.

  \<^bold>\<open>Theories and sources\<close> (paths under \<open>src/\<close>; a definition has the name of the function or type it models,
  with a prefix or suffix where the name is taken):

  \<^item> \<open>Prelude\<close>: machine words, little-endian conversions, slices, \<open>chunks\<close>, \<open>position\<close>, and \<open>and_then\<close>, the
    \<open>?\<close> of a method that takes \<open>&mut self\<close>.
  \<^item> \<open>Crc16\<close> (\<open>src/crc.rs\<close>): the nibble-table CRC, equal to bit-serial CRC-16/ARC; linearity and detection of
    short damage.
  \<^item> \<open>Cobs\<close> (\<open>src/cobs.rs\<close>): encoder and decoder with their index loops; exactly which inputs survive a round
    trip, and what is lost of the others.
  \<^item> \<open>Errors\<close> (\<open>src/error.rs\<close>) and \<open>Multilink\<close> (\<open>src/multilink.rs\<close>): the error type, response codes, the REGISTER
    messages, the handle byte and chunking.
  \<^item> \<open>Gfdi_Frame\<close>, \<open>Stream_Buffer\<close>, \<open>Gfdi_Handshake\<close> (\<open>src/gfdi.rs\<close>): frames and their checksum (locale
    \<open>frame_check\<close>), the stream buffer (locale \<open>delimited_codec\<close>), and the handshake's payloads with lossy UTF-8
    decoding written out and shown to keep every text encoded by the standard's own formula.
  \<^item> \<open>Testing_Frames\<close> (\<open>src/testing.rs\<close>) and \<open>Capture\<close> (\<open>src/capture.rs\<close>): synthetic frames; the identity filter,
    what it releases, what it never releases, its bounds.
  \<^item> \<open>Capture_Traffic\<close>: the filter on complete frames cut into chunks: what is recorded follows from the
    positions of the frames, only bytes of other frames are in it, and the filter is as new afterwards.
    \<open>Capture_Replay\<close>: what a recording gives when it is replayed through the stream buffer.
  \<^item> \<open>Codec_Tests\<close>, \<open>Capture_Tests\<close>: the unit tests inside \<open>src/crc.rs\<close>, \<open>src/cobs.rs\<close>, \<open>src/multilink.rs\<close>, \<open>src/gfdi.rs\<close>,
    \<open>src/testing.rs\<close> and \<open>src/capture.rs\<close> as predicates on the model, and that they hold. They check the
    definitions against values the code's authors wrote down.
  \<^item> \<open>Float32\<close>, \<open>Proto\<close> (\<open>src/proto.rs\<close>, \<open>proto/*.proto\<close>): single-precision arithmetic on bit patterns, the
    messages, the requests and the decoding of an envelope into an event.
  \<^item> \<open>Transport\<close>, \<open>Client\<close> (\<open>src/client.rs\<close>): the transport trait as a record of operations with its contract as
    the locale \<open>transport_contract\<close>; the client's state, every method, and the effect of a frame and of a
    poll (\<open>frame_effect\<close>, \<open>poll_effect\<close>) over any transport that meets the contract.
  \<^item> \<open>Client_Runs\<close>: sequences of calls. The handshake's order, each shot once, bounds, and that no call panics
    or blocks.
  \<^item> \<open>Client_Session\<close>, \<open>Session_Properties\<close>: the client on the mock transport. A whole session up to \<open>Ready\<close>,
    repeated and lost shots, requests as they look on the wire.
  \<^item> \<open>Client_Refinement\<close>: an abstract session, a table of what each message means, and the proof that
    handling a frame implements it.
  \<^item> \<open>Client_Stream\<close>: from any registered client, enough polls give what the joined byte stream means in that
    session, however the stream is cut into notifications.
  \<^item> \<open>Bluez\<close> (\<open>src/bluez.rs\<close>), \<open>Btleplug\<close> (\<open>src/btleplug.rs\<close>), \<open>Ble\<close> (\<open>src/ble.rs\<close>): the two backends with
    device discovery, and the type that picks one. Writing returns, connecting takes bounded time, the two
    threads of the btleplug backend keep order, and what happens when the device is gone.
  \<^item> \<open>Frp_Convert\<close> (\<open>src/frp/convert.rs\<close>), \<open>Frp\<close>, \<open>Frp_Properties\<close> (\<open>src/frp/mod.rs\<close>): the FRP device, its
    acceptor thread as steps of their own, its connections, what a controller receives.
  \<^item> \<open>Frp_App\<close>, \<open>App_Properties\<close> (\<open>src/bin/tenover-frp.rs\<close>): the program, that it neither panics nor blocks, and the
    way of a shot through every layer.
  \<^item> \<open>Wire_Format\<close>, \<open>Wire_Schema\<close> (\<open>proto/*.proto\<close>): the binary format of the messages, a writer and a reader for
    each, and that reading what was written gives the message back. The locale \<open>speaks_protobuf\<close> is the
    contract of the protobuf library.
  \<^item> \<open>Wire_Golden\<close>, \<open>Golden_Client\<close> (\<open>src/wire_golden.rs\<close>): the recorded frames and every test on them as a predicate,
    proved for every library that meets the contract; any shot from its bytes to the event.
  \<^item> \<open>Client_Tests\<close>: the unit tests inside \<open>src/proto.rs\<close>, \<open>src/client.rs\<close> and \<open>src/frp/convert.rs\<close>, in the same way.
  \<^item> \<open>R10_Example\<close> (\<open>examples/r10.rs\<close>): the console program, what it prints of the client's events and when it ends.

  \<^bold>\<open>How Rust is modelled.\<close> Structs are records, enums datatypes, \<open>Result\<close> a sum with the error on the left;
  \<open>u8\<close> to \<open>u128\<close> and \<open>i32\<close> are words, \<open>usize\<close> is \<open>nat\<close> (taken as wide enough for the sizes at hand, as on 64-bit
  targets); \<open>f32\<close> and \<open>f64\<close> are bit patterns. Besides an error, a write of a transport can end in a panic or not at
  all (\<open>write_failure\<close>); for the client these are \<open>Panicked\<close>, also the outcome of its own slices out of range, and
  \<open>Blocked\<close>, and both stop the programs. Panics inside printing (a closed stream) and of an overflowing counter are not
  modelled: counters that \<open>+=\<close> increases wrap, as in a release build. A loop that may not end is
  \<open>write_all_fd\<close>, a \<open>partial_function\<close> whose value \<open>None\<close> is a write that blocks; it is shown to return, and not to slice
  out of range, for a kernel that takes at least one byte per write and no more than it was given
  (\<open>fd_contract\<close>), and the writes of the btleplug backend return when its background task leaves room for them
  (\<open>makes_room\<close>). The other loops end by a measure or by recursion on data, so no fuel is used.

  \<^bold>\<open>Parameters.\<close> The protobuf library and \<open>cosf\<close>/\<open>sinf\<close> (record \<open>platform\<close>), the kernel, D-Bus and the clock
  (\<open>linux\<close>), the btleplug library (\<open>radio\<close>), the Flight Relay Protocol crate (\<open>frp_ops\<close>). What the theorems need
  of them is a named hypothesis: \<open>speaks_protobuf\<close>, \<open>golden_trig\<close> and
  \<open>convert_trig\<close>, \<open>fd_contract\<close>, \<open>makes_room\<close>, \<open>write_contract\<close>, \<open>clock_contract\<close>, \<open>conn_log\<close>; each is shown to
  hold of a concrete instance in a witness.

  \<^bold>\<open>What the model shows to be wrong.\<close> Frames whose CRC ends in zero arrive short of payload bytes and are
  accepted (\<open>link_roundtrip\<close>); a stream joined inside a frame never recovers (\<open>stray_delimiter_never_recovers\<close>);
  a shot is lost when its acknowledgment cannot be written (\<open>shot_lost_when_ack_fails\<close>), and a subscription is
  not retried (\<open>failed_subscribe_is_not_retried\<close>); a lost link is never reported (\<open>lost_link_never_reported\<close>); a recording in which the
  opening delimiter of a dropped frame ends a chunk replays to nothing (\<open>cut_delimiter_spoils_the_replay\<close>); the names after one that is cut short are read from inside
  it (\<open>device_names_parsed\<close>); a
  client with an MTU below 2 writes nothing (\<open>tiny_mtu_drops_writes\<close>).

  \<^bold>\<open>Not modelled.\<close> The tests of \<open>src/frp/mod.rs\<close> and the one test of \<open>src/frp/convert.rs\<close> that run the protocol
  crate's own code, the build script, what
  \<open>tenover-frp\<close> prints and how the example rounds what it prints, sleeping, closing descriptors on drop, the
  messages of errors, and the serialisation derives.
\<close>

end
